theory Spec2Isabelle
  imports Main "HOL-Library.Word" "HOL-Library.Sublist"
begin

section \<open>Machine types, errors and formatted messages\<close>

type_synonym u64 = "64 word"
type_synonym bytes = "8 word list"

text \<open>
  A Go \<open>error\<close> value. \<open>New\<close> is \<open>errors.New\<close>, \<open>Errorf\<close> is \<open>fmt.Errorf\<close> and
  \<open>errors.Errorf\<close> with the arguments of the format kept beside it, \<open>Wrap\<close> and \<open>Wrapf\<close>
  are those of \<open>github.com/pkg/errors\<close>, which put their own text in front of the
  wrapped error's.
\<close>

datatype fmtarg = ArgS string | ArgD nat | ArgX bytes

datatype error =
    New string
  | Errorf string "fmtarg list"
  | Wrap error string
  | Wrapf error string "fmtarg list"

fun digit :: "nat \<Rightarrow> char" where
  "digit n = (''0123456789abcdef'' ! n)"

fun dec :: "nat \<Rightarrow> string" where
  "dec n = (if n < 10 then [digit n] else dec (n div 10) @ [digit (n mod 10)])"

declare dec.simps [simp del]

fun hex :: "bytes \<Rightarrow> string" where
  "hex [] = []"
| "hex (b # bs) = digit (unat b div 16) # digit (unat b mod 16) # hex bs"

fun render :: "fmtarg \<Rightarrow> string" where
  "render (ArgS s) = s"
| "render (ArgD n) = dec n"
| "render (ArgX bs) = (if bs = [] then [] else ''0x'' @ hex bs)"

text \<open>
  The verbs the sources use are \<open>%s\<close>, \<open>%d\<close>, \<open>%v\<close> and \<open>%#x\<close>; each takes the next
  argument, which carries its own rendering. \<open>%#x\<close> prints nothing for a byte slice
  without bytes.
\<close>

fun sprintf :: "string \<Rightarrow> fmtarg list \<Rightarrow> string" where
  "sprintf [] args = []"
| "sprintf [c] args = [c]"
| "sprintf (c # d # cs) args =
     (if c = CHR ''%'' then
        (case args of
           [] \<Rightarrow> c # sprintf (d # cs) args
         | a # as \<Rightarrow>
             (if d = CHR ''#'' then render a @ sprintf (tl cs) as
              else render a @ sprintf cs as))
      else c # sprintf (d # cs) args)"

fun error_message :: "error \<Rightarrow> string" where
  "error_message (New s) = s"
| "error_message (Errorf f args) = sprintf f args"
| "error_message (Wrap e s) = s @ '': '' @ error_message e"
| "error_message (Wrapf e f args) = sprintf f args @ '': '' @ error_message e"

section \<open>Configuration\<close>

text \<open>
  Modelled from the spec: \<open>params.BeaconConfig()\<close> is not among the sources. The
  constants are those of the mainnet preset listed in the specification's section on
  external interfaces.
\<close>

definition SlotsPerEpoch :: u64 where "SlotsPerEpoch = 32"
definition SlotsPerHistoricalRoot :: u64 where "SlotsPerHistoricalRoot = 8192"
definition TargetCommitteeSize :: u64 where "TargetCommitteeSize = 128"
definition MaxCommitteesPerSlot :: u64 where "MaxCommitteesPerSlot = 64"
definition MaxEffectiveBalance :: u64 where "MaxEffectiveBalance = 32000000000"
definition EffectiveBalanceIncrement :: u64 where "EffectiveBalanceIncrement = 1000000000"
definition FarFutureEpoch :: u64 where "FarFutureEpoch = - 1"
definition ShardCommitteePeriod :: u64 where "ShardCommitteePeriod = 256"
definition DepositContractTreeDepth :: u64 where "DepositContractTreeDepth = 32"
definition MaxProposerSlashings :: u64 where "MaxProposerSlashings = 16"
definition MaxAttesterSlashings :: u64 where "MaxAttesterSlashings = 2"
definition MaxAttestations :: u64 where "MaxAttestations = 128"
definition MaxDeposits :: u64 where "MaxDeposits = 16"
definition MaxVoluntaryExits :: u64 where "MaxVoluntaryExits = 16"

section \<open>Validators and voluntary exits (core/blocks/exit.go)\<close>

record validator =
  PublicKey :: bytes
  WithdrawalCredentials :: bytes
  EffectiveBalance :: u64
  Slashed :: bool
  ActivationEligibilityEpoch :: u64
  ActivationEpoch :: u64
  ExitEpoch :: u64
  WithdrawableEpoch :: u64

record voluntary_exit =
  Epoch :: u64
  ValidatorIndex :: u64

text \<open>
  Modelled from the spec: \<open>helpers.SlotToEpoch\<close> is not among the sources. An epoch is
  \<open>SLOTS_PER_EPOCH\<close> consecutive slots (glossary).
\<close>

definition SlotToEpoch :: "u64 \<Rightarrow> u64" where
  "SlotToEpoch slot = slot div SlotsPerEpoch"

text \<open>
  Modelled from the spec: \<open>helpers.IsActiveValidatorUsingTrie\<close> is not among the
  sources. A validator is active at epoch \<open>e\<close> when
  \<open>activation_epoch \<le> e < exit_epoch\<close> (section 4.C).
\<close>

definition IsActiveValidatorUsingTrie :: "validator \<Rightarrow> u64 \<Rightarrow> bool" where
  "IsActiveValidatorUsingTrie v epoch \<longleftrightarrow> ActivationEpoch v \<le> epoch \<and> epoch < ExitEpoch v"

definition ValidatorAlreadyExitedMsg :: string where
  "ValidatorAlreadyExitedMsg = ''has already submitted an exit, which will take place at epoch''"

definition ValidatorCannotExitYetMsg :: string where
  "ValidatorCannotExitYetMsg = ''validator has not been active long enough to exit''"

text \<open>\<open>verifyExitConditions\<close>: \<open>None\<close> is the \<open>nil\<close> error.\<close>

definition verifyExitConditions :: "validator \<Rightarrow> u64 \<Rightarrow> voluntary_exit \<Rightarrow> error option" where
  "verifyExitConditions v currentSlot exit =
     (let currentEpoch = SlotToEpoch currentSlot in
      if \<not> IsActiveValidatorUsingTrie v currentEpoch then
        Some (New ''non-active validator cannot exit'')
      else if ExitEpoch v \<noteq> FarFutureEpoch then
        Some (Errorf ''validator with index %d %s: %v''
               [ArgD (unat (ValidatorIndex exit)), ArgS ValidatorAlreadyExitedMsg,
                ArgD (unat (ExitEpoch v))])
      else if currentEpoch < Epoch exit then
        Some (Errorf ''expected current epoch >= exit epoch, received %d < %d''
               [ArgD (unat currentEpoch), ArgD (unat (Epoch exit))])
      else if currentEpoch < ActivationEpoch v + ShardCommitteePeriod then
        Some (Errorf ''%s: %d epochs vs required %d epochs''
               [ArgS ValidatorCannotExitYetMsg, ArgD (unat currentEpoch),
                ArgD (unat (ActivationEpoch v + ShardCommitteePeriod))])
      else None)"

section \<open>Deposits, blocks and the beacon state\<close>

record deposit_data =
  DataPublicKey :: bytes
  DataWithdrawalCredentials :: bytes
  Amount :: u64
  Signature :: bytes

text \<open>A \<open>*ethpb.Deposit\<close> may be \<open>nil\<close>, and so may its \<open>Data\<close>: both are options.\<close>

record deposit =
  Proof :: "bytes list"
  Data :: "deposit_data option"

record deposit_message =
  MsgPublicKey :: bytes
  MsgWithdrawalCredentials :: bytes
  MsgAmount :: u64

record eth1data =
  DepositRoot :: bytes
  DepositCount :: u64
  BlockHash :: bytes

record signed_voluntary_exit =
  Exit :: "voluntary_exit option"
  ExitSignature :: bytes

text \<open>
  The operations whose processors are not among the sources are kept opaque; only the
  lengths of their lists are read.
\<close>

typedecl proposer_slashing
typedecl attester_slashing
typedecl attestation
typedecl pending_attestation

record beacon_block_body =
  ProposerSlashings :: "proposer_slashing list"
  AttesterSlashings :: "attester_slashing list"
  Attestations :: "attestation list"
  Deposits :: "deposit option list"
  VoluntaryExits :: "signed_voluntary_exit option list"

record beacon_block =
  BlockSlot :: u64
  ParentRoot :: bytes
  StateRoot :: bytes
  Body :: "beacon_block_body option"

record signed_beacon_block =
  Block :: "beacon_block option"
  BlockSignature :: bytes

record block_header =
  HeaderSlot :: u64
  HeaderProposerIndex :: u64
  HeaderParentRoot :: bytes
  HeaderStateRoot :: "bytes option"
  HeaderBodyRoot :: bytes

record fork =
  PreviousVersion :: bytes
  CurrentVersion :: bytes
  ForkEpoch :: u64

record checkpoint =
  CheckpointEpoch :: u64
  CheckpointRoot :: bytes

text \<open>
  Modelled from the spec: the state type \<open>stateV0.BeaconState\<close> and its accessors are not
  among the sources. The record has the fields of the specification's data model, in
  the order of its field indices. A getter is the field, a setter is the field update,
  and \<open>AppendValidator\<close>, \<open>AppendBalance\<close> extend their lists at the end.
\<close>

record beacon_state =
  GenesisTime :: u64
  GenesisValidatorRoot :: bytes
  Slot :: u64
  Fork :: fork
  LatestBlockHeader :: block_header
  BlockRoots :: "bytes list"
  StateRoots :: "bytes list"
  HistoricalRoots :: "bytes list"
  Eth1Data :: "eth1data option"
  Eth1DataVotes :: "eth1data list"
  Eth1DepositIndex :: u64
  Validators :: "validator list"
  Balances :: "u64 list"
  RandaoMixes :: "bytes list"
  Slashings :: "u64 list"
  PreviousEpochAttestations :: "pending_attestation list"
  CurrentEpochAttestations :: "pending_attestation list"
  JustificationBits :: bytes
  PreviousJustifiedCheckpoint :: checkpoint
  CurrentJustifiedCheckpoint :: checkpoint
  FinalizedCheckpoint :: checkpoint

text \<open>
  A context is read through \<open>ctx.Err()\<close> only. Its value, \<open>None\<close> for \<open>nil\<close>, is
  taken as fixed while one call runs.
\<close>

type_synonym go_context = "error option"

text \<open>
  A function of the sources that receives a state and returns \<open>(state, error)\<close> works on
  the state object it was given. Its embedding returns the error (\<open>None\<close> for \<open>nil\<close>)
  and the contents of that object when the call returns; the state it returns in Go is
  that object when the error is \<open>nil\<close> and \<open>nil\<close> otherwise.
\<close>

type_synonym 'a mutation = "'a \<Rightarrow> error option \<times> 'a"

text \<open>
  The hashing, SSZ and BLS primitives and the byte helpers are outside the sources (and
  outside the specification, which assumes them); they are parameters.
\<close>

record primitives =
  Hash :: "bytes \<Rightarrow> bytes"
  ToBytes48 :: "bytes \<Rightarrow> bytes"
  Trunc :: "bytes \<Rightarrow> bytes"
  DepositDataHashTreeRoot :: "deposit_data \<Rightarrow> error + bytes"
  DomainDeposit :: bytes
  ComputeDomain :: "bytes \<Rightarrow> bytes option \<Rightarrow> bytes option \<Rightarrow> error + bytes"
  VerifyDepositSignature :: "deposit_data \<Rightarrow> bytes \<Rightarrow> error option"
  PublicKeyFromBytes :: "bytes \<Rightarrow> error + bytes"
  ComputeSigningRoot :: "deposit_message \<Rightarrow> bytes \<Rightarrow> error + bytes"
  VerifyMultipleSignatures :: "bytes list \<Rightarrow> bytes list \<Rightarrow> bytes list \<Rightarrow> error + bool"

text \<open>
  Modelled from the spec: \<open>helpers.VerifyNilBeaconBlock\<close> is not among the sources. The
  nil inputs of the specification's error kinds are a nil block and a nil body.
\<close>

definition VerifyNilBeaconBlock :: "signed_beacon_block option \<Rightarrow> error + beacon_block_body" where
  "VerifyNilBeaconBlock b =
     (case b of
        None \<Rightarrow> Inl (New ''signed beacon block can't be nil'')
      | Some sb \<Rightarrow>
          (case Block sb of
             None \<Rightarrow> Inl (New ''signed beacon block can't be nil'')
           | Some blk \<Rightarrow>
               (case Body blk of
                  None \<Rightarrow> Inl (New ''beacon block body can't be nil'')
                | Some body \<Rightarrow> Inr body)))"

text \<open>
  Modelled from the spec: \<open>ValidatorIndexByPubkey\<close> reads the state's map from public
  keys to indices, which is not among the sources. The map is bijective with the
  validators list, so the lookup is the position of the key in that list.
\<close>

fun pubkey_position :: "primitives \<Rightarrow> validator list \<Rightarrow> bytes \<Rightarrow> nat option" where
  "pubkey_position p [] key = None"
| "pubkey_position p (v # vs) key =
     (if ToBytes48 p (PublicKey v) = key then Some 0
      else map_option Suc (pubkey_position p vs key))"

definition ValidatorIndexByPubkey :: "primitives \<Rightarrow> beacon_state \<Rightarrow> bytes \<Rightarrow> nat option" where
  "ValidatorIndexByPubkey p s key = pubkey_position p (Validators s) key"

text \<open>
  Modelled from the spec: \<open>helpers.IncreaseBalance\<close> is not among the sources. It is the
  specification's \<open>increase_balance(index, amount)\<close>; an index outside the balances is
  an error.
\<close>

definition IncreaseBalance :: "nat \<Rightarrow> u64 \<Rightarrow> beacon_state mutation" where
  "IncreaseBalance idx delta s =
     (if idx < length (Balances s)
      then (None, s\<lparr>Balances := (Balances s)[idx := Balances s ! idx + delta]\<rparr>)
      else (Some (Errorf ''index %d out of range'' [ArgD idx]), s))"

text \<open>
  The specification's check of a Merkle branch "with tree depth \<open>depth\<close>": the branch
  has \<open>depth\<close> siblings, and hashing the leaf with them, on the side that the bits of
  the position say, gives the root.
\<close>

fun merkle_climb :: "(bytes \<Rightarrow> bytes) \<Rightarrow> bytes \<Rightarrow> nat \<Rightarrow> bytes list \<Rightarrow> bytes" where
  "merkle_climb h node position [] = node"
| "merkle_climb h node position (sibling # branch) =
     merkle_climb h
       (if position mod 2 \<noteq> 0 then h (sibling @ node) else h (node @ sibling))
       (position div 2) branch"

definition is_valid_merkle_branch ::
  "(bytes \<Rightarrow> bytes) \<Rightarrow> bytes \<Rightarrow> bytes list \<Rightarrow> nat \<Rightarrow> nat \<Rightarrow> bytes \<Rightarrow> bool" where
  "is_valid_merkle_branch h leaf branch depth position root \<longleftrightarrow>
     length branch = depth \<and> merkle_climb h leaf position branch = root"

text \<open>
  Modelled from the spec: \<open>trieutil.VerifyMerkleBranch\<close> is not among the sources. The
  source passes it \<open>DepositContractTreeDepth\<close>, and the specification's deposit rule
  verifies the branch with tree depth \<open>DEPOSIT_CONTRACT_TREE_DEPTH + 1\<close>, the one more
  level being the list-length mix-in: the function checks a branch of \<open>depth + 1\<close>
  siblings. The position goes through \<open>int\<close> and back to \<open>uint64\<close> unchanged.
\<close>

definition VerifyMerkleBranch ::
  "primitives \<Rightarrow> bytes \<Rightarrow> bytes \<Rightarrow> u64 \<Rightarrow> bytes list \<Rightarrow> u64 \<Rightarrow> bool" where
  "VerifyMerkleBranch p root item merkleIndex proof depth =
     is_valid_merkle_branch (Hash p) item proof (unat depth + 1) (unat merkleIndex) root"

definition verifyDeposit :: "primitives \<Rightarrow> beacon_state \<Rightarrow> deposit option \<Rightarrow> error option" where
  "verifyDeposit p beaconState dep =
     (case dep of
        None \<Rightarrow> Some (New ''received nil deposit or nil deposit data'')
      | Some d \<Rightarrow>
     (case Data d of
        None \<Rightarrow> Some (New ''received nil deposit or nil deposit data'')
      | Some dat \<Rightarrow>
     (case Eth1Data beaconState of
        None \<Rightarrow> Some (New ''received nil eth1data in the beacon state'')
      | Some eth1Data \<Rightarrow>
     (let receiptRoot = DepositRoot eth1Data in
      case DepositDataHashTreeRoot p dat of
        Inl err \<Rightarrow> Some (Wrap err ''could not tree hash deposit data'')
      | Inr leaf \<Rightarrow>
          if \<not> VerifyMerkleBranch p receiptRoot leaf (Eth1DepositIndex beaconState)
                 (Proof d) DepositContractTreeDepth
          then Some (Errorf ''deposit merkle branch of deposit root did not verify for root: %#x''
                       [ArgX receiptRoot])
          else None))))"

definition verifyDepositDataSigningRoot :: "primitives \<Rightarrow> deposit_data \<Rightarrow> bytes \<Rightarrow> error option" where
  "verifyDepositDataSigningRoot p obj domain = VerifyDepositSignature p obj domain"

definition new_validator :: "deposit_data \<Rightarrow> validator" where
  "new_validator dat =
     (let amount = Amount dat;
          effectiveBalance = amount - (amount mod EffectiveBalanceIncrement);
          effectiveBalance = (if MaxEffectiveBalance < effectiveBalance
                              then MaxEffectiveBalance else effectiveBalance)
      in \<lparr>PublicKey = DataPublicKey dat,
          WithdrawalCredentials = DataWithdrawalCredentials dat,
          EffectiveBalance = effectiveBalance,
          Slashed = False,
          ActivationEligibilityEpoch = FarFutureEpoch,
          ActivationEpoch = FarFutureEpoch,
          ExitEpoch = FarFutureEpoch,
          WithdrawableEpoch = FarFutureEpoch\<rparr>)"

definition AppendValidator :: "validator \<Rightarrow> beacon_state \<Rightarrow> beacon_state" where
  "AppendValidator v s = s\<lparr>Validators := Validators s @ [v]\<rparr>"

definition AppendBalance :: "u64 \<Rightarrow> beacon_state \<Rightarrow> beacon_state" where
  "AppendBalance b s = s\<lparr>Balances := Balances s @ [b]\<rparr>"

definition SetEth1DepositIndex :: "u64 \<Rightarrow> beacon_state \<Rightarrow> beacon_state" where
  "SetEth1DepositIndex i s = s\<lparr>Eth1DepositIndex := i\<rparr>"

text \<open>
  \<open>ProcessDeposit\<close>. After \<open>verifyDeposit\<close> has passed, the deposit and its data are not
  \<open>nil\<close>; the branches for \<open>nil\<close> there are the dereferences that cannot be reached.
\<close>

definition ProcessDeposit :: "primitives \<Rightarrow> deposit option \<Rightarrow> bool \<Rightarrow> beacon_state mutation" where
  "ProcessDeposit p dep verifySignature beaconState =
     (case verifyDeposit p beaconState dep of
        Some err \<Rightarrow>
          (case dep of
             None \<Rightarrow> (Some err, beaconState)
           | Some d \<Rightarrow>
               (case Data d of
                  None \<Rightarrow> (Some err, beaconState)
                | Some dat \<Rightarrow>
                    (Some (Wrapf err ''could not verify deposit from %#x''
                             [ArgX (Trunc p (DataPublicKey dat))]), beaconState)))
      | None \<Rightarrow>
          (case dep of
             None \<Rightarrow> (Some (New ''nil pointer dereference''), beaconState)
           | Some d \<Rightarrow>
          (case Data d of
             None \<Rightarrow> (Some (New ''nil pointer dereference''), beaconState)
           | Some dat \<Rightarrow>
          (let s1 = SetEth1DepositIndex (Eth1DepositIndex beaconState + 1) beaconState;
               pubKey = DataPublicKey dat;
               amount = Amount dat;
               append = (\<lambda>s. (None, AppendBalance amount (AppendValidator (new_validator dat) s)))
           in case ValidatorIndexByPubkey p s1 (ToBytes48 p pubKey) of
                None \<Rightarrow>
                  if verifySignature then
                    (case ComputeDomain p (DomainDeposit p) None None of
                       Inl err \<Rightarrow> (Some err, s1)
                     | Inr domain \<Rightarrow>
                         (case verifyDepositDataSigningRoot p dat domain of
                            Some err \<Rightarrow> (None, s1)
                          | None \<Rightarrow> append s1))
                  else append s1
              | Some index \<Rightarrow> IncreaseBalance index amount s1))))"

fun collect_deposit_signatures ::
  "primitives \<Rightarrow> go_context \<Rightarrow> bytes \<Rightarrow> deposit option list
     \<Rightarrow> error + (bytes list \<times> bytes list \<times> bytes list)" where
  "collect_deposit_signatures p ctx domain [] = Inr ([], [], [])"
| "collect_deposit_signatures p ctx domain (dep # deps) =
     (case ctx of
        Some err \<Rightarrow> Inl err
      | None \<Rightarrow>
     (case dep of
        None \<Rightarrow> Inl (New ''nil deposit'')
      | Some d \<Rightarrow>
     (case Data d of
        None \<Rightarrow> Inl (New ''nil deposit'')
      | Some dat \<Rightarrow>
     (case PublicKeyFromBytes p (DataPublicKey dat) of
        Inl err \<Rightarrow> Inl err
      | Inr dpk \<Rightarrow>
     (case ComputeSigningRoot p
             \<lparr>MsgPublicKey = DataPublicKey dat,
              MsgWithdrawalCredentials = DataWithdrawalCredentials dat,
              MsgAmount = Amount dat\<rparr> domain of
        Inl err \<Rightarrow> Inl err
      | Inr sr \<Rightarrow>
     (case collect_deposit_signatures p ctx domain deps of
        Inl err \<Rightarrow> Inl err
      | Inr (pks, sigs, msgs) \<Rightarrow> Inr (dpk # pks, Signature dat # sigs, sr # msgs)))))))"

text \<open>
  \<open>verifyDepositDataWithDomain\<close>: the loop that fills \<open>pks\<close>, \<open>sigs\<close> and \<open>msgs\<close> is
  \<open>collect_deposit_signatures\<close>; then the one aggregated verification.
\<close>

definition verifyDepositDataWithDomain ::
  "primitives \<Rightarrow> go_context \<Rightarrow> deposit option list \<Rightarrow> bytes \<Rightarrow> error option" where
  "verifyDepositDataWithDomain p ctx deps domain =
     (if length deps = 0 then None
      else case collect_deposit_signatures p ctx domain deps of
             Inl err \<Rightarrow> Some err
           | Inr (pks, sigs, msgs) \<Rightarrow>
               (case VerifyMultipleSignatures p sigs msgs pks of
                  Inl err \<Rightarrow> Some (Errorf ''could not verify multiple signatures: %v''
                                     [ArgS (error_message err)])
                | Inr verify \<Rightarrow>
                    if \<not> verify then Some (New ''one or more deposit signatures did not verify'')
                    else None))"

text \<open>The loop of \<open>ProcessDeposits\<close> over the deposits of the block.\<close>

fun process_deposits_loop ::
  "primitives \<Rightarrow> bool \<Rightarrow> deposit option list \<Rightarrow> beacon_state mutation" where
  "process_deposits_loop p verifySignature [] beaconState = (None, beaconState)"
| "process_deposits_loop p verifySignature (dep # deps) beaconState =
     (case dep of
        None \<Rightarrow> (Some (New ''got a nil deposit in block''), beaconState)
      | Some d \<Rightarrow>
     (case Data d of
        None \<Rightarrow> (Some (New ''got a nil deposit in block''), beaconState)
      | Some dat \<Rightarrow>
     (case ProcessDeposit p dep verifySignature beaconState of
        (Some err, s) \<Rightarrow>
          (Some (Wrapf err ''could not process deposit from %#x''
                   [ArgX (Trunc p (DataPublicKey dat))]), s)
      | (None, s) \<Rightarrow> process_deposits_loop p verifySignature deps s)))"

definition ProcessDeposits ::
  "primitives \<Rightarrow> go_context \<Rightarrow> signed_beacon_block option \<Rightarrow> beacon_state mutation" where
  "ProcessDeposits p ctx b beaconState =
     (case VerifyNilBeaconBlock b of
        Inl err \<Rightarrow> (Some err, beaconState)
      | Inr body \<Rightarrow>
     (let deposits = Deposits body in
      case ComputeDomain p (DomainDeposit p) None None of
        Inl err \<Rightarrow> (Some err, beaconState)
      | Inr domain \<Rightarrow>
     (let verifySignature = (verifyDepositDataWithDomain p ctx deposits domain \<noteq> None)
      in process_deposits_loop p verifySignature deposits beaconState)))"

section \<open>The deposit rule of the specification\<close>

text \<open>
  The specification's deposit rule, in its words: increment \<open>eth1_deposit_index\<close>; if the
  public key is unknown, verify the deposit signature and on failure skip the deposit,
  otherwise append the validator and its balance; if the key is known, increase the
  balance.
\<close>

definition spec_process_deposit :: "primitives \<Rightarrow> bytes \<Rightarrow> deposit_data \<Rightarrow> beacon_state \<Rightarrow> beacon_state" where
  "spec_process_deposit p domain dat s =
     (let s1 = s\<lparr>Eth1DepositIndex := Eth1DepositIndex s + 1\<rparr> in
      case pubkey_position p (Validators s) (ToBytes48 p (DataPublicKey dat)) of
        None \<Rightarrow>
          if VerifyDepositSignature p dat domain \<noteq> None then s1
          else s1\<lparr>Validators := Validators s @ [new_validator dat],
                  Balances := Balances s @ [Amount dat]\<rparr>
      | Some i \<Rightarrow> s1\<lparr>Balances := (Balances s)[i := Balances s ! i + Amount dat]\<rparr>)"

fun spec_process_deposits ::
  "primitives \<Rightarrow> bytes \<Rightarrow> deposit option list \<Rightarrow> beacon_state \<Rightarrow> beacon_state" where
  "spec_process_deposits p domain [] s = s"
| "spec_process_deposits p domain (dep # deps) s =
     (case dep of
        None \<Rightarrow> s
      | Some d \<Rightarrow>
          (case Data d of
             None \<Rightarrow> s
           | Some dat \<Rightarrow> spec_process_deposits p domain deps (spec_process_deposit p domain dat s)))"

text \<open>
  The deposits of a block are valid but for their signatures: none is \<open>nil\<close>, and the
  Merkle branch of each verifies at its position, the first at \<open>idx\<close>.
\<close>

fun merkle_branches_verify :: "primitives \<Rightarrow> eth1data \<Rightarrow> u64 \<Rightarrow> deposit option list \<Rightarrow> bool" where
  "merkle_branches_verify p e1 idx [] = True"
| "merkle_branches_verify p e1 idx (dep # deps) =
     (case dep of
        None \<Rightarrow> False
      | Some d \<Rightarrow>
          (case Data d of
             None \<Rightarrow> False
           | Some dat \<Rightarrow>
               (case DepositDataHashTreeRoot p dat of
                  Inl err \<Rightarrow> False
                | Inr leaf \<Rightarrow>
                    VerifyMerkleBranch p (DepositRoot e1) leaf idx (Proof d)
                      DepositContractTreeDepth
                    \<and> merkle_branches_verify p e1 (idx + 1) deps)))"

section \<open>The committee cache (core/helpers/committee.go)\<close>

record Committees =
  CommitteeCount :: u64
  Seed :: bytes
  ShuffledIndices :: "u64 list"
  SortedIndices :: "u64 list"

text \<open>
  Modelled from the spec: the package \<open>cache\<close> is not among the sources. The committee
  cache is keyed by seed and holds the shuffled indices, the sorted indices and the
  committee count; it is size-bounded, first in first out, and an entry is inserted
  after a membership test (section 4.C). The oldest entry is first in the list.
\<close>

type_synonym committee_cache = "Committees list"

definition HasEntry :: "committee_cache \<Rightarrow> bytes \<Rightarrow> bool" where
  "HasEntry c seed \<longleftrightarrow> seed \<in> set (map Seed c)"

definition AddCommitteeShuffledList ::
  "nat \<Rightarrow> Committees \<Rightarrow> committee_cache \<Rightarrow> error option \<times> committee_cache" where
  "AddCommitteeShuffledList maxSize committees c =
     (if HasEntry c (Seed committees) then (None, c)
      else (None, drop (length c + 1 - maxSize) (c @ [committees])))"

text \<open>
  The seed and the shuffling are not among the sources and are parameters, as is the
  bound of the cache.
\<close>

record committee_primitives =
  SeedOf :: "beacon_state \<Rightarrow> u64 \<Rightarrow> bytes \<Rightarrow> error + bytes"
  DomainBeaconAttester :: bytes
  UnshuffleList :: "u64 list \<Rightarrow> bytes \<Rightarrow> error + u64 list"
  maxCommitteesCacheSize :: nat

definition SlotCommitteeCount :: "u64 \<Rightarrow> u64" where
  "SlotCommitteeCount activeValidatorCount =
     (let committeePerSlot = activeValidatorCount div SlotsPerEpoch div TargetCommitteeSize in
      if committeePerSlot > MaxCommitteesPerSlot then MaxCommitteesPerSlot
      else if committeePerSlot = 0 then 1
      else committeePerSlot)"

text \<open>
  The indices of the validators that are active at \<open>epoch\<close>, in the order of the
  registry: the callback that \<open>ShuffledIndices\<close> passes to \<open>ReadFromEveryValidator\<close>.
\<close>

fun active_indices :: "u64 \<Rightarrow> nat \<Rightarrow> validator list \<Rightarrow> u64 list" where
  "active_indices epoch idx [] = []"
| "active_indices epoch idx (val # vals) =
     (if IsActiveValidatorUsingTrie val epoch
      then of_nat idx # active_indices epoch (idx + 1) vals
      else active_indices epoch (idx + 1) vals)"

definition ShuffledIndices_of :: "committee_primitives \<Rightarrow> beacon_state \<Rightarrow> u64 \<Rightarrow> error + u64 list" where
  "ShuffledIndices_of p state epoch =
     (case SeedOf p state epoch (DomainBeaconAttester p) of
        Inl err \<Rightarrow> Inl (Wrapf err ''could not get seed for epoch %d'' [ArgD (unat epoch)])
      | Inr seed \<Rightarrow> UnshuffleList p (active_indices epoch 0 (Validators state)) seed)"

text \<open>
  The body of the loop \<open>for _, e := range []types.Epoch{epoch, epoch + 1}\<close>, over the
  epochs that remain. The \<open>return nil\<close> on a cached seed leaves the loop.
\<close>

fun update_committee_cache_epochs ::
  "committee_primitives \<Rightarrow> beacon_state \<Rightarrow> u64 list \<Rightarrow> committee_cache
     \<Rightarrow> error option \<times> committee_cache" where
  "update_committee_cache_epochs p state [] c = (None, c)"
| "update_committee_cache_epochs p state (e # es) c =
     (case SeedOf p state e (DomainBeaconAttester p) of
        Inl err \<Rightarrow> (Some err, c)
      | Inr seed \<Rightarrow>
          if HasEntry c seed then (None, c)
          else
            (case ShuffledIndices_of p state e of
               Inl err \<Rightarrow> (Some err, c)
             | Inr shuffledIndices \<Rightarrow>
                 (let count = SlotCommitteeCount (of_nat (length shuffledIndices));
                      sortedIndices = sort shuffledIndices
                  in case AddCommitteeShuffledList (maxCommitteesCacheSize p)
                            \<lparr>CommitteeCount = SlotsPerEpoch * count, Seed = seed,
                             ShuffledIndices = shuffledIndices, SortedIndices = sortedIndices\<rparr> c of
                       (Some err, c') \<Rightarrow> (Some err, c')
                     | (None, c') \<Rightarrow> update_committee_cache_epochs p state es c')))"

definition UpdateCommitteeCache ::
  "committee_primitives \<Rightarrow> beacon_state \<Rightarrow> u64 \<Rightarrow> committee_cache
     \<Rightarrow> error option \<times> committee_cache" where
  "UpdateCommitteeCache p state epoch c =
     update_committee_cache_epochs p state [epoch, epoch + 1] c"

section \<open>The state transition (core/state)\<close>

typedecl validator_precompute
typedecl balance_precompute

text \<open>
  The processors of the other packages, the hash tree roots, and the settings that the
  transition reads are not among the sources and are parameters. A processor works on
  the state object it is given.
\<close>

record transition_primitives =
  StateHashTreeRoot :: "beacon_state \<Rightarrow> error + bytes"
  HeaderHashTreeRoot :: "block_header \<Rightarrow> error + bytes"
  ProcessBlockHeader :: "go_context \<Rightarrow> signed_beacon_block option \<Rightarrow> beacon_state mutation"
  ProcessRandao :: "go_context \<Rightarrow> signed_beacon_block option \<Rightarrow> beacon_state mutation"
  ProcessEth1DataInBlock :: "go_context \<Rightarrow> signed_beacon_block option \<Rightarrow> beacon_state mutation"
  ProcessProposerSlashings :: "go_context \<Rightarrow> signed_beacon_block option \<Rightarrow> beacon_state mutation"
  ProcessAttesterSlashings :: "go_context \<Rightarrow> signed_beacon_block option \<Rightarrow> beacon_state mutation"
  ProcessAttestations :: "go_context \<Rightarrow> signed_beacon_block option \<Rightarrow> beacon_state mutation"
  ProcessAttestationsNoVerifySignature ::
    "go_context \<Rightarrow> signed_beacon_block option \<Rightarrow> beacon_state mutation"
  ProcessBlockHeaderNoVerify :: "beacon_block option \<Rightarrow> beacon_state mutation"
  ProcessRandaoNoVerify :: "beacon_block_body option \<Rightarrow> beacon_state mutation"
  InitiateValidatorExit :: "u64 \<Rightarrow> beacon_state mutation"
  Domain :: "fork \<Rightarrow> u64 \<Rightarrow> bytes \<Rightarrow> bytes \<Rightarrow> error + bytes"
  DomainVoluntaryExit :: bytes
  VerifySigningRoot :: "voluntary_exit \<Rightarrow> bytes \<Rightarrow> bytes \<Rightarrow> bytes \<Rightarrow> error option"
  PrecomputeNew ::
    "go_context \<Rightarrow> beacon_state \<Rightarrow> error + (validator_precompute \<times> balance_precompute)"
  PrecomputeProcessAttestations ::
    "go_context \<Rightarrow> beacon_state \<Rightarrow> validator_precompute \<Rightarrow> balance_precompute
       \<Rightarrow> error + (validator_precompute \<times> balance_precompute)"
  ProcessJustificationAndFinalizationPreCompute :: "balance_precompute \<Rightarrow> beacon_state mutation"
  ProcessRewardsAndPenaltiesPrecompute ::
    "balance_precompute \<Rightarrow> validator_precompute \<Rightarrow> beacon_state mutation"
  ProcessRegistryUpdates :: "beacon_state mutation"
  ProcessSlashingsPrecompute :: "balance_precompute \<Rightarrow> beacon_state mutation"
  ProcessFinalUpdates :: "beacon_state mutation"
  cacheKey :: "go_context \<Rightarrow> beacon_state \<Rightarrow> error + bytes"
  EnableNextSlotStateCache :: bool

text \<open>
  Modelled from the spec: the constant \<open>ZeroHash\<close> of the configuration is the zero
  root that \<open>process_slot\<close> compares the header's state root with (section 4.E).
\<close>

definition ZeroHash :: bytes where
  "ZeroHash = replicate 32 0"

definition SetSlot :: "u64 \<Rightarrow> beacon_state \<Rightarrow> beacon_state" where
  "SetSlot v s = s\<lparr>Slot := v\<rparr>"

definition SetLatestBlockHeader :: "block_header \<Rightarrow> beacon_state \<Rightarrow> beacon_state" where
  "SetLatestBlockHeader h s = s\<lparr>LatestBlockHeader := h\<rparr>"

text \<open>
  Modelled from the spec: \<open>UpdateStateRootAtIndex\<close> and \<open>UpdateBlockRootAtIndex\<close> write
  one entry of the circular buffers \<open>state_roots\<close> and \<open>block_roots\<close>; an index outside
  the buffer is an error.
\<close>

definition UpdateStateRootAtIndex :: "u64 \<Rightarrow> bytes \<Rightarrow> beacon_state mutation" where
  "UpdateStateRootAtIndex idx root s =
     (if length (StateRoots s) \<le> unat idx
      then (Some (Errorf ''invalid index provided %d'' [ArgD (unat idx)]), s)
      else (None, s\<lparr>StateRoots := (StateRoots s)[unat idx := root]\<rparr>))"

definition UpdateBlockRootAtIndex :: "u64 \<Rightarrow> bytes \<Rightarrow> beacon_state mutation" where
  "UpdateBlockRootAtIndex idx root s =
     (if length (BlockRoots s) \<le> unat idx
      then (Some (Errorf ''invalid index provided %d'' [ArgD (unat idx)]), s)
      else (None, s\<lparr>BlockRoots := (BlockRoots s)[unat idx := root]\<rparr>))"

text \<open>
  Modelled from the spec: \<open>ValidatorAtIndexReadOnly\<close> reads the validators list; an index
  outside the list is an error.
\<close>

definition ValidatorAtIndexReadOnly :: "beacon_state \<Rightarrow> u64 \<Rightarrow> error + validator" where
  "ValidatorAtIndexReadOnly s idx =
     (if length (Validators s) \<le> unat idx
      then Inl (Errorf ''index %d out of range'' [ArgD (unat idx)])
      else Inr (Validators s ! unat idx))"

definition ProcessSlot :: "transition_primitives \<Rightarrow> beacon_state mutation" where
  "ProcessSlot tp state =
     (case StateHashTreeRoot tp state of
        Inl err \<Rightarrow> (Some err, state)
      | Inr prevStateRoot \<Rightarrow>
     (case UpdateStateRootAtIndex (Slot state mod SlotsPerHistoricalRoot) prevStateRoot state of
        (Some err, s1) \<Rightarrow> (Some err, s1)
      | (None, s1) \<Rightarrow>
     (let header = LatestBlockHeader s1;
          s2 = (if HeaderStateRoot header = None \<or> HeaderStateRoot header = Some ZeroHash
                then SetLatestBlockHeader (header\<lparr>HeaderStateRoot := Some prevStateRoot\<rparr>) s1
                else s1)
      in case HeaderHashTreeRoot tp (LatestBlockHeader s2) of
           Inl err \<Rightarrow> (Some (Wrap err ''could not determine prev block root''), s2)
         | Inr prevBlockRoot \<Rightarrow>
             UpdateBlockRootAtIndex (Slot s2 mod SlotsPerHistoricalRoot) prevBlockRoot s2)))"

definition CanProcessEpoch :: "beacon_state \<Rightarrow> bool" where
  "CanProcessEpoch state \<longleftrightarrow> (Slot state + 1) mod SlotsPerEpoch = 0"

definition ProcessEpochPrecompute :: "transition_primitives \<Rightarrow> go_context \<Rightarrow> beacon_state mutation" where
  "ProcessEpochPrecompute tp ctx state =
     (case PrecomputeNew tp ctx state of
        Inl err \<Rightarrow> (Some err, state)
      | Inr (vp, bp) \<Rightarrow>
     (case PrecomputeProcessAttestations tp ctx state vp bp of
        Inl err \<Rightarrow> (Some err, state)
      | Inr (vp, bp) \<Rightarrow>
     (case ProcessJustificationAndFinalizationPreCompute tp bp state of
        (Some err, s1) \<Rightarrow> (Some (Wrap err ''could not process justification''), s1)
      | (None, s1) \<Rightarrow>
     (case ProcessRewardsAndPenaltiesPrecompute tp bp vp s1 of
        (Some err, s2) \<Rightarrow> (Some (Wrap err ''could not process rewards and penalties''), s2)
      | (None, s2) \<Rightarrow>
     (case ProcessRegistryUpdates tp s2 of
        (Some err, s3) \<Rightarrow> (Some (Wrap err ''could not process registry updates''), s3)
      | (None, s3) \<Rightarrow>
     (case ProcessSlashingsPrecompute tp bp s3 of
        (Some err, s4) \<Rightarrow> (Some err, s4)
      | (None, s4) \<Rightarrow>
     (case ProcessFinalUpdates tp s4 of
        (Some err, s5) \<Rightarrow> (Some (Wrap err ''could not process final updates''), s5)
      | (None, s5) \<Rightarrow> (None, s5))))))))"

text \<open>
  The loop \<open>for state.Slot() < slot\<close> of \<open>ProcessSlots\<close>, on the state object that the
  loop advances. It leaves by the end of the loop, by a cancelled context or by an
  error; \<open>ProcessSlots\<close> does what follows each of them. \<open>None\<close> is a loop that does not
  end.
\<close>

datatype loop_exit = Finished | Cancelled error | Failed error

partial_function (option) process_slots_loop ::
  "transition_primitives \<Rightarrow> go_context \<Rightarrow> u64 \<Rightarrow> beacon_state \<Rightarrow> (loop_exit \<times> beacon_state) option" where
  "process_slots_loop tp ctx slot state =
     (if Slot state < slot then
        (case ctx of
           Some err \<Rightarrow> Some (Cancelled err, state)
         | None \<Rightarrow>
        (case ProcessSlot tp state of
           (Some err, s1) \<Rightarrow> Some (Failed (Wrap err ''could not process slot''), s1)
         | (None, s1) \<Rightarrow>
        (case (if CanProcessEpoch s1 then ProcessEpochPrecompute tp ctx s1 else (None, s1)) of
           (Some err, s2) \<Rightarrow>
             Some (Failed (Wrap err ''could not process epoch with optimizations''), s2)
         | (None, s2) \<Rightarrow> process_slots_loop tp ctx slot (SetSlot (Slot s2 + 1) s2))))
      else Some (Finished, state))"

text \<open>
  Modelled from the spec: \<open>helpers.ErrSigFailedToVerify\<close> is not among the sources; it is
  the error of a signature that fails to verify (section 7).
\<close>

definition ErrSigFailedToVerify :: error where
  "ErrSigFailedToVerify = New ''signature did not verify''"

definition VerifyExitAndSignature ::
  "transition_primitives \<Rightarrow> validator \<Rightarrow> u64 \<Rightarrow> fork \<Rightarrow> signed_voluntary_exit option \<Rightarrow> bytes
     \<Rightarrow> error option" where
  "VerifyExitAndSignature tp val currentSlot fk signedExit genesisRoot =
     (case signedExit of
        None \<Rightarrow> Some (New ''nil exit'')
      | Some sx \<Rightarrow>
     (case Exit sx of
        None \<Rightarrow> Some (New ''nil exit'')
      | Some exit \<Rightarrow>
     (case verifyExitConditions val currentSlot exit of
        Some err \<Rightarrow> Some err
      | None \<Rightarrow>
     (case Domain tp fk (Epoch exit) (DomainVoluntaryExit tp) genesisRoot of
        Inl err \<Rightarrow> Some err
      | Inr domain \<Rightarrow>
     (case VerifySigningRoot tp exit (PublicKey val) (ExitSignature sx) domain of
        Some err \<Rightarrow> Some ErrSigFailedToVerify
      | None \<Rightarrow> None)))))"

text \<open>The loop \<open>for idx, exit := range exits\<close> of \<open>ProcessVoluntaryExits\<close>.\<close>

fun process_exits_loop ::
  "transition_primitives \<Rightarrow> nat \<Rightarrow> signed_voluntary_exit option list \<Rightarrow> beacon_state mutation" where
  "process_exits_loop tp idx [] beaconState = (None, beaconState)"
| "process_exits_loop tp idx (exit # exits) beaconState =
     (case exit of
        None \<Rightarrow> (Some (New ''nil voluntary exit in block body''), beaconState)
      | Some sx \<Rightarrow>
     (case Exit sx of
        None \<Rightarrow> (Some (New ''nil voluntary exit in block body''), beaconState)
      | Some x \<Rightarrow>
     (case ValidatorAtIndexReadOnly beaconState (ValidatorIndex x) of
        Inl err \<Rightarrow> (Some err, beaconState)
      | Inr val \<Rightarrow>
     (case VerifyExitAndSignature tp val (Slot beaconState) (Fork beaconState) exit
             (GenesisValidatorRoot beaconState) of
        Some err \<Rightarrow> (Some (Wrapf err ''could not verify exit %d'' [ArgD idx]), beaconState)
      | None \<Rightarrow>
     (case InitiateValidatorExit tp (ValidatorIndex x) beaconState of
        (Some err, s) \<Rightarrow> (Some err, s)
      | (None, s) \<Rightarrow> process_exits_loop tp (idx + 1) exits s)))))"

definition ProcessVoluntaryExits ::
  "transition_primitives \<Rightarrow> go_context \<Rightarrow> signed_beacon_block option \<Rightarrow> beacon_state mutation" where
  "ProcessVoluntaryExits tp ctx b beaconState =
     (case VerifyNilBeaconBlock b of
        Inl err \<Rightarrow> (Some err, beaconState)
      | Inr body \<Rightarrow> process_exits_loop tp 0 (VoluntaryExits body) beaconState)"

definition VerifyOperationLengths ::
  "go_context \<Rightarrow> signed_beacon_block option \<Rightarrow> beacon_state mutation" where
  "VerifyOperationLengths ctx b state =
     (case VerifyNilBeaconBlock b of
        Inl err \<Rightarrow> (Some err, state)
      | Inr body \<Rightarrow>
     (if (of_nat (length (ProposerSlashings body)) :: u64) > MaxProposerSlashings then
        (Some (Errorf ''number of proposer slashings (%d) in block body exceeds allowed threshold of %d''
                 [ArgD (length (ProposerSlashings body)), ArgD (unat MaxProposerSlashings)]), state)
      else if (of_nat (length (AttesterSlashings body)) :: u64) > MaxAttesterSlashings then
        (Some (Errorf ''number of attester slashings (%d) in block body exceeds allowed threshold of %d''
                 [ArgD (length (AttesterSlashings body)), ArgD (unat MaxAttesterSlashings)]), state)
      else if (of_nat (length (Attestations body)) :: u64) > MaxAttestations then
        (Some (Errorf ''number of attestations (%d) in block body exceeds allowed threshold of %d''
                 [ArgD (length (Attestations body)), ArgD (unat MaxAttestations)]), state)
      else if (of_nat (length (VoluntaryExits body)) :: u64) > MaxVoluntaryExits then
        (Some (Errorf ''number of voluntary exits (%d) in block body exceeds allowed threshold of %d''
                 [ArgD (length (VoluntaryExits body)), ArgD (unat MaxVoluntaryExits)]), state)
      else
     (case Eth1Data state of
        None \<Rightarrow> (Some (New ''nil eth1data in state''), state)
      | Some eth1Data \<Rightarrow>
          if Eth1DepositIndex state > DepositCount eth1Data then
            (Some (Errorf ''expected state.deposit_index %d <= eth1data.deposit_count %d''
                     [ArgD (unat (Eth1DepositIndex state)), ArgD (unat (DepositCount eth1Data))]), state)
          else
            (let maxDeposits = min MaxDeposits (DepositCount eth1Data - Eth1DepositIndex state) in
             if (of_nat (length (Deposits body)) :: u64) \<noteq> maxDeposits then
               (Some (Errorf ''incorrect outstanding deposits in block body, wanted: %d, got: %d''
                        [ArgD (unat maxDeposits), ArgD (length (Deposits body))]), state)
             else (None, state)))))"

text \<open>The \<open>processingPipeline\<close>, in its order.\<close>

definition processingPipeline ::
  "transition_primitives \<Rightarrow> primitives
     \<Rightarrow> (go_context \<Rightarrow> signed_beacon_block option \<Rightarrow> beacon_state mutation) list" where
  "processingPipeline tp p =
     [ProcessBlockHeader tp,
      ProcessRandao tp,
      ProcessEth1DataInBlock tp,
      VerifyOperationLengths,
      ProcessProposerSlashings tp,
      ProcessAttesterSlashings tp,
      ProcessAttestations tp,
      ProcessDeposits p,
      ProcessVoluntaryExits tp]"

text \<open>The loop \<open>for _, p := range processingPipeline\<close> of \<open>ProcessBlock\<close>.\<close>

fun run_pipeline ::
  "(go_context \<Rightarrow> signed_beacon_block option \<Rightarrow> beacon_state mutation) list
     \<Rightarrow> go_context \<Rightarrow> signed_beacon_block option \<Rightarrow> beacon_state mutation" where
  "run_pipeline [] ctx signedBlock state = (None, state)"
| "run_pipeline (f # fs) ctx signedBlock state =
     (case f ctx signedBlock state of
        (Some err, s) \<Rightarrow> (Some (Wrap err ''Could not process block''), s)
      | (None, s) \<Rightarrow> run_pipeline fs ctx signedBlock s)"

definition ProcessBlock ::
  "transition_primitives \<Rightarrow> primitives \<Rightarrow> go_context \<Rightarrow> signed_beacon_block option
     \<Rightarrow> beacon_state mutation" where
  "ProcessBlock tp p ctx signedBlock state = run_pipeline (processingPipeline tp p) ctx signedBlock state"

definition ProcessOperationsNoVerifyAttsSigs ::
  "transition_primitives \<Rightarrow> primitives \<Rightarrow> go_context \<Rightarrow> signed_beacon_block option
     \<Rightarrow> beacon_state mutation" where
  "ProcessOperationsNoVerifyAttsSigs tp p ctx signedBeaconBlock state =
     (case VerifyOperationLengths ctx signedBeaconBlock state of
        (Some err, s0) \<Rightarrow> (Some (Wrap err ''could not verify operation lengths''), s0)
      | (None, s0) \<Rightarrow>
     (case ProcessProposerSlashings tp ctx signedBeaconBlock s0 of
        (Some err, s1) \<Rightarrow> (Some (Wrap err ''could not process block proposer slashings''), s1)
      | (None, s1) \<Rightarrow>
     (case ProcessAttesterSlashings tp ctx signedBeaconBlock s1 of
        (Some err, s2) \<Rightarrow> (Some (Wrap err ''could not process block attester slashings''), s2)
      | (None, s2) \<Rightarrow>
     (case ProcessAttestationsNoVerifySignature tp ctx signedBeaconBlock s2 of
        (Some err, s3) \<Rightarrow> (Some (Wrap err ''could not process block attestations''), s3)
      | (None, s3) \<Rightarrow>
     (case ProcessDeposits p ctx signedBeaconBlock s3 of
        (Some err, s4) \<Rightarrow> (Some (Wrap err ''could not process block validator deposits''), s4)
      | (None, s4) \<Rightarrow>
     (case ProcessVoluntaryExits tp ctx signedBeaconBlock s4 of
        (Some err, s5) \<Rightarrow> (Some (Wrap err ''could not process validator exits''), s5)
      | (None, s5) \<Rightarrow> (None, s5)))))))"

text \<open>
  \<open>ProcessBlockForStateRoot\<close>. Its caller has checked that \<open>signed\<close> and \<open>signed.Block\<close>
  are not \<open>nil\<close>: \<open>signed\<close> is the block and \<open>blk\<close> its \<open>Block\<close>.
\<close>

definition ProcessBlockForStateRoot ::
  "transition_primitives \<Rightarrow> primitives \<Rightarrow> go_context \<Rightarrow> signed_beacon_block \<Rightarrow> beacon_block
     \<Rightarrow> beacon_state mutation" where
  "ProcessBlockForStateRoot tp p ctx signedBlock blk state =
     (case ProcessBlockHeaderNoVerify tp (Some blk) state of
        (Some err, s1) \<Rightarrow> (Some (Wrap err ''could not process block header''), s1)
      | (None, s1) \<Rightarrow>
     (case ProcessRandaoNoVerify tp (Body blk) s1 of
        (Some err, s2) \<Rightarrow> (Some (Wrap err ''could not verify and process randao''), s2)
      | (None, s2) \<Rightarrow>
     (case ProcessEth1DataInBlock tp ctx (Some signedBlock) s2 of
        (Some err, s3) \<Rightarrow> (Some (Wrap err ''could not process eth1 data''), s3)
      | (None, s3) \<Rightarrow>
     (case ProcessOperationsNoVerifyAttsSigs tp p ctx (Some signedBlock) s3 of
        (Some err, s4) \<Rightarrow> (Some (Wrap err ''could not process block operation''), s4)
      | (None, s4) \<Rightarrow> (None, s4)))))"

section \<open>State objects, caches and the entry points\<close>

text \<open>
  The entry points receive a pointer to a state object and may go on with another
  object, which a cache hands out or \<open>Copy\<close> makes. The objects live in a heap, at the
  addresses below \<open>next_ref\<close>; a pointer that may be \<open>nil\<close> is an optional address. The
  state of the caches is kept beside the heap.
\<close>

record 'c world =
  heap :: "nat \<Rightarrow> beacon_state"
  next_ref :: nat
  caches :: 'c

definition alloc :: "beacon_state \<Rightarrow> 'c world \<Rightarrow> nat \<times> 'c world" where
  "alloc s w = (next_ref w, w\<lparr>heap := (heap w)(next_ref w := s), next_ref := next_ref w + 1\<rparr>)"

text \<open>A function that works on one state object, applied to the object at \<open>r\<close>.\<close>

definition mutate :: "beacon_state mutation \<Rightarrow> nat \<Rightarrow> 'c world \<Rightarrow> error option \<times> 'c world" where
  "mutate f r w = (case f (heap w r) of (err, s) \<Rightarrow> (err, w\<lparr>heap := (heap w)(r := s)\<rparr>))"

text \<open>
  Modelled from the spec: \<open>Copy\<close> of a state is not among the sources. A clone is a
  state of the same field values, and a write to the clone does not reach the
  original (copy-on-write, section 3): a new object.
\<close>

definition Copy :: "nat \<Rightarrow> 'c world \<Rightarrow> nat \<times> 'c world" where
  "Copy r w = alloc (heap w r) w"

text \<open>
  The skip-slot cache and the next-slot cache are not among the sources; their
  operations are parameters, on a cache state of any type. Modelled from the spec:
  the entries of a cache are immutable once inserted (section 5), so a cache hands
  out and takes in the value of a state, and a state it hands out is a new object.
\<close>

record 'c cache_ops =
  SkipSlotCacheGet :: "go_context \<Rightarrow> bytes \<Rightarrow> 'c \<Rightarrow> (error + beacon_state option) \<times> 'c"
  SkipSlotCacheMarkInProgress :: "bytes \<Rightarrow> 'c \<Rightarrow> error option \<times> 'c"
  SkipSlotCacheMarkNotInProgress :: "bytes \<Rightarrow> 'c \<Rightarrow> error option \<times> 'c"
  SkipSlotCachePut :: "go_context \<Rightarrow> bytes \<Rightarrow> beacon_state \<Rightarrow> 'c \<Rightarrow> error option \<times> 'c"
  NextSlotState :: "go_context \<Rightarrow> bytes \<Rightarrow> 'c \<Rightarrow> (error + beacon_state option) \<times> 'c"

text \<open>
  Modelled from the spec: \<open>cache.ErrAlreadyInProgress\<close> is not among the sources; it is
  what \<open>mark_in_progress\<close> returns for a key that is being computed (section 4.G).
\<close>

definition ErrAlreadyInProgress :: error where
  "ErrAlreadyInProgress = New ''already in progress''"

fun errors_Is :: "error \<Rightarrow> error \<Rightarrow> bool" where
  "errors_Is (Wrap e s) target \<longleftrightarrow> Wrap e s = target \<or> errors_Is e target"
| "errors_Is (Wrapf e f args) target \<longleftrightarrow> Wrapf e f args = target \<or> errors_Is e target"
| "errors_Is e target \<longleftrightarrow> e = target"

text \<open>A cache lookup: the error, or the pointer to the state handed out, or \<open>nil\<close>.\<close>

definition hand_out ::
  "('c \<Rightarrow> (error + beacon_state option) \<times> 'c) \<Rightarrow> 'c world \<Rightarrow> (error + nat option) \<times> 'c world" where
  "hand_out lookup w =
     (case lookup (caches w) of
        (Inl err, c) \<Rightarrow> (Inl err, w\<lparr>caches := c\<rparr>)
      | (Inr None, c) \<Rightarrow> (Inr None, w\<lparr>caches := c\<rparr>)
      | (Inr (Some s), c) \<Rightarrow>
          (case alloc s (w\<lparr>caches := c\<rparr>) of (r, w') \<Rightarrow> (Inr (Some r), w')))"

definition on_caches :: "('c \<Rightarrow> error option \<times> 'c) \<Rightarrow> 'c world \<Rightarrow> error option \<times> 'c world" where
  "on_caches f w = (case f (caches w) of (err, c) \<Rightarrow> (err, w\<lparr>caches := c\<rparr>))"

text \<open>
  \<open>if cachedState != nil && cachedState.Slot() < slot\<close>: go on with the cached state.
  The pair is \<open>highestSlot\<close> and \<open>state\<close>.
\<close>

definition use_cached :: "'c world \<Rightarrow> nat option \<Rightarrow> u64 \<Rightarrow> u64 \<times> nat \<Rightarrow> u64 \<times> nat" where
  "use_cached w cachedState slot cur =
     (case cachedState of
        None \<Rightarrow> cur
      | Some c \<Rightarrow> if Slot (heap w c) < slot then (Slot (heap w c), c) else cur)"

text \<open>
  \<open>if highestSlot < state.Slot()\<close> then \<open>SkipSlotCache.Put\<close>, whose error is logged only.
\<close>

definition put_if_advanced ::
  "'c cache_ops \<Rightarrow> go_context \<Rightarrow> bytes \<Rightarrow> u64 \<Rightarrow> nat \<Rightarrow> 'c world \<Rightarrow> 'c world" where
  "put_if_advanced co ctx key highestSlot r w =
     (if highestSlot < Slot (heap w r)
      then snd (on_caches (SkipSlotCachePut co ctx key (heap w r)) w)
      else w)"

text \<open>
  \<open>ProcessSlots\<close> from its \<open>defer\<close> on: the loop on the object at \<open>r\<close>, what follows
  each way out of the loop, and last the deferred \<open>MarkNotInProgress\<close>, whose error is
  logged only.
\<close>

definition advance_slots ::
  "transition_primitives \<Rightarrow> 'c cache_ops \<Rightarrow> go_context \<Rightarrow> bytes \<Rightarrow> u64 \<Rightarrow> u64 \<times> nat \<Rightarrow> 'c world
     \<Rightarrow> ((error + nat) \<times> 'c world) option" where
  "advance_slots tp co ctx key slot cur w =
     (let highestSlot = fst cur; r = snd cur in
      case process_slots_loop tp ctx slot (heap w r) of
        None \<Rightarrow> None
      | Some (ex, s) \<Rightarrow>
          (let w1 = w\<lparr>heap := (heap w)(r := s)\<rparr>;
               (res, w2) =
                 (case ex of
                    Cancelled err \<Rightarrow> (Inl err, put_if_advanced co ctx key highestSlot r w1)
                  | Failed err \<Rightarrow> (Inl err, w1)
                  | Finished \<Rightarrow> (Inr r, put_if_advanced co ctx key highestSlot r w1))
           in Some (res, snd (on_caches (SkipSlotCacheMarkNotInProgress co key) w2))))"

definition ProcessSlots ::
  "transition_primitives \<Rightarrow> 'c cache_ops \<Rightarrow> go_context \<Rightarrow> nat option \<Rightarrow> u64 \<Rightarrow> 'c world
     \<Rightarrow> ((error + nat) \<times> 'c world) option" where
  "ProcessSlots tp co ctx state slot w =
     (case state of
        None \<Rightarrow> Some (Inl (New ''nil state''), w)
      | Some r \<Rightarrow>
     (if Slot (heap w r) \<ge> slot then
        Some (Inl (Errorf ''expected state.slot %d < slot %d''
                     [ArgD (unat (Slot (heap w r))), ArgD (unat slot)]), w)
      else
     (let highestSlot = Slot (heap w r) in
      case cacheKey tp ctx (heap w r) of
        Inl err \<Rightarrow> Some (Inl err, w)
      | Inr key \<Rightarrow>
     (case hand_out (SkipSlotCacheGet co ctx key) w of
        (Inl err, w1) \<Rightarrow> Some (Inl err, w1)
      | (Inr cachedState, w1) \<Rightarrow>
     (let cur = use_cached w1 cachedState slot (highestSlot, r) in
      case on_caches (SkipSlotCacheMarkInProgress co key) w1 of
        (Some err, w2) \<Rightarrow>
          if errors_Is err ErrAlreadyInProgress then
            (case hand_out (SkipSlotCacheGet co ctx key) w2 of
               (Inl err, w3) \<Rightarrow> Some (Inl err, w3)
             | (Inr cachedState, w3) \<Rightarrow>
                 advance_slots tp co ctx key slot (use_cached w3 cachedState slot cur) w3)
          else Some (Inl err, w2)
      | (None, w2) \<Rightarrow> advance_slots tp co ctx key slot cur w2)))))"

text \<open>
  \<open>ProcessSlotsUsingNextSlotCache\<close>. Its caller passes a parent state that is not
  \<open>nil\<close>.
\<close>

definition ProcessSlotsUsingNextSlotCache ::
  "transition_primitives \<Rightarrow> 'c cache_ops \<Rightarrow> go_context \<Rightarrow> nat \<Rightarrow> bytes \<Rightarrow> u64 \<Rightarrow> 'c world
     \<Rightarrow> ((error + nat) \<times> 'c world) option" where
  "ProcessSlotsUsingNextSlotCache tp co ctx parentState parentRoot slot w =
     (case hand_out (NextSlotState co ctx parentRoot) w of
        (Inl err, w1) \<Rightarrow> Some (Inl err, w1)
      | (Inr nextSlotState, w1) \<Rightarrow>
     (let parentState = (case nextSlotState of None \<Rightarrow> parentState | Some n \<Rightarrow> n) in
      if slot > Slot (heap w1 parentState) then
        (case ProcessSlots tp co ctx (Some parentState) slot w1 of
           None \<Rightarrow> None
         | Some (Inl err, w2) \<Rightarrow> Some (Inl (Wrap err ''could not process slots''), w2)
         | Some (Inr r, w2) \<Rightarrow> Some (Inr r, w2))
      else Some (Inr parentState, w1)))"

text \<open>
  \<open>ExecuteStateTransition\<close> returns the pair \<open>(state, error)\<close>, of which both can be
  set. Writing the block and the state to disk for interop leaves both as they are.
\<close>

definition ExecuteStateTransition ::
  "transition_primitives \<Rightarrow> primitives \<Rightarrow> 'c cache_ops \<Rightarrow> go_context \<Rightarrow> nat option
     \<Rightarrow> signed_beacon_block option \<Rightarrow> 'c world
     \<Rightarrow> ((nat option \<times> error option) \<times> 'c world) option" where
  "ExecuteStateTransition tp p co ctx state signedBlock w =
     (case ctx of
        Some err \<Rightarrow> Some ((None, Some err), w)
      | None \<Rightarrow>
     (case signedBlock of
        None \<Rightarrow> Some ((None, Some (New ''nil block'')), w)
      | Some sb \<Rightarrow>
     (case Block sb of
        None \<Rightarrow> Some ((None, Some (New ''nil block'')), w)
      | Some blk \<Rightarrow>
     (case ProcessSlots tp co ctx state (BlockSlot blk) w of
        None \<Rightarrow> None
      | Some (Inl err, w1) \<Rightarrow> Some ((None, Some (Wrap err ''could not process slot'')), w1)
      | Some (Inr r, w1) \<Rightarrow>
     (case mutate (ProcessBlock tp p ctx signedBlock) r w1 of
        (Some err, w2) \<Rightarrow>
          Some ((None, Some (Wrapf err ''could not process block in slot %d''
                               [ArgD (unat (BlockSlot blk))])), w2)
      | (None, w2) \<Rightarrow>
     (case StateHashTreeRoot tp (heap w2 r) of
        Inl err \<Rightarrow> Some ((None, Some err), w2)
      | Inr postStateRoot \<Rightarrow>
          if postStateRoot \<noteq> StateRoot blk then
            Some ((Some r, Some (Errorf ''validate state root failed, wanted: %#x, received: %#x''
                                   [ArgX postStateRoot, ArgX (StateRoot blk)])), w2)
          else Some ((Some r, None), w2)))))))"

definition CalculateStateRoot ::
  "transition_primitives \<Rightarrow> primitives \<Rightarrow> 'c cache_ops \<Rightarrow> go_context \<Rightarrow> nat option
     \<Rightarrow> signed_beacon_block option \<Rightarrow> 'c world
     \<Rightarrow> ((error + bytes) \<times> 'c world) option" where
  "CalculateStateRoot tp p co ctx state signedBlock w =
     (case ctx of
        Some err \<Rightarrow> Some (Inl err, w)
      | None \<Rightarrow>
     (case state of
        None \<Rightarrow> Some (Inl (New ''nil state''), w)
      | Some r0 \<Rightarrow>
     (case signedBlock of
        None \<Rightarrow> Some (Inl (New ''nil block''), w)
      | Some sb \<Rightarrow>
     (case Block sb of
        None \<Rightarrow> Some (Inl (New ''nil block''), w)
      | Some blk \<Rightarrow>
     (let c = fst (Copy r0 w); w0 = snd (Copy r0 w) in
      case (if EnableNextSlotStateCache tp
            then ProcessSlotsUsingNextSlotCache tp co ctx c (ParentRoot blk) (BlockSlot blk) w0
            else ProcessSlots tp co ctx (Some c) (BlockSlot blk) w0) of
        None \<Rightarrow> None
      | Some (Inl err, w1) \<Rightarrow>
          Some (Inl (Wrap err (if EnableNextSlotStateCache tp then ''could not process slots''
                               else ''could not process slot'')), w1)
      | Some (Inr r, w1) \<Rightarrow>
     (case mutate (ProcessBlockForStateRoot tp p ctx sb blk) r w1 of
        (Some err, w2) \<Rightarrow> Some (Inl (Wrap err ''could not process block''), w2)
      | (None, w2) \<Rightarrow> Some (StateHashTreeRoot tp (heap w2 r), w2)))))))"

section \<open>The slot loop of the specification\<close>

text \<open>
  One iteration in the specification's words: \<open>process_slot\<close>; if
  \<open>(state.slot + 1) mod SLOTS_PER_EPOCH == 0\<close> then \<open>process_epoch\<close>;
  \<open>state.slot += 1\<close>.
\<close>

definition spec_slot_step ::
  "transition_primitives \<Rightarrow> go_context \<Rightarrow> beacon_state \<Rightarrow> error + beacon_state" where
  "spec_slot_step tp ctx s =
     (case ProcessSlot tp s of
        (Some err, s1) \<Rightarrow> Inl err
      | (None, s1) \<Rightarrow>
          if (Slot s1 + 1) mod SlotsPerEpoch = 0 then
            (case ProcessEpochPrecompute tp ctx s1 of
               (Some err, s2) \<Rightarrow> Inl err
             | (None, s2) \<Rightarrow> Inr (s2\<lparr>Slot := Slot s2 + 1\<rparr>))
          else Inr (s1\<lparr>Slot := Slot s1 + 1\<rparr>))"

text \<open>The iteration, \<open>n\<close> times: once per slot.\<close>

fun spec_process_slots ::
  "transition_primitives \<Rightarrow> go_context \<Rightarrow> nat \<Rightarrow> beacon_state \<Rightarrow> error + beacon_state" where
  "spec_process_slots tp ctx 0 s = Inr s"
| "spec_process_slots tp ctx (Suc n) s =
     (case spec_slot_step tp ctx s of
        Inl err \<Rightarrow> Inl err
      | Inr s' \<Rightarrow> spec_process_slots tp ctx n s')"

text \<open>
  The epoch processors, which are not among the sources, leave the slot of the state
  as it is (they write the fields that section 4.F of the specification lists).
\<close>

definition epoch_processors_keep_slot :: "transition_primitives \<Rightarrow> bool" where
  "epoch_processors_keep_slot tp \<longleftrightarrow>
     (\<forall>bp s. Slot (snd (ProcessJustificationAndFinalizationPreCompute tp bp s)) = Slot s)
   \<and> (\<forall>bp vp s. Slot (snd (ProcessRewardsAndPenaltiesPrecompute tp bp vp s)) = Slot s)
   \<and> (\<forall>s. Slot (snd (ProcessRegistryUpdates tp s)) = Slot s)
   \<and> (\<forall>bp s. Slot (snd (ProcessSlashingsPrecompute tp bp s)) = Slot s)
   \<and> (\<forall>s. Slot (snd (ProcessFinalUpdates tp s)) = Slot s)"

section \<open>Notions for the properties of the entry points\<close>

text \<open>
  From \<open>w\<close> to \<open>w'\<close> no object is lost, and the objects of \<open>w\<close> other than the one at
  \<open>r\<close> are as they were.
\<close>

definition frame :: "nat \<Rightarrow> 'c world \<Rightarrow> 'c world \<Rightarrow> bool" where
  "frame r w w' \<longleftrightarrow>
     next_ref w \<le> next_ref w' \<and> (\<forall>a < next_ref w. a \<noteq> r \<longrightarrow> heap w' a = heap w a)"

text \<open>
  The state that \<open>ProcessSlots\<close> goes on with is a state object below \<open>next_ref\<close> whose
  slot is below \<open>slot\<close>, and is the caller's state or one that the skip-slot cache
  handed out.
\<close>

definition start_ok ::
  "'c cache_ops \<Rightarrow> go_context \<Rightarrow> u64 \<Rightarrow> nat \<Rightarrow> beacon_state \<Rightarrow> nat \<Rightarrow> 'c world \<Rightarrow> nat \<Rightarrow> bool" where
  "start_ok co ctx slot r s0 n0 w x \<longleftrightarrow>
     x < next_ref w \<and> Slot (heap w x) < slot
   \<and> ((x = r \<and> heap w x = s0)
      \<or> (n0 \<le> x \<and> (\<exists>key c. fst (SkipSlotCacheGet co ctx key c) = Inr (Some (heap w x)))))"

section \<open>Field tries (state/stateV0/field_trie.go)\<close>

text \<open>
  A call either returns a value, returns an error, or panics (an index out of range, a
  nil dereference).
\<close>

datatype 'a go_result = Ok 'a | Err error | Panic

text \<open>
  The field indices are those of the specification's data model. The indices \<open>slot\<close>
  and \<open>fork\<close> are written \<open>slot_field\<close> and \<open>fork_field\<close>.
\<close>

datatype fieldIndex =
    genesisTime | genesisValidatorRoot | slot_field | fork_field | latestBlockHeader
  | blockRoots | stateRoots | historicalRoots | eth1Data | eth1DataVotes
  | eth1DepositIndex | validators | balances | randaoMixes | slashings
  | previousEpochAttestations | currentEpochAttestations | justificationBits
  | previousJustifiedCheckpoint | currentJustifiedCheckpoint | finalizedCheckpoint

datatype dataType = basicArray | compositeArray | otherDataType

text \<open>
  Modelled from the spec: the table \<open>fieldMap\<close> is not among the sources. The fields
  with a trie are the raw 32-byte roots (block, state and randao roots), of fixed
  length, and the variable-length lists of \<open>Eth1Data\<close>, \<open>Validator\<close> and
  \<open>PendingAttestation\<close> (section 4.A).
\<close>

definition fieldMap :: "fieldIndex \<Rightarrow> dataType option" where
  "fieldMap f =
     (if f = blockRoots \<or> f = stateRoots \<or> f = randaoMixes then Some basicArray
      else if f = eth1DataVotes \<or> f = validators \<or> f = previousEpochAttestations
              \<or> f = currentEpochAttestations then Some compositeArray
      else None)"

text \<open>
  The \<open>elements interface{}\<close> argument, by its dynamic type. The slices of pointers may
  hold \<open>nil\<close>. \<open>OtherElements\<close> carries the name of any other type and \<open>NilElements\<close> is
  the \<open>nil\<close> interface.
\<close>

datatype elements =
    ByteArrays "bytes list"
  | Eth1DataSlice "eth1data option list"
  | ValidatorSlice "validator option list"
  | PendingAttestationSlice "pending_attestation option list"
  | OtherElements string
  | NilElements

type_synonym layers = "bytes option list list"

text \<open>The lock and the reference count of a trie are not part of the embedding.\<close>

record FieldTrie =
  fieldLayers :: layers
  field :: fieldIndex

text \<open>
  The helpers of \<open>stateutil\<close> and \<open>bytesutil\<close> are not among the sources and are
  parameters. The two recompute helpers return \<open>(root, layers, error)\<close>, or panic
  (\<open>None\<close>).
\<close>

record trie_primitives =
  ToBytes32 :: "bytes \<Rightarrow> bytes"
  eth1Root :: "eth1data option \<Rightarrow> error + bytes"
  ValidatorRootWithHasher :: "validator option \<Rightarrow> error + bytes"
  PendingAttRootWithHasher :: "pending_attestation option \<Rightarrow> error + bytes"
  RecomputeFromLayer :: "bytes list \<Rightarrow> u64 list \<Rightarrow> layers \<Rightarrow> (bytes \<times> layers \<times> error option) option"
  RecomputeFromLayerVariable :: "bytes list \<Rightarrow> u64 list \<Rightarrow> layers \<Rightarrow> (bytes \<times> layers \<times> error option) option"
  AddInMixin :: "bytes \<Rightarrow> u64 \<Rightarrow> bytes go_result"

text \<open>
  \<open>reflect.TypeOf(elements).Name()\<close>: the empty string for a slice type, a panic for the
  \<open>nil\<close> interface.
\<close>

fun type_name :: "elements \<Rightarrow> string option" where
  "type_name (OtherElements n) = Some n"
| "type_name NilElements = None"
| "type_name els = Some []"

definition wrong_type :: "elements \<Rightarrow> 'a go_result" where
  "wrong_type els =
     (case type_name els of
        None \<Rightarrow> Panic
      | Some n \<Rightarrow> Err (Errorf ''Wanted type of %v but got %v'' [ArgS [], ArgS n]))"

text \<open>The loop \<open>for i := range val\<close> of a converter, with its \<open>rootCreator\<close>.\<close>

fun convert_all :: "('a \<Rightarrow> error + bytes) \<Rightarrow> 'a list \<Rightarrow> error + bytes list" where
  "convert_all rootCreator [] = Inr []"
| "convert_all rootCreator (x # xs) =
     (case rootCreator x of
        Inl err \<Rightarrow> Inl err
      | Inr root \<Rightarrow>
          (case convert_all rootCreator xs of
             Inl err \<Rightarrow> Inl err
           | Inr roots \<Rightarrow> Inr (root # roots)))"

text \<open>
  The loop \<open>for _, idx := range indices\<close> of a converter; \<open>what\<close> is the name of the
  elements in its error message. It runs only when \<open>len(val) > 0\<close>, so
  \<open>uint64(len(val)) - 1\<close> does not wrap.
\<close>

fun convert_indices ::
  "('a \<Rightarrow> error + bytes) \<Rightarrow> string \<Rightarrow> 'a list \<Rightarrow> u64 list \<Rightarrow> error + bytes list" where
  "convert_indices rootCreator what val [] = Inr []"
| "convert_indices rootCreator what val (idx # indices) =
     (if unat idx > length val - 1 then
        Inl (Errorf (''index %d greater than number of '' @ what @ '' %d'')
               [ArgD (unat idx), ArgD (length val)])
      else
        (case rootCreator (val ! unat idx) of
           Inl err \<Rightarrow> Inl err
         | Inr root \<Rightarrow>
             (case convert_indices rootCreator what val indices of
                Inl err \<Rightarrow> Inl err
              | Inr roots \<Rightarrow> Inr (root # roots))))"

definition handle_slice ::
  "('a \<Rightarrow> error + bytes) \<Rightarrow> string \<Rightarrow> 'a list \<Rightarrow> u64 list \<Rightarrow> bool \<Rightarrow> error + bytes list" where
  "handle_slice rootCreator what val indices convertAll =
     (if convertAll then convert_all rootCreator val
      else if length val > 0 then convert_indices rootCreator what val indices
      else Inr [])"

definition handleByteArrays ::
  "trie_primitives \<Rightarrow> bytes list \<Rightarrow> u64 list \<Rightarrow> bool \<Rightarrow> error + bytes list" where
  "handleByteArrays p val indices convertAll =
     handle_slice (\<lambda>input. Inr (ToBytes32 p input)) ''byte arrays'' val indices convertAll"

definition handleEth1DataSlice ::
  "trie_primitives \<Rightarrow> eth1data option list \<Rightarrow> u64 list \<Rightarrow> bool \<Rightarrow> error + bytes list" where
  "handleEth1DataSlice p val indices convertAll =
     handle_slice (eth1Root p) ''items in eth1 data slice'' val indices convertAll"

definition handleValidatorSlice ::
  "trie_primitives \<Rightarrow> validator option list \<Rightarrow> u64 list \<Rightarrow> bool \<Rightarrow> error + bytes list" where
  "handleValidatorSlice p val indices convertAll =
     handle_slice (ValidatorRootWithHasher p) ''validators'' val indices convertAll"

definition handlePendingAttestation ::
  "trie_primitives \<Rightarrow> pending_attestation option list \<Rightarrow> u64 list \<Rightarrow> bool \<Rightarrow> error + bytes list" where
  "handlePendingAttestation p val indices convertAll =
     handle_slice (PendingAttRootWithHasher p) ''pending attestations'' val indices convertAll"

definition returned :: "error + 'a \<Rightarrow> 'a go_result" where
  "returned r = (case r of Inl err \<Rightarrow> Err err | Inr v \<Rightarrow> Ok v)"

definition fieldConverters ::
  "trie_primitives \<Rightarrow> fieldIndex \<Rightarrow> u64 list \<Rightarrow> elements \<Rightarrow> bool \<Rightarrow> bytes list go_result" where
  "fieldConverters p f indices els convertAll =
     (if f = blockRoots \<or> f = stateRoots \<or> f = randaoMixes then
        (case els of
           ByteArrays val \<Rightarrow> returned (handleByteArrays p val indices convertAll)
         | _ \<Rightarrow> wrong_type els)
      else if f = eth1DataVotes then
        (case els of
           Eth1DataSlice val \<Rightarrow> returned (handleEth1DataSlice p val indices convertAll)
         | _ \<Rightarrow> wrong_type els)
      else if f = validators then
        (case els of
           ValidatorSlice val \<Rightarrow> returned (handleValidatorSlice p val indices convertAll)
         | _ \<Rightarrow> wrong_type els)
      else if f = previousEpochAttestations \<or> f = currentEpochAttestations then
        (case els of
           PendingAttestationSlice val \<Rightarrow> returned (handlePendingAttestation p val indices convertAll)
         | _ \<Rightarrow> wrong_type els)
      else
        (case type_name els of
           None \<Rightarrow> Panic
         | Some n \<Rightarrow> Err (Errorf ''got unsupported type of %v'' [ArgS n])))"

text \<open>\<open>*f.fieldLayers[len(f.fieldLayers)-1][0]\<close>\<close>

definition top_root :: "layers \<Rightarrow> bytes go_result" where
  "top_root ls =
     (if ls = [] then Panic
      else case last ls of
             [] \<Rightarrow> Panic
           | None # _ \<Rightarrow> Panic
           | Some r # _ \<Rightarrow> Ok r)"

definition unrecognized_data_type :: error where
  "unrecognized_data_type = Errorf ''unrecognized data type in field map: %v'' [ArgS ''dataType'']"

definition TrieRoot :: "trie_primitives \<Rightarrow> FieldTrie \<Rightarrow> bytes go_result" where
  "TrieRoot p f =
     (case fieldMap (field f) of
        None \<Rightarrow> Err (Errorf ''unrecognized field in trie'' [])
      | Some basicArray \<Rightarrow> top_root (fieldLayers f)
      | Some compositeArray \<Rightarrow>
          (case top_root (fieldLayers f) of
             Ok trieRoot \<Rightarrow> AddInMixin p trieRoot (of_nat (length (hd (fieldLayers f))))
           | Err err \<Rightarrow> Err err
           | Panic \<Rightarrow> Panic)
      | Some otherDataType \<Rightarrow> Err unrecognized_data_type)"

text \<open>
  \<open>RecomputeTrie\<close> returns its result and leaves the trie with the layers that the
  recompute helper returned.
\<close>

definition RecomputeTrie ::
  "trie_primitives \<Rightarrow> FieldTrie \<Rightarrow> u64 list \<Rightarrow> elements \<Rightarrow> bytes go_result \<times> FieldTrie" where
  "RecomputeTrie p f indices els =
     (if length indices = 0 then (TrieRoot p f, f)
      else
     (case fieldMap (field f) of
        None \<Rightarrow> (Err (Errorf ''unrecognized field in trie'' []), f)
      | Some datType \<Rightarrow>
     (case fieldConverters p (field f) indices els False of
        Err err \<Rightarrow> (Err err, f)
      | Panic \<Rightarrow> (Panic, f)
      | Ok fieldRoots \<Rightarrow>
     (case datType of
        basicArray \<Rightarrow>
          (case RecomputeFromLayer p fieldRoots indices (fieldLayers f) of
             None \<Rightarrow> (Panic, f)
           | Some (fieldRoot, ls, err) \<Rightarrow>
               (case err of
                  Some e \<Rightarrow> (Err e, f\<lparr>fieldLayers := ls\<rparr>)
                | None \<Rightarrow> (Ok fieldRoot, f\<lparr>fieldLayers := ls\<rparr>)))
      | compositeArray \<Rightarrow>
          (case RecomputeFromLayerVariable p fieldRoots indices (fieldLayers f) of
             None \<Rightarrow> (Panic, f)
           | Some (fieldRoot, ls, err) \<Rightarrow>
               (case err of
                  Some e \<Rightarrow> (Err e, f\<lparr>fieldLayers := ls\<rparr>)
                | None \<Rightarrow>
                    (case ls of
                       [] \<Rightarrow> (Panic, f\<lparr>fieldLayers := ls\<rparr>)
                     | l0 # _ \<Rightarrow> (AddInMixin p fieldRoot (of_nat (length l0)),
                                   f\<lparr>fieldLayers := ls\<rparr>))))
      | otherDataType \<Rightarrow> (Err unrecognized_data_type, f)))))"

text \<open>The number of elements, when the elements are one of the four slices.\<close>

fun elements_length :: "elements \<Rightarrow> nat option" where
  "elements_length (ByteArrays val) = Some (length val)"
| "elements_length (Eth1DataSlice val) = Some (length val)"
| "elements_length (ValidatorSlice val) = Some (length val)"
| "elements_length (PendingAttestationSlice val) = Some (length val)"
| "elements_length els = None"

text \<open>
  The dynamic type that the type assertion of \<open>fieldConverters\<close> accepts for a field:
  the elements are handed to the converter of the field when they have it, and the
  result is a type error otherwise.
\<close>

fun converter_accepts :: "fieldIndex \<Rightarrow> elements \<Rightarrow> bool" where
  "converter_accepts f (ByteArrays val) = (f = blockRoots \<or> f = stateRoots \<or> f = randaoMixes)"
| "converter_accepts f (Eth1DataSlice val) = (f = eth1DataVotes)"
| "converter_accepts f (ValidatorSlice val) = (f = validators)"
| "converter_accepts f (PendingAttestationSlice val) =
     (f = previousEpochAttestations \<or> f = currentEpochAttestations)"
| "converter_accepts f els = False"

text \<open>
  What the \<open>rootCreator\<close> of a converter computes for the element at a position:
  \<open>bytesutil.ToBytes32\<close>, which has no error, for the byte arrays, and the root helper
  of the element type for the other slices.
\<close>

fun leaf_root :: "trie_primitives \<Rightarrow> elements \<Rightarrow> nat \<Rightarrow> error + bytes" where
  "leaf_root p (ByteArrays val) j = Inr (ToBytes32 p (val ! j))"
| "leaf_root p (Eth1DataSlice val) j = eth1Root p (val ! j)"
| "leaf_root p (ValidatorSlice val) j = ValidatorRootWithHasher p (val ! j)"
| "leaf_root p (PendingAttestationSlice val) j = PendingAttRootWithHasher p (val ! j)"
| "leaf_root p els j = Inl (New ''no converter'')"

text \<open>
  The error \<open>fmt.Errorf("index %d greater than number of ... %d", idx, len(val))\<close> of the
  four converters, with the name each of them gives to its elements.
\<close>

fun elements_name :: "elements \<Rightarrow> string" where
  "elements_name (ByteArrays val) = ''byte arrays''"
| "elements_name (Eth1DataSlice val) = ''items in eth1 data slice''"
| "elements_name (ValidatorSlice val) = ''validators''"
| "elements_name (PendingAttestationSlice val) = ''pending attestations''"
| "elements_name els = []"

definition index_out_of_bounds :: "elements \<Rightarrow> u64 \<Rightarrow> nat \<Rightarrow> error" where
  "index_out_of_bounds els idx n =
     Errorf (''index %d greater than number of '' @ elements_name els @ '' %d'')
       [ArgD (unat idx), ArgD n]"

text \<open>
  The changed indices in front of the first one that is not below the number of
  elements, and that index.
\<close>

definition in_range_prefix :: "nat \<Rightarrow> u64 list \<Rightarrow> u64 list" where
  "in_range_prefix n indices = takeWhile (\<lambda>i. unat i < n) indices"

definition first_out_of_range :: "nat \<Rightarrow> u64 list \<Rightarrow> u64" where
  "first_out_of_range n indices = hd (dropWhile (\<lambda>i. unat i < n) indices)"

section \<open>Concrete inputs\<close>

definition exit_validator :: validator where
  "exit_validator = \<lparr>PublicKey = [], WithdrawalCredentials = [], EffectiveBalance = 32000000000,
     Slashed = False, ActivationEligibilityEpoch = 0, ActivationEpoch = 45,
     ExitEpoch = FarFutureEpoch, WithdrawableEpoch = FarFutureEpoch\<rparr>"

definition test_primitives :: primitives where
  "test_primitives =
     \<lparr>Hash = (\<lambda>x. []),
      ToBytes48 = (\<lambda>x. x),
      Trunc = take 6,
      DepositDataHashTreeRoot = (\<lambda>d. Inr (DataPublicKey d)),
      DomainDeposit = [3, 0, 0, 0],
      ComputeDomain = (\<lambda>t v r. Inr t),
      VerifyDepositSignature =
        (\<lambda>d domain. if Signature d = [1] then None else Some (New ''signature did not verify'')),
      PublicKeyFromBytes = (\<lambda>b. Inr b),
      ComputeSigningRoot = (\<lambda>m domain. Inr (MsgPublicKey m)),
      VerifyMultipleSignatures = (\<lambda>sigs msgs pks. Inr (list_all (\<lambda>s. s = [1]) sigs))\<rparr>"

definition test_state :: beacon_state where
  "test_state =
     \<lparr>GenesisTime = 0, GenesisValidatorRoot = [], Slot = 0,
      Fork = \<lparr>PreviousVersion = [], CurrentVersion = [], ForkEpoch = 0\<rparr>,
      LatestBlockHeader = \<lparr>HeaderSlot = 0, HeaderProposerIndex = 0, HeaderParentRoot = [],
        HeaderStateRoot = None, HeaderBodyRoot = []\<rparr>,
      BlockRoots = [], StateRoots = [], HistoricalRoots = [],
      Eth1Data = Some \<lparr>DepositRoot = [], DepositCount = 3, BlockHash = []\<rparr>,
      Eth1DataVotes = [], Eth1DepositIndex = 0, Validators = [], Balances = [],
      RandaoMixes = [], Slashings = [],
      PreviousEpochAttestations = [], CurrentEpochAttestations = [],
      JustificationBits = [0],
      PreviousJustifiedCheckpoint = \<lparr>CheckpointEpoch = 0, CheckpointRoot = []\<rparr>,
      CurrentJustifiedCheckpoint = \<lparr>CheckpointEpoch = 0, CheckpointRoot = []\<rparr>,
      FinalizedCheckpoint = \<lparr>CheckpointEpoch = 0, CheckpointRoot = []\<rparr>\<rparr>"

definition test_deposit :: "bytes \<Rightarrow> bytes \<Rightarrow> deposit" where
  "test_deposit key sig =
     \<lparr>Proof = replicate 33 [],
      Data = Some \<lparr>DataPublicKey = key, DataWithdrawalCredentials = [],
                  Amount = 32000000000, Signature = sig\<rparr>\<rparr>"

definition test_block :: "deposit option list \<Rightarrow> signed_beacon_block" where
  "test_block deps =
     \<lparr>Block = Some \<lparr>BlockSlot = 1, ParentRoot = [], StateRoot = [7],
        Body = Some \<lparr>ProposerSlashings = [], AttesterSlashings = [], Attestations = [],
                     Deposits = deps, VoluntaryExits = []\<rparr>\<rparr>,
      BlockSignature = []\<rparr>"

definition test_deposits :: "deposit option list" where
  "test_deposits =
     [Some (test_deposit [1] [1]), Some (test_deposit [2] [0]), Some (test_deposit [3] [1])]"

definition test_eth1data :: eth1data where
  "test_eth1data = \<lparr>DepositRoot = [], DepositCount = 3, BlockHash = []\<rparr>"

definition test_trie_primitives :: trie_primitives where
  "test_trie_primitives =
     \<lparr>ToBytes32 = (\<lambda>b. take 32 b @ replicate (32 - length b) 0),
      eth1Root = (\<lambda>e. case e of None \<Rightarrow> Inl (New ''nil eth1 data'') | Some d \<Rightarrow> Inr []),
      ValidatorRootWithHasher = (\<lambda>v. Inr []),
      PendingAttRootWithHasher = (\<lambda>a. Inr []),
      RecomputeFromLayer =
        (\<lambda>leaves idxs ls. if length leaves < length idxs then None else Some ([7], ls, None)),
      RecomputeFromLayerVariable =
        (\<lambda>leaves idxs ls. if length leaves < length idxs then None else Some ([7], ls, None)),
      AddInMixin = (\<lambda>r n. Ok r)\<rparr>"

definition test_trie :: FieldTrie where
  "test_trie = \<lparr>fieldLayers = [ [Some [7] ] ], field = blockRoots\<rparr>"

definition test_votes_trie :: FieldTrie where
  "test_votes_trie = \<lparr>fieldLayers = [ [Some [7] ] ], field = eth1DataVotes\<rparr>"

definition test_committee_primitives :: committee_primitives where
  "test_committee_primitives =
     \<lparr>SeedOf = (\<lambda>state epoch domain. Inr [ucast epoch]),
      DomainBeaconAttester = [1, 0, 0, 0],
      UnshuffleList = (\<lambda>indices seed. Inr (rev indices)),
      maxCommitteesCacheSize = 32\<rparr>"

definition test_transition_primitives :: transition_primitives where
  "test_transition_primitives =
     \<lparr>StateHashTreeRoot = (\<lambda>s. Inr [ucast (Slot s)]),
      HeaderHashTreeRoot = (\<lambda>h. Inr [9]),
      ProcessBlockHeader = (\<lambda>ctx b s. (None, s)),
      ProcessRandao = (\<lambda>ctx b s. (None, s)),
      ProcessEth1DataInBlock = (\<lambda>ctx b s. (None, s)),
      ProcessProposerSlashings = (\<lambda>ctx b s. (None, s)),
      ProcessAttesterSlashings = (\<lambda>ctx b s. (None, s)),
      ProcessAttestations = (\<lambda>ctx b s. (None, s)),
      ProcessAttestationsNoVerifySignature = (\<lambda>ctx b s. (None, s)),
      ProcessBlockHeaderNoVerify = (\<lambda>b s. (None, s)),
      ProcessRandaoNoVerify = (\<lambda>b s. (None, s)),
      InitiateValidatorExit = (\<lambda>i s. (None, s)),
      Domain = (\<lambda>f e d r. Inr d),
      DomainVoluntaryExit = [4, 0, 0, 0],
      VerifySigningRoot = (\<lambda>x k s d. None),
      PrecomputeNew = (\<lambda>ctx s. Inl (New ''no precompute'')),
      PrecomputeProcessAttestations = (\<lambda>ctx s vp bp. Inr (vp, bp)),
      ProcessJustificationAndFinalizationPreCompute = (\<lambda>bp s. (None, s)),
      ProcessRewardsAndPenaltiesPrecompute = (\<lambda>bp vp s. (None, s)),
      ProcessRegistryUpdates = (\<lambda>s. (None, s)),
      ProcessSlashingsPrecompute = (\<lambda>bp s. (None, s)),
      ProcessFinalUpdates = (\<lambda>s. (None, s)),
      cacheKey = (\<lambda>ctx s. Inr [ucast (Slot s)]),
      EnableNextSlotStateCache = False\<rparr>"

text \<open>A skip-slot cache and a next-slot cache that are disabled.\<close>

definition test_cache_ops :: "unit cache_ops" where
  "test_cache_ops =
     \<lparr>SkipSlotCacheGet = (\<lambda>ctx key c. (Inr None, c)),
      SkipSlotCacheMarkInProgress = (\<lambda>key c. (None, c)),
      SkipSlotCacheMarkNotInProgress = (\<lambda>key c. (None, c)),
      SkipSlotCachePut = (\<lambda>ctx key s c. (None, c)),
      NextSlotState = (\<lambda>ctx root c. (Inr None, c))\<rparr>"

definition test_slot_state :: beacon_state where
  "test_slot_state =
     test_state\<lparr>BlockRoots := replicate 8192 [], StateRoots := replicate 8192 [],
       Eth1Data := Some \<lparr>DepositRoot = [], DepositCount = 0, BlockHash = []\<rparr>\<rparr>"

text \<open>The state \<open>test_slot_state\<close> after \<open>ProcessSlot\<close>, and advanced by one slot.\<close>

definition test_processed_state :: beacon_state where
  "test_processed_state =
     test_slot_state\<lparr>
       StateRoots := (replicate 8192 [])[0 := [0] ],
       LatestBlockHeader := \<lparr>HeaderSlot = 0, HeaderProposerIndex = 0, HeaderParentRoot = [],
         HeaderStateRoot = Some [0], HeaderBodyRoot = []\<rparr>,
       BlockRoots := (replicate 8192 [])[0 := [9] ]\<rparr>"

definition test_advanced_state :: beacon_state where
  "test_advanced_state = test_processed_state\<lparr>Slot := 1\<rparr>"

definition test_world :: "unit world" where
  "test_world = \<lparr>heap = (\<lambda>a. test_slot_state), next_ref = 1, caches = ()\<rparr>"

definition test_signed_block :: "bytes \<Rightarrow> signed_beacon_block" where
  "test_signed_block root =
     \<lparr>Block = Some \<lparr>BlockSlot = 1, ParentRoot = [], StateRoot = root,
        Body = Some \<lparr>ProposerSlashings = [], AttesterSlashings = [], Attestations = [],
                     Deposits = [], VoluntaryExits = []\<rparr>\<rparr>,
      BlockSignature = []\<rparr>"

section \<open>Properties of voluntary exits\<close>

lemma SlotToEpoch_bound: "unat (SlotToEpoch slot) < 2 ^ 59"
proof -
  have "unat (SlotToEpoch slot) = unat slot div 32"
    by (simp add: SlotToEpoch_def SlotsPerEpoch_def unat_div)
  moreover have "unat slot < 2 ^ 64"
    using unsigned_less [of slot] by simp
  ultimately show ?thesis by simp
qed

lemma activation_plus_period:
  assumes "a \<le> SlotToEpoch slot"
  shows "unat (a + ShardCommitteePeriod) = unat a + 256"
proof -
  have "unat a \<le> unat (SlotToEpoch slot)"
    using assms by (simp add: word_le_nat_alt)
  then have "unat a + 256 < 2 ^ 64"
    using SlotToEpoch_bound [of slot] by simp
  then show ?thesis
    by (simp add: ShardCommitteePeriod_def unat_word_ariths)
qed

lemma cannot_exit_yet_message:
  "sublist ''has not been active long enough''
     (error_message (Errorf ''%s: %d epochs vs required %d epochs''
        [ArgS ValidatorCannotExitYetMsg, ArgD n, ArgD m]))"
proof -
  have "error_message (Errorf ''%s: %d epochs vs required %d epochs''
          [ArgS ValidatorCannotExitYetMsg, ArgD n, ArgD m])
        = ''validator '' @ ''has not been active long enough''
            @ ('' to exit: '' @ dec n @ '' epochs vs required '' @ dec m @ '' epochs'')"
    by (simp add: ValidatorCannotExitYetMsg_def)
  then show ?thesis
    unfolding sublist_def by blast
qed

text \<open>
  C7. For a validator that is active, whose exit epoch is \<open>FAR_FUTURE_EPOCH\<close>, and an
  exit whose epoch is not after the current epoch, the exit is rejected with an error
  whose message includes "has not been active long enough" exactly when
  \<open>current_epoch < activation_epoch + SHARD_COMMITTEE_PERIOD\<close> (as numbers, without
  wrap-around); in particular a validator with
  \<open>activation_epoch = current_epoch - SHARD_COMMITTEE_PERIOD + 1\<close> is rejected.
\<close>

theorem verifyExitConditions_not_active_long_enough:
  assumes "IsActiveValidatorUsingTrie v (SlotToEpoch currentSlot)"
    and "ExitEpoch v = FarFutureEpoch"
    and "Epoch exit \<le> SlotToEpoch currentSlot"
  shows "((\<exists>e. verifyExitConditions v currentSlot exit = Some e
              \<and> sublist ''has not been active long enough'' (error_message e))
          \<longleftrightarrow> unat (SlotToEpoch currentSlot) < unat (ActivationEpoch v) + unat ShardCommitteePeriod)
       \<and> (ActivationEpoch v = SlotToEpoch currentSlot - ShardCommitteePeriod + 1
          \<longrightarrow> (\<exists>e. verifyExitConditions v currentSlot exit = Some e
                  \<and> sublist ''has not been active long enough'' (error_message e)))"
proof -
  let ?ce = "SlotToEpoch currentSlot"
  have act: "ActivationEpoch v \<le> ?ce"
    using assms(1) by (simp add: IsActiveValidatorUsingTrie_def)
  have sum: "unat (ActivationEpoch v + ShardCommitteePeriod) = unat (ActivationEpoch v) + 256"
    using act by (rule activation_plus_period)
  have lt: "?ce < ActivationEpoch v + ShardCommitteePeriod
            \<longleftrightarrow> unat ?ce < unat (ActivationEpoch v) + 256"
    by (simp add: word_less_nat_alt sum)
  have notlt: "\<not> ?ce < Epoch exit"
    using assms(3) by simp
  have res: "verifyExitConditions v currentSlot exit =
      (if ?ce < ActivationEpoch v + ShardCommitteePeriod then
        Some (Errorf ''%s: %d epochs vs required %d epochs''
               [ArgS ValidatorCannotExitYetMsg, ArgD (unat ?ce),
                ArgD (unat (ActivationEpoch v + ShardCommitteePeriod))])
       else None)"
    unfolding verifyExitConditions_def Let_def
    using assms(1) assms(2) notlt by simp
  have iff: "(\<exists>e. verifyExitConditions v currentSlot exit = Some e
              \<and> sublist ''has not been active long enough'' (error_message e))
          \<longleftrightarrow> unat ?ce < unat (ActivationEpoch v) + unat ShardCommitteePeriod"
  proof (cases "?ce < ActivationEpoch v + ShardCommitteePeriod")
    case True
    then show ?thesis
      using lt cannot_exit_yet_message
      by (simp add: res ShardCommitteePeriod_def)
  next
    case False
    then show ?thesis
      using lt by (simp add: res ShardCommitteePeriod_def)
  qed
  have part: "unat ?ce < unat (ActivationEpoch v) + unat ShardCommitteePeriod"
    if eq: "ActivationEpoch v = ?ce - ShardCommitteePeriod + 1"
  proof -
    have a: "ActivationEpoch v = ?ce - 255"
      using eq by (simp add: ShardCommitteePeriod_def)
    have "255 \<le> ?ce"
    proof (rule ccontr)
      assume "\<not> 255 \<le> ?ce"
      then have small: "unat ?ce < 255"
        by (simp add: word_le_nat_alt)
      then have "unat (?ce - 255) = 2 ^ 64 + unat ?ce - 255"
        by (simp add: unat_sub_if' word_less_nat_alt)
      then have "unat ?ce < unat (ActivationEpoch v)"
        using small a by simp
      then show False
        using act by (simp add: word_le_nat_alt)
    qed
    then have "unat (?ce - 255) = unat ?ce - 255"
      by (simp add: unat_sub)
    moreover have "255 \<le> unat ?ce"
      using \<open>255 \<le> ?ce\<close> by (simp add: word_le_nat_alt)
    ultimately show ?thesis
      using a by (simp add: ShardCommitteePeriod_def)
  qed
  show ?thesis
    using iff part by blast
qed

theorem verifyExitConditions_not_active_long_enough_witness:
  "IsActiveValidatorUsingTrie exit_validator (SlotToEpoch 9600)
   \<and> ExitEpoch exit_validator = FarFutureEpoch
   \<and> Epoch \<lparr>Epoch = 10, ValidatorIndex = 0\<rparr> \<le> SlotToEpoch 9600
   \<and> ActivationEpoch exit_validator = SlotToEpoch 9600 - ShardCommitteePeriod + 1
   \<and> (\<exists>e. verifyExitConditions exit_validator 9600 \<lparr>Epoch = 10, ValidatorIndex = 0\<rparr> = Some e
          \<and> sublist ''has not been active long enough'' (error_message e))"
proof -
  have a: "IsActiveValidatorUsingTrie exit_validator (SlotToEpoch 9600)"
    by (simp add: IsActiveValidatorUsingTrie_def exit_validator_def SlotToEpoch_def
        SlotsPerEpoch_def FarFutureEpoch_def)
  have b: "ExitEpoch exit_validator = FarFutureEpoch"
    by (simp add: exit_validator_def)
  have c: "Epoch \<lparr>Epoch = 10, ValidatorIndex = 0\<rparr> \<le> SlotToEpoch 9600"
    by (simp add: SlotToEpoch_def SlotsPerEpoch_def)
  have d: "ActivationEpoch exit_validator = SlotToEpoch 9600 - ShardCommitteePeriod + 1"
    by (simp add: exit_validator_def SlotToEpoch_def SlotsPerEpoch_def ShardCommitteePeriod_def)
  show ?thesis
    using verifyExitConditions_not_active_long_enough [OF a b c] a b c d by blast
qed

section \<open>Properties of deposits\<close>

lemma verifyDeposit_None:
  assumes "verifyDeposit p s dep = None"
  obtains d dat e1 leaf where "dep = Some d" "Data d = Some dat" "Eth1Data s = Some e1"
    "DepositDataHashTreeRoot p dat = Inr leaf"
    "VerifyMerkleBranch p (DepositRoot e1) leaf (Eth1DepositIndex s) (Proof d) DepositContractTreeDepth"
  using assms unfolding verifyDeposit_def
  by (auto simp: Let_def split: option.splits sum.splits if_splits)

lemma verifyDeposit_eq:
  assumes "dep = Some d" "Data d = Some dat" "Eth1Data s = Some e1"
    "DepositDataHashTreeRoot p dat = Inr leaf"
  shows "verifyDeposit p s dep = None \<longleftrightarrow>
         VerifyMerkleBranch p (DepositRoot e1) leaf (Eth1DepositIndex s) (Proof d)
           DepositContractTreeDepth"
  using assms unfolding verifyDeposit_def
  by (simp add: Let_def)

lemma ProcessDeposit_verify_failed:
  assumes "verifyDeposit p s dep = Some err"
  shows "\<exists>e. ProcessDeposit p dep vs s = (Some e, s)"
  using assms unfolding ProcessDeposit_def
  by (simp split: option.splits)

lemma pubkey_position_less:
  "pubkey_position p vs key = Some i \<Longrightarrow> i < length vs"
  by (induction vs arbitrary: i) (auto split: if_splits)

lemma ValidatorIndexByPubkey_less:
  "ValidatorIndexByPubkey p s key = Some i \<Longrightarrow> i < length (Validators s)"
  unfolding ValidatorIndexByPubkey_def by (rule pubkey_position_less)

lemma ValidatorIndexByPubkey_SetEth1DepositIndex [simp]:
  "ValidatorIndexByPubkey p (SetEth1DepositIndex i s) key = ValidatorIndexByPubkey p s key"
  by (simp add: ValidatorIndexByPubkey_def SetEth1DepositIndex_def)

text \<open>What a deposit that passed \<open>verifyDeposit\<close> does to the state.\<close>

lemma ProcessDeposit_verified:
  assumes "verifyDeposit p s dep = None" "dep = Some d" "Data d = Some dat"
  shows "ProcessDeposit p dep vs s =
     (let s1 = SetEth1DepositIndex (Eth1DepositIndex s + 1) s in
      case ValidatorIndexByPubkey p s (ToBytes48 p (DataPublicKey dat)) of
        None \<Rightarrow>
          if vs then
            (case ComputeDomain p (DomainDeposit p) None None of
               Inl err \<Rightarrow> (Some err, s1)
             | Inr domain \<Rightarrow>
                 (case verifyDepositDataSigningRoot p dat domain of
                    Some err \<Rightarrow> (None, s1)
                  | None \<Rightarrow> (None, AppendBalance (Amount dat) (AppendValidator (new_validator dat) s1))))
          else (None, AppendBalance (Amount dat) (AppendValidator (new_validator dat) s1))
      | Some index \<Rightarrow> IncreaseBalance index (Amount dat) s1)"
  using assms unfolding ProcessDeposit_def
  by (simp add: Let_def)

lemma ProcessDeposit_no_error_when_verified:
  assumes "verifyDeposit p s dep = None"
    and "ComputeDomain p (DomainDeposit p) None None = Inr domain"
    and "length (Validators s) = length (Balances s)"
  shows "fst (ProcessDeposit p dep vs s) = None"
proof -
  obtain d dat where d: "dep = Some d" "Data d = Some dat"
    using assms(1) by (rule verifyDeposit_None)
  show ?thesis
  proof (cases "ValidatorIndexByPubkey p s (ToBytes48 p (DataPublicKey dat))")
    case None
    then show ?thesis
      using assms(2) by (simp add: ProcessDeposit_verified [OF assms(1) d] Let_def split: option.splits)
  next
    case (Some i)
    then have "i < length (Balances s)"
      using ValidatorIndexByPubkey_less assms(3) by fastforce
    then show ?thesis
      using Some
      by (simp add: ProcessDeposit_verified [OF assms(1) d] Let_def IncreaseBalance_def
          SetEth1DepositIndex_def)
  qed
qed

text \<open>
  C3. For a deposit with its data, on a state that has its \<open>eth1_data\<close> and whose
  validators and balances are of one length, with the leaf \<open>hash_tree_root(deposit.data)\<close>
  and the deposit domain computed: \<open>ProcessDeposit\<close> returns an error if and only if
  the Merkle branch of the leaf does not verify against \<open>eth1_data.deposit_root\<close> at
  position \<open>eth1_deposit_index\<close> with tree depth \<open>DEPOSIT_CONTRACT_TREE_DEPTH + 1\<close>, and
  when it returns an error the state is unchanged (so \<open>eth1_deposit_index\<close> is not
  incremented).
\<close>

theorem ProcessDeposit_merkle_branch:
  assumes "dep = Some d" and "Data d = Some dat" and "Eth1Data s = Some e1"
    and "DepositDataHashTreeRoot p dat = Inr leaf"
    and "ComputeDomain p (DomainDeposit p) None None = Inr domain"
    and "length (Validators s) = length (Balances s)"
  shows "(fst (ProcessDeposit p dep verifySignature s) \<noteq> None \<longleftrightarrow>
            \<not> is_valid_merkle_branch (Hash p) leaf (Proof d) (unat DepositContractTreeDepth + 1)
                (unat (Eth1DepositIndex s)) (DepositRoot e1))
       \<and> (fst (ProcessDeposit p dep verifySignature s) \<noteq> None \<longrightarrow>
            snd (ProcessDeposit p dep verifySignature s) = s)"
proof (cases "verifyDeposit p s dep")
  case None
  then have "fst (ProcessDeposit p dep verifySignature s) = None"
    using assms(5) assms(6) by (rule ProcessDeposit_no_error_when_verified)
  then show ?thesis
    using None verifyDeposit_eq [OF assms(1-4)] by (simp add: VerifyMerkleBranch_def)
next
  case (Some err)
  then obtain e where "ProcessDeposit p dep verifySignature s = (Some e, s)"
    using ProcessDeposit_verify_failed by blast
  then show ?thesis
    using Some verifyDeposit_eq [OF assms(1-4)] by (simp add: VerifyMerkleBranch_def)
qed

text \<open>
  C4. For a deposit whose Merkle branch verifies, whose public key is not in the
  validator registry and whose deposit signature fails verification, \<open>ProcessDeposit\<close>
  with signature verification enabled returns the state without error, with no
  validator and no balance appended, and with \<open>eth1_deposit_index\<close> incremented by 1.
\<close>

theorem ProcessDeposit_invalid_signature_skipped:
  assumes "dep = Some d" and "Data d = Some dat" and "Eth1Data s = Some e1"
    and "DepositDataHashTreeRoot p dat = Inr leaf"
    and "VerifyMerkleBranch p (DepositRoot e1) leaf (Eth1DepositIndex s) (Proof d)
           DepositContractTreeDepth"
    and "ValidatorIndexByPubkey p s (ToBytes48 p (DataPublicKey dat)) = None"
    and "ComputeDomain p (DomainDeposit p) None None = Inr domain"
    and "verifyDepositDataSigningRoot p dat domain = Some err"
  shows "ProcessDeposit p dep True s = (None, s\<lparr>Eth1DepositIndex := Eth1DepositIndex s + 1\<rparr>)
       \<and> Validators (snd (ProcessDeposit p dep True s)) = Validators s
       \<and> Balances (snd (ProcessDeposit p dep True s)) = Balances s
       \<and> Eth1DepositIndex (snd (ProcessDeposit p dep True s)) = Eth1DepositIndex s + 1"
proof -
  have v: "verifyDeposit p s dep = None"
    using verifyDeposit_eq [OF assms(1-4)] assms(5) by simp
  have "ProcessDeposit p dep True s = (None, s\<lparr>Eth1DepositIndex := Eth1DepositIndex s + 1\<rparr>)"
    using assms(6-8)
    by (simp add: ProcessDeposit_verified [OF v assms(1,2)] Let_def SetEth1DepositIndex_def)
  then show ?thesis by simp
qed

lemma ProcessDeposit_index:
  assumes "ProcessDeposit p dep vs s = (None, s')"
  shows "Eth1DepositIndex s' = Eth1DepositIndex s + 1"
proof (cases "verifyDeposit p s dep")
  case None
  then obtain d dat where d: "dep = Some d" "Data d = Some dat"
    by (rule verifyDeposit_None)
  show ?thesis
    using assms
    by (auto simp: ProcessDeposit_verified [OF None d] Let_def IncreaseBalance_def
        SetEth1DepositIndex_def AppendBalance_def AppendValidator_def
        split: option.splits if_splits sum.splits)
next
  case (Some err)
  then show ?thesis
    using assms ProcessDeposit_verify_failed [OF Some, of vs] by auto
qed

lemma process_deposits_loop_index:
  assumes "process_deposits_loop p vs deps s = (None, s')"
  shows "Eth1DepositIndex s' = Eth1DepositIndex s + of_nat (length deps)"
  using assms
proof (induction deps arbitrary: s)
  case Nil
  then show ?case by simp
next
  case (Cons dep deps)
  from Cons.prems obtain s1 where step: "ProcessDeposit p dep vs s = (None, s1)"
    and rest: "process_deposits_loop p vs deps s1 = (None, s')"
    by (auto split: option.splits prod.splits)
  have "Eth1DepositIndex s1 = Eth1DepositIndex s + 1"
    using step by (rule ProcessDeposit_index)
  moreover have "Eth1DepositIndex s' = Eth1DepositIndex s1 + of_nat (length deps)"
    using rest by (rule Cons.IH)
  ultimately show ?case by simp
qed

text \<open>
  C6. When \<open>ProcessDeposits\<close> succeeds, the \<open>eth1_deposit_index\<close> of the state it
  returns is that of the input state plus the number of deposits in the block body, in
  64-bit arithmetic, and as numbers when the sum is below \<open>2^64\<close>.
\<close>

theorem ProcessDeposits_deposit_index:
  assumes "ProcessDeposits p ctx b s = (None, s')"
  shows "\<exists>sb blk body. b = Some sb \<and> Block sb = Some blk \<and> Body blk = Some body
           \<and> Eth1DepositIndex s' = Eth1DepositIndex s + of_nat (length (Deposits body))
           \<and> (unat (Eth1DepositIndex s) + length (Deposits body) < 2 ^ 64 \<longrightarrow>
                unat (Eth1DepositIndex s') = unat (Eth1DepositIndex s) + length (Deposits body))"
proof -
  from assms obtain body domain where nn: "VerifyNilBeaconBlock b = Inr body"
    and loop: "process_deposits_loop p
                 (verifyDepositDataWithDomain p ctx (Deposits body) domain \<noteq> None)
                 (Deposits body) s = (None, s')"
    unfolding ProcessDeposits_def
    by (auto simp: Let_def split: sum.splits)
  from nn obtain sb blk where "b = Some sb" "Block sb = Some blk" "Body blk = Some body"
    unfolding VerifyNilBeaconBlock_def by (auto split: option.splits)
  moreover have idx: "Eth1DepositIndex s' = Eth1DepositIndex s + of_nat (length (Deposits body))"
    using loop by (rule process_deposits_loop_index)
  moreover have "unat (Eth1DepositIndex s') = unat (Eth1DepositIndex s) + length (Deposits body)"
    if "unat (Eth1DepositIndex s) + length (Deposits body) < 2 ^ 64"
    using that idx by (simp add: unat_word_ariths unat_of_nat)
  ultimately show ?thesis by blast
qed

lemma merkle_climb_test: "merkle_climb (\<lambda>x. []) node position (replicate (Suc n) []) = []"
  by (induction n arbitrary: node position) simp_all

lemma test_branch_valid:
  "VerifyMerkleBranch test_primitives [] leaf position (replicate 33 []) DepositContractTreeDepth"
proof -
  have "replicate 33 ([]::bytes) = replicate (Suc 32) []" by simp
  then have "merkle_climb (\<lambda>x. []) leaf (unat position) (replicate 33 []) = []"
    using merkle_climb_test [of leaf "unat position" 32] by simp
  then show ?thesis
    by (simp add: VerifyMerkleBranch_def is_valid_merkle_branch_def test_primitives_def
        DepositContractTreeDepth_def)
qed

theorem ProcessDeposit_merkle_branch_witness:
  "Data (test_deposit [1] [1]\<lparr>Proof := []\<rparr>) = Some \<lparr>DataPublicKey = [1], DataWithdrawalCredentials = [],
       Amount = 32000000000, Signature = [1]\<rparr>
   \<and> Eth1Data test_state = Some \<lparr>DepositRoot = [], DepositCount = 3, BlockHash = []\<rparr>
   \<and> length (Validators test_state) = length (Balances test_state)
   \<and> \<not> is_valid_merkle_branch (Hash test_primitives) [1] [] (unat DepositContractTreeDepth + 1)
         (unat (Eth1DepositIndex test_state)) []
   \<and> fst (ProcessDeposit test_primitives (Some (test_deposit [1] [1]\<lparr>Proof := []\<rparr>)) True test_state) \<noteq> None
   \<and> snd (ProcessDeposit test_primitives (Some (test_deposit [1] [1]\<lparr>Proof := []\<rparr>)) True test_state)
       = test_state"
proof -
  let ?d = "test_deposit [1] [1]\<lparr>Proof := []\<rparr>"
  let ?dat = "\<lparr>DataPublicKey = [1], DataWithdrawalCredentials = [],
       Amount = 32000000000, Signature = [1]\<rparr>"
  let ?e = "\<lparr>DepositRoot = [], DepositCount = 3, BlockHash = []\<rparr>"
  have a: "Data ?d = Some ?dat" by (simp add: test_deposit_def)
  have b: "Eth1Data test_state = Some ?e" by (simp add: test_state_def)
  have c: "DepositDataHashTreeRoot test_primitives ?dat = Inr [1]"
    by (simp add: test_primitives_def)
  have d: "ComputeDomain test_primitives (DomainDeposit test_primitives) None None = Inr [3, 0, 0, 0]"
    by (simp add: test_primitives_def)
  have e: "length (Validators test_state) = length (Balances test_state)"
    by (simp add: test_state_def)
  have f: "\<not> is_valid_merkle_branch (Hash test_primitives) [1] (Proof ?d)
         (unat DepositContractTreeDepth + 1) (unat (Eth1DepositIndex test_state)) (DepositRoot ?e)"
    by (simp add: is_valid_merkle_branch_def test_deposit_def)
  show ?thesis
    using ProcessDeposit_merkle_branch [OF refl a b c d e, of True] a b e f
    by (simp add: test_deposit_def)
qed

theorem ProcessDeposit_invalid_signature_skipped_witness:
  "ValidatorIndexByPubkey test_primitives test_state (ToBytes48 test_primitives [1]) = None
   \<and> verifyDepositDataSigningRoot test_primitives
        \<lparr>DataPublicKey = [1], DataWithdrawalCredentials = [], Amount = 32000000000, Signature = [0]\<rparr>
        [3, 0, 0, 0] = Some (New ''signature did not verify'')
   \<and> ProcessDeposit test_primitives (Some (test_deposit [1] [0])) True test_state
       = (None, test_state\<lparr>Eth1DepositIndex := 1\<rparr>)"
proof -
  let ?d = "test_deposit [1] [0]"
  let ?dat = "\<lparr>DataPublicKey = [1], DataWithdrawalCredentials = [],
       Amount = 32000000000, Signature = [0]\<rparr>"
  let ?e = "\<lparr>DepositRoot = [], DepositCount = 3, BlockHash = []\<rparr>"
  have a: "Data ?d = Some ?dat" by (simp add: test_deposit_def)
  have b: "Eth1Data test_state = Some ?e" by (simp add: test_state_def)
  have c: "DepositDataHashTreeRoot test_primitives ?dat = Inr [1]"
    by (simp add: test_primitives_def)
  have d: "VerifyMerkleBranch test_primitives (DepositRoot ?e) [1] (Eth1DepositIndex test_state) (Proof ?d)
           DepositContractTreeDepth"
    using test_branch_valid [of "[1]" "Eth1DepositIndex test_state"] by (simp add: test_deposit_def)
  have e: "ValidatorIndexByPubkey test_primitives test_state
             (ToBytes48 test_primitives (DataPublicKey ?dat)) = None"
    by (simp add: ValidatorIndexByPubkey_def test_state_def)
  have f: "ComputeDomain test_primitives (DomainDeposit test_primitives) None None = Inr [3, 0, 0, 0]"
    by (simp add: test_primitives_def)
  have g: "verifyDepositDataSigningRoot test_primitives ?dat [3, 0, 0, 0]
            = Some (New ''signature did not verify'')"
    by (simp add: verifyDepositDataSigningRoot_def test_primitives_def)
  have h: "Eth1DepositIndex test_state + 1 = 1" by (simp add: test_state_def)
  show ?thesis
    using ProcessDeposit_invalid_signature_skipped [OF refl a b c d e f g] e g h by simp
qed

lemma ProcessDeposit_spec_step:
  assumes "dep = Some d" and "Data d = Some dat" and "Eth1Data s = Some e1"
    and "DepositDataHashTreeRoot p dat = Inr leaf"
    and "VerifyMerkleBranch p (DepositRoot e1) leaf (Eth1DepositIndex s) (Proof d)
           DepositContractTreeDepth"
    and "ComputeDomain p (DomainDeposit p) None None = Inr domain"
    and "length (Validators s) = length (Balances s)"
  shows "ProcessDeposit p dep True s = (None, spec_process_deposit p domain dat s)"
proof -
  have v: "verifyDeposit p s dep = None"
    using verifyDeposit_eq [OF assms(1-4)] assms(5) by simp
  show ?thesis
  proof (cases "pubkey_position p (Validators s) (ToBytes48 p (DataPublicKey dat))")
    case None
    then show ?thesis
      using assms(6)
      by (simp add: ProcessDeposit_verified [OF v assms(1,2)] Let_def spec_process_deposit_def
          ValidatorIndexByPubkey_def verifyDepositDataSigningRoot_def SetEth1DepositIndex_def
          AppendBalance_def AppendValidator_def split: option.splits)
  next
    case (Some i)
    then have "i < length (Balances s)"
      using pubkey_position_less assms(7) by fastforce
    then show ?thesis
      using Some
      by (simp add: ProcessDeposit_verified [OF v assms(1,2)] Let_def spec_process_deposit_def
          ValidatorIndexByPubkey_def IncreaseBalance_def SetEth1DepositIndex_def)
  qed
qed

lemma spec_process_deposit_frame:
  "Eth1Data (spec_process_deposit p domain dat s) = Eth1Data s"
  "Eth1DepositIndex (spec_process_deposit p domain dat s) = Eth1DepositIndex s + 1"
  "length (Validators s) = length (Balances s) \<Longrightarrow>
     length (Validators (spec_process_deposit p domain dat s))
       = length (Balances (spec_process_deposit p domain dat s))"
  by (simp_all add: spec_process_deposit_def Let_def split: option.splits)

lemma process_deposits_loop_spec:
  assumes "merkle_branches_verify p e1 (Eth1DepositIndex s) deps"
    and "Eth1Data s = Some e1"
    and "ComputeDomain p (DomainDeposit p) None None = Inr domain"
    and "length (Validators s) = length (Balances s)"
  shows "process_deposits_loop p True deps s = (None, spec_process_deposits p domain deps s)"
  using assms
proof (induction deps arbitrary: s)
  case Nil
  then show ?case by simp
next
  case (Cons dep deps)
  from Cons.prems(1) obtain d dat leaf where d: "dep = Some d" "Data d = Some dat"
    and leaf: "DepositDataHashTreeRoot p dat = Inr leaf"
    and br: "VerifyMerkleBranch p (DepositRoot e1) leaf (Eth1DepositIndex s) (Proof d)
           DepositContractTreeDepth"
    and rest: "merkle_branches_verify p e1 (Eth1DepositIndex s + 1) deps"
    by (auto split: option.splits sum.splits)
  let ?s1 = "spec_process_deposit p domain dat s"
  have step: "ProcessDeposit p dep True s = (None, ?s1)"
    using d Cons.prems(2) leaf br Cons.prems(3) Cons.prems(4) by (rule ProcessDeposit_spec_step)
  have "process_deposits_loop p True deps ?s1 = (None, spec_process_deposits p domain deps ?s1)"
  proof (rule Cons.IH)
    show "merkle_branches_verify p e1 (Eth1DepositIndex ?s1) deps"
      using rest by (simp add: spec_process_deposit_frame)
    show "Eth1Data ?s1 = Some e1"
      using Cons.prems(2) by (simp add: spec_process_deposit_frame)
    show "ComputeDomain p (DomainDeposit p) None None = Inr domain"
      by (rule Cons.prems(3))
    show "length (Validators ?s1) = length (Balances ?s1)"
      using Cons.prems(4) by (rule spec_process_deposit_frame)
  qed
  then show ?case
    using step d by simp
qed


lemma test_hash_tree_root:
  "DepositDataHashTreeRoot test_primitives dat = Inr (DataPublicKey dat)"
  by (simp add: test_primitives_def)

lemma test_branches_verify: "merkle_branches_verify test_primitives test_eth1data idx test_deposits"
  by (simp add: test_deposits_def test_hash_tree_root test_eth1data_def test_deposit_def
      test_branch_valid)

lemma test_domain:
  "ComputeDomain test_primitives (DomainDeposit test_primitives) None None = Inr [3, 0, 0, 0]"
  by (simp add: test_primitives_def)

lemma test_block_body:
  "VerifyNilBeaconBlock (Some (test_block deps))
     = Inr \<lparr>ProposerSlashings = [], AttesterSlashings = [], Attestations = [],
            Deposits = deps, VoluntaryExits = []\<rparr>"
  by (simp add: VerifyNilBeaconBlock_def test_block_def)

lemma test_aggregate_fails:
  "verifyDepositDataWithDomain test_primitives ctx test_deposits [3, 0, 0, 0] \<noteq> None"
  by (cases ctx)
    (simp_all add: verifyDepositDataWithDomain_def test_deposits_def test_deposit_def
      test_primitives_def)

lemma test_ProcessDeposits:
  "ProcessDeposits test_primitives ctx (Some (test_block test_deposits)) test_state
     = (None, spec_process_deposits test_primitives [3, 0, 0, 0] test_deposits test_state)"
proof -
  have "process_deposits_loop test_primitives True test_deposits test_state
          = (None, spec_process_deposits test_primitives [3, 0, 0, 0] test_deposits test_state)"
  proof (rule process_deposits_loop_spec)
    show "merkle_branches_verify test_primitives test_eth1data (Eth1DepositIndex test_state)
            test_deposits"
      by (rule test_branches_verify)
    show "Eth1Data test_state = Some test_eth1data"
      by (simp add: test_state_def test_eth1data_def)
    show "ComputeDomain test_primitives (DomainDeposit test_primitives) None None = Inr [3, 0, 0, 0]"
      by (rule test_domain)
    show "length (Validators test_state) = length (Balances test_state)"
      by (simp add: test_state_def)
  qed
  then show ?thesis
    using test_aggregate_fails [of ctx]
    by (simp add: ProcessDeposits_def test_block_body test_domain Let_def)
qed



theorem ProcessDeposits_deposit_index_witness:
  "fst (ProcessDeposits test_primitives None (Some (test_block test_deposits)) test_state) = None
   \<and> Eth1DepositIndex (snd (ProcessDeposits test_primitives None
         (Some (test_block test_deposits)) test_state)) = Eth1DepositIndex test_state + 3
   \<and> unat (Eth1DepositIndex (snd (ProcessDeposits test_primitives None
         (Some (test_block test_deposits)) test_state))) = 3"
proof -
  let ?r = "ProcessDeposits test_primitives None (Some (test_block test_deposits)) test_state"
  have ok: "fst ?r = None"
    by (simp add: test_ProcessDeposits)
  then have "?r = (None, snd ?r)"
    by (simp add: prod_eq_iff)
  then have "\<exists>sb blk body. Some (test_block test_deposits) = Some sb \<and> Block sb = Some blk
           \<and> Body blk = Some body
           \<and> Eth1DepositIndex (snd ?r) = Eth1DepositIndex test_state + of_nat (length (Deposits body))
           \<and> (unat (Eth1DepositIndex test_state) + length (Deposits body) < 2 ^ 64 \<longrightarrow>
                unat (Eth1DepositIndex (snd ?r))
                  = unat (Eth1DepositIndex test_state) + length (Deposits body))"
    by (rule ProcessDeposits_deposit_index)
  then show ?thesis
    using ok by (auto simp: test_block_def test_deposits_def test_state_def)
qed

section \<open>Properties of field tries\<close>

lemma convert_indices_bounds:
  assumes "0 < length val" and "\<exists>i \<in> set indices. length val \<le> unat i"
  shows "\<exists>e. convert_indices rootCreator what val indices = Inl e
            \<and> (e = Errorf (''index %d greater than number of '' @ what @ '' %d'')
                      [ArgD (unat (first_out_of_range (length val) indices)), ArgD (length val)]
               \<or> (\<exists>j \<in> set (in_range_prefix (length val) indices).
                     rootCreator (val ! unat j) = Inl e))"
  using assms(2)
proof (induction indices)
  case Nil
  then show ?case by simp
next
  case (Cons idx indices)
  show ?case
  proof (cases "unat idx > length val - 1")
    case True
    then have "\<not> unat idx < length val"
      by simp
    then show ?thesis
      using True by (simp add: first_out_of_range_def)
  next
    case False
    then have below: "unat idx < length val"
      using assms(1) by (cases val) auto
    have first: "first_out_of_range (length val) (idx # indices)
                   = first_out_of_range (length val) indices"
      using below by (simp add: first_out_of_range_def)
    have prefix: "in_range_prefix (length val) (idx # indices)
                    = idx # in_range_prefix (length val) indices"
      using below by (simp add: in_range_prefix_def)
    show ?thesis
    proof (cases "rootCreator (val ! unat idx)")
      case (Inl err)
      then show ?thesis
        using False prefix by simp
    next
      case (Inr root)
      have "\<exists>i \<in> set indices. length val \<le> unat i"
        using Cons.prems below by auto
      then obtain e where e: "convert_indices rootCreator what val indices = Inl e"
        and alt: "e = Errorf (''index %d greater than number of '' @ what @ '' %d'')
                        [ArgD (unat (first_out_of_range (length val) indices)), ArgD (length val)]
                  \<or> (\<exists>j \<in> set (in_range_prefix (length val) indices).
                        rootCreator (val ! unat j) = Inl e)"
        using Cons.IH by blast
      have "convert_indices rootCreator what val (idx # indices) = Inl e"
        using False Inr e by simp
      then show ?thesis
        using alt first prefix by auto
    qed
  qed
qed

lemma handle_slice_bounds:
  assumes "0 < length val" and "\<exists>i \<in> set indices. length val \<le> unat i"
  shows "\<exists>e. returned (handle_slice rootCreator what val indices False) = Err e
            \<and> (e = Errorf (''index %d greater than number of '' @ what @ '' %d'')
                      [ArgD (unat (first_out_of_range (length val) indices)), ArgD (length val)]
               \<or> (\<exists>j \<in> set (in_range_prefix (length val) indices).
                     rootCreator (val ! unat j) = Inl e))"
proof -
  obtain e where "convert_indices rootCreator what val indices = Inl e"
    and "e = Errorf (''index %d greater than number of '' @ what @ '' %d'')
               [ArgD (unat (first_out_of_range (length val) indices)), ArgD (length val)]
         \<or> (\<exists>j \<in> set (in_range_prefix (length val) indices). rootCreator (val ! unat j) = Inl e)"
    using convert_indices_bounds [OF assms] by blast
  then show ?thesis
    using assms(1) by (simp add: handle_slice_def returned_def)
qed

lemma handle_slice_empty:
  "handle_slice rootCreator what [] indices False = Inr []"
  by (simp add: handle_slice_def)

lemma fieldConverters_bounds:
  assumes "converter_accepts f els" and "elements_length els = Some n" and "0 < n"
    and "\<exists>i \<in> set indices. n \<le> unat i"
  shows "\<exists>e. fieldConverters p f indices els False = Err e
            \<and> (e = index_out_of_bounds els (first_out_of_range n indices) n
               \<or> (\<exists>j \<in> set (in_range_prefix n indices). leaf_root p els (unat j) = Inl e))"
proof (cases els)
  case (ByteArrays val)
  then show ?thesis
    using assms handle_slice_bounds [of val indices "\<lambda>input. Inr (ToBytes32 p input)" "''byte arrays''"]
    by (auto simp: fieldConverters_def handleByteArrays_def index_out_of_bounds_def)
next
  case (Eth1DataSlice val)
  then show ?thesis
    using assms handle_slice_bounds [of val indices "eth1Root p" "''items in eth1 data slice''"]
    by (auto simp: fieldConverters_def handleEth1DataSlice_def index_out_of_bounds_def)
next
  case (ValidatorSlice val)
  then show ?thesis
    using assms handle_slice_bounds [of val indices "ValidatorRootWithHasher p" "''validators''"]
    by (auto simp: fieldConverters_def handleValidatorSlice_def index_out_of_bounds_def)
next
  case (PendingAttestationSlice val)
  then show ?thesis
    using assms handle_slice_bounds [of val indices "PendingAttRootWithHasher p" "''pending attestations''"]
    by (auto simp: fieldConverters_def handlePendingAttestation_def index_out_of_bounds_def)
next
  case (OtherElements x)
  then show ?thesis using assms(1) by simp
next
  case NilElements
  then show ?thesis using assms(1) by simp
qed

lemma RecomputeTrie_converter_error:
  assumes "indices \<noteq> []" and "fieldMap (field f) \<noteq> None"
    and "fieldConverters p (field f) indices els False = Err e"
  shows "RecomputeTrie p f indices els = (Err e, f)"
  using assms by (auto simp: RecomputeTrie_def)

text \<open>
  C9, amended. For every field trie over a supported field kind and every non-empty
  elements list of the element type of that field, \<open>RecomputeTrie\<close> called with changed
  indices of which one is not below the number of elements returns an error, not a
  root, and leaves the trie as it was. The error is the index out of bounds error of
  the converter, for the first such index, whenever the leaf roots of the elements at
  the changed indices in front of it are computed without error, which is always so for
  the byte arrays of the block, state and randao roots; otherwise it is the error of
  one of these leaf roots.
\<close>

theorem RecomputeTrie_index_out_of_range:
  assumes "fieldMap (field f) \<noteq> None" and "converter_accepts (field f) els"
    and "elements_length els = Some n" and "0 < n"
    and "\<exists>i \<in> set indices. n \<le> unat i"
  shows "(\<exists>e. fst (RecomputeTrie p f indices els) = Err e
            \<and> (e = index_out_of_bounds els (first_out_of_range n indices) n
               \<or> (\<exists>j \<in> set (in_range_prefix n indices). leaf_root p els (unat j) = Inl e)))
       \<and> ((\<forall>j \<in> set (in_range_prefix n indices). \<exists>r. leaf_root p els (unat j) = Inr r) \<longrightarrow>
            fst (RecomputeTrie p f indices els)
              = Err (index_out_of_bounds els (first_out_of_range n indices) n))
       \<and> (\<forall>val. els = ByteArrays val \<longrightarrow>
            fst (RecomputeTrie p f indices els)
              = Err (Errorf ''index %d greater than number of byte arrays %d''
                       [ArgD (unat (first_out_of_range n indices)), ArgD (length val)]))
       \<and> snd (RecomputeTrie p f indices els) = f"
proof -
  have nonempty: "indices \<noteq> []"
    using assms(5) by auto
  obtain e where conv: "fieldConverters p (field f) indices els False = Err e"
    and alt: "e = index_out_of_bounds els (first_out_of_range n indices) n
              \<or> (\<exists>j \<in> set (in_range_prefix n indices). leaf_root p els (unat j) = Inl e)"
    using fieldConverters_bounds [OF assms(2-5)] by blast
  have res: "RecomputeTrie p f indices els = (Err e, f)"
    using RecomputeTrie_converter_error [OF nonempty assms(1) conv] .
  have first: "\<exists>e. fst (RecomputeTrie p f indices els) = Err e
            \<and> (e = index_out_of_bounds els (first_out_of_range n indices) n
               \<or> (\<exists>j \<in> set (in_range_prefix n indices). leaf_root p els (unat j) = Inl e))"
    using res alt by simp
  have second: "(\<forall>j \<in> set (in_range_prefix n indices). \<exists>r. leaf_root p els (unat j) = Inr r) \<longrightarrow>
            fst (RecomputeTrie p f indices els)
              = Err (index_out_of_bounds els (first_out_of_range n indices) n)"
    using res alt by auto
  have third: "\<forall>val. els = ByteArrays val \<longrightarrow>
            fst (RecomputeTrie p f indices els)
              = Err (Errorf ''index %d greater than number of byte arrays %d''
                       [ArgD (unat (first_out_of_range n indices)), ArgD (length val)])"
  proof (intro allI impI)
    fix val
    assume els: "els = ByteArrays val"
    then have "\<forall>j \<in> set (in_range_prefix n indices). \<exists>r. leaf_root p els (unat j) = Inr r"
      by simp
    then have "fst (RecomputeTrie p f indices els)
                 = Err (index_out_of_bounds els (first_out_of_range n indices) n)"
      using second by blast
    then show "fst (RecomputeTrie p f indices els)
              = Err (Errorf ''index %d greater than number of byte arrays %d''
                       [ArgD (unat (first_out_of_range n indices)), ArgD (length val)])"
      using els assms(3) by (simp add: index_out_of_bounds_def)
  qed
  have fourth: "snd (RecomputeTrie p f indices els) = f"
    using res by simp
  show ?thesis
    using first second third fourth by blast
qed

lemma dec_2: "dec 2 = ''2''"
  by (simp add: dec.simps)

theorem RecomputeTrie_index_out_of_range_witness:
  "fieldMap (field test_trie) \<noteq> None
   \<and> converter_accepts (field test_trie) (ByteArrays [ [1], [2] ])
   \<and> elements_length (ByteArrays [ [1], [2] ]) = Some 2
   \<and> (\<exists>i \<in> set [0, 2 :: u64]. 2 \<le> unat i)
   \<and> first_out_of_range 2 [0, 2] = 2
   \<and> fst (RecomputeTrie test_trie_primitives test_trie [0, 2] (ByteArrays [ [1], [2] ]))
       = Err (Errorf ''index %d greater than number of byte arrays %d'' [ArgD 2, ArgD 2])
   \<and> error_message (Errorf ''index %d greater than number of byte arrays %d'' [ArgD 2, ArgD 2])
       = ''index 2 greater than number of byte arrays 2''
   \<and> snd (RecomputeTrie test_trie_primitives test_trie [0, 2] (ByteArrays [ [1], [2] ]))
       = test_trie"
proof -
  have a: "fieldMap (field test_trie) \<noteq> None"
    by (simp add: test_trie_def fieldMap_def)
  have b: "converter_accepts (field test_trie) (ByteArrays [ [1], [2] ])"
    by (simp add: test_trie_def)
  have c: "elements_length (ByteArrays [ [1], [2] ]) = Some 2" by simp
  have d: "(0::nat) < 2" by simp
  have e: "\<exists>i \<in> set [0, 2 :: u64]. 2 \<le> unat i" by simp
  have f: "first_out_of_range 2 [0, 2] = 2"
    by (simp add: first_out_of_range_def)
  have m: "error_message (Errorf ''index %d greater than number of byte arrays %d'' [ArgD 2, ArgD 2])
       = ''index 2 greater than number of byte arrays 2''"
    by (simp add: dec_2)
  have "\<forall>val. ByteArrays [ [1], [2] ] = ByteArrays val \<longrightarrow>
          fst (RecomputeTrie test_trie_primitives test_trie [0, 2] (ByteArrays [ [1], [2] ]))
            = Err (Errorf ''index %d greater than number of byte arrays %d''
                     [ArgD (unat (first_out_of_range 2 [0, 2])), ArgD (length val)])"
    and s: "snd (RecomputeTrie test_trie_primitives test_trie [0, 2] (ByteArrays [ [1], [2] ]))
              = test_trie"
    using RecomputeTrie_index_out_of_range [OF a b c d e, of test_trie_primitives] by blast+
  then have "fst (RecomputeTrie test_trie_primitives test_trie [0, 2] (ByteArrays [ [1], [2] ]))
            = Err (Errorf ''index %d greater than number of byte arrays %d''
                     [ArgD (unat (first_out_of_range 2 [0, 2])), ArgD (length [ [1::8 word], [2] ])])"
    by blast
  then have r: "fst (RecomputeTrie test_trie_primitives test_trie [0, 2] (ByteArrays [ [1], [2] ]))
            = Err (Errorf ''index %d greater than number of byte arrays %d'' [ArgD 2, ArgD 2])"
    using f by simp
  show ?thesis
    using a b c e f m r s by blast
qed

lemma wrong_type_slice:
  assumes "elements_length els = Some n"
  shows "\<exists>e. wrong_type els = (Err e :: bytes list go_result)"
  using assms by (cases els) (simp_all add: wrong_type_def)

lemma fieldConverters_out_of_range:
  assumes "elements_length els = Some n" and "0 < n"
    and "\<exists>i \<in> set indices. n \<le> unat i"
  shows "\<exists>e. fieldConverters p f indices els False = Err e"
proof (cases "converter_accepts f els")
  case True
  then show ?thesis
    using fieldConverters_bounds [OF True assms] by blast
next
  case False
  then show ?thesis
    using wrong_type_slice [OF assms(1)] assms(1)
    by (cases els) (auto simp: fieldConverters_def)
qed

text \<open>
  Whatever the field of the trie and whichever of the four slices the elements are,
  the result is an error when the elements are not empty and a changed index is not
  below their number: the error of an unrecognized field, a type error, the error of a
  leaf root, or the index out of bounds error.
\<close>

lemma RecomputeTrie_out_of_range_error:
  assumes "elements_length els = Some n" and "0 < n"
    and "\<exists>i \<in> set indices. n \<le> unat i"
  shows "\<exists>e. fst (RecomputeTrie p f indices els) = Err e"
proof -
  have "indices \<noteq> []"
    using assms(3) by auto
  moreover obtain e where "fieldConverters p (field f) indices els False = Err e"
    using fieldConverters_out_of_range [OF assms] by blast
  ultimately show ?thesis
    by (simp add: RecomputeTrie_def split: option.splits)
qed

text \<open>
  C9 as stated fails. With no elements the converters check no index: for the changed
  indices \<open>[0]\<close> they return no roots and no error, and the result of \<open>RecomputeTrie\<close>
  is what the recompute helper makes of one changed index and no leaf roots: a panic
  when the helper reads a leaf root for each changed index, a root when it returns one.
  In neither case is it an error. With elements, the error is not always the index out
  of bounds error: for votes handed to the trie of the block roots it is the type error
  of \<open>fieldConverters\<close>, and for the votes \<open>[nil]\<close> and the changed indices \<open>[0, 1]\<close>
  it is the error of the leaf root of the vote at index 0, which comes first; for one
  vote that has a root it is the index out of bounds error.
\<close>

theorem RecomputeTrie_empty_elements_counterexample:
  "elements_length (ByteArrays []) = Some 0
   \<and> (0 :: u64) \<in> set [0] \<and> 0 \<le> unat (0 :: u64)
   \<and> fieldMap (field test_trie) = Some basicArray
   \<and> converter_accepts (field test_trie) (ByteArrays [])
   \<and> fieldConverters test_trie_primitives (field test_trie) [0] (ByteArrays []) False = Ok []
   \<and> fst (RecomputeTrie test_trie_primitives test_trie [0] (ByteArrays [])) = Panic
   \<and> fst (RecomputeTrie
            (test_trie_primitives\<lparr>RecomputeFromLayer := (\<lambda>leaves idxs ls. Some ([7], ls, None))\<rparr>)
            test_trie [0] (ByteArrays [])) = Ok [7]
   \<and> fst (RecomputeTrie test_trie_primitives test_trie [1] (Eth1DataSlice [None]))
       = Err (Errorf ''Wanted type of %v but got %v'' [ArgS [], ArgS []])
   \<and> fieldMap (field test_votes_trie) = Some compositeArray
   \<and> fst (RecomputeTrie test_trie_primitives test_votes_trie [0, 1] (Eth1DataSlice [None]))
       = Err (New ''nil eth1 data'')
   \<and> fst (RecomputeTrie test_trie_primitives test_votes_trie [0, 1]
            (Eth1DataSlice [Some test_eth1data]))
       = Err (Errorf ''index %d greater than number of items in eth1 data slice %d''
                [ArgD 1, ArgD 1])"
  by (simp add: RecomputeTrie_def test_trie_def test_votes_trie_def fieldMap_def
      fieldConverters_def handleByteArrays_def handleEth1DataSlice_def handle_slice_def
      returned_def wrong_type_def test_trie_primitives_def)

section \<open>Properties of the committee cache\<close>

lemma UpdateCommitteeCache_cached:
  assumes "SeedOf p state epoch (DomainBeaconAttester p) = Inr seed" and "HasEntry c seed"
  shows "UpdateCommitteeCache p state epoch c = (None, c)"
  using assms by (simp add: UpdateCommitteeCache_def)

lemma test_update_epoch_4:
  "UpdateCommitteeCache test_committee_primitives test_state 4 []
     = (None, [\<lparr>CommitteeCount = 32, Seed = [4], ShuffledIndices = [], SortedIndices = []\<rparr>,
               \<lparr>CommitteeCount = 32, Seed = [5], ShuffledIndices = [], SortedIndices = []\<rparr>])"
  by (simp add: UpdateCommitteeCache_def test_committee_primitives_def HasEntry_def
      ShuffledIndices_of_def test_state_def SlotCommitteeCount_def SlotsPerEpoch_def
      TargetCommitteeSize_def MaxCommitteesPerSlot_def AddCommitteeShuffledList_def Let_def)

text \<open>
  C8 fails on the code. The cache filled by \<open>UpdateCommitteeCache(state, 4)\<close> holds the
  seeds of epochs 4 and 5. The call for epoch 5 then finds the seed of epoch 5,
  returns \<open>nil\<close> and leaves the cache as it was, with no entry for the seed of
  epoch 6.
\<close>

theorem UpdateCommitteeCache_next_epoch_not_cached:
  "SeedOf test_committee_primitives test_state 5 (DomainBeaconAttester test_committee_primitives) = Inr [5]
   \<and> SeedOf test_committee_primitives test_state 6 (DomainBeaconAttester test_committee_primitives) = Inr [6]
   \<and> fst (UpdateCommitteeCache test_committee_primitives test_state 5
           (snd (UpdateCommitteeCache test_committee_primitives test_state 4 []))) = None
   \<and> HasEntry (snd (UpdateCommitteeCache test_committee_primitives test_state 5
           (snd (UpdateCommitteeCache test_committee_primitives test_state 4 [])))) [5]
   \<and> \<not> HasEntry (snd (UpdateCommitteeCache test_committee_primitives test_state 5
           (snd (UpdateCommitteeCache test_committee_primitives test_state 4 [])))) [6]"
proof -
  let ?c = "snd (UpdateCommitteeCache test_committee_primitives test_state 4 [])"
  have seed: "SeedOf test_committee_primitives test_state 5
                (DomainBeaconAttester test_committee_primitives) = Inr [5]"
    by (simp add: test_committee_primitives_def)
  have has: "HasEntry ?c [5]"
    by (simp add: test_update_epoch_4 HasEntry_def)
  have "UpdateCommitteeCache test_committee_primitives test_state 5 ?c = (None, ?c)"
    using seed has by (rule UpdateCommitteeCache_cached)
  moreover have "\<not> HasEntry ?c [6]"
    by (simp add: test_update_epoch_4 HasEntry_def)
  ultimately show ?thesis
    using has by (simp add: test_committee_primitives_def)
qed

section \<open>Properties of the slot loop\<close>

lemma UpdateStateRootAtIndex_Slot [simp]:
  "Slot (snd (UpdateStateRootAtIndex idx root s)) = Slot s"
  by (simp add: UpdateStateRootAtIndex_def)

lemma UpdateBlockRootAtIndex_Slot [simp]:
  "Slot (snd (UpdateBlockRootAtIndex idx root s)) = Slot s"
  by (simp add: UpdateBlockRootAtIndex_def)

lemma ProcessSlot_Slot: "Slot (snd (ProcessSlot tp s)) = Slot s"
proof (cases "StateHashTreeRoot tp s")
  case (Inl err)
  then show ?thesis by (simp add: ProcessSlot_def)
next
  case (Inr root)
  obtain e1 s1 where u: "UpdateStateRootAtIndex (Slot s mod SlotsPerHistoricalRoot) root s = (e1, s1)"
    by (cases "UpdateStateRootAtIndex (Slot s mod SlotsPerHistoricalRoot) root s")
  have s1: "Slot s1 = Slot s"
    using UpdateStateRootAtIndex_Slot [of "Slot s mod SlotsPerHistoricalRoot" root s] u by simp
  show ?thesis
  proof (cases e1)
    case (Some err)
    then show ?thesis using Inr u s1 by (simp add: ProcessSlot_def)
  next
    case None
    then show ?thesis
      using Inr u s1
      by (simp add: ProcessSlot_def Let_def SetLatestBlockHeader_def split: sum.splits)
  qed
qed

text \<open>A step of a chain of processors that each leave the slot as it is.\<close>

lemma keep_slot_chain:
  assumes "Slot (snd (f a)) = Slot a" and "Slot a = v"
    and "\<And>b. Slot b = v \<Longrightarrow> Slot (snd (g b)) = v"
  shows "Slot (snd (case f a of (Some err, b) \<Rightarrow> (Some (h err), b) | (None, b) \<Rightarrow> g b)) = v"
  using assms by (cases "f a") (auto split: option.splits)

lemma ProcessEpochPrecompute_Slot:
  assumes "epoch_processors_keep_slot tp"
  shows "Slot (snd (ProcessEpochPrecompute tp ctx s)) = Slot s"
proof -
  have j: "\<And>bp s. Slot (snd (ProcessJustificationAndFinalizationPreCompute tp bp s)) = Slot s"
    and r: "\<And>bp vp s. Slot (snd (ProcessRewardsAndPenaltiesPrecompute tp bp vp s)) = Slot s"
    and u: "\<And>s. Slot (snd (ProcessRegistryUpdates tp s)) = Slot s"
    and l: "\<And>bp s. Slot (snd (ProcessSlashingsPrecompute tp bp s)) = Slot s"
    and f: "\<And>s. Slot (snd (ProcessFinalUpdates tp s)) = Slot s"
    using assms unfolding epoch_processors_keep_slot_def by blast+
  show ?thesis
  proof (cases "PrecomputeNew tp ctx s")
    case (Inl err)
    then show ?thesis by (simp add: ProcessEpochPrecompute_def)
  next
    case new: (Inr vb)
    obtain vp bp where vb: "vb = (vp, bp)" by (cases vb)
    show ?thesis
    proof (cases "PrecomputeProcessAttestations tp ctx s vp bp")
      case (Inl err)
      then show ?thesis using new vb by (simp add: ProcessEpochPrecompute_def)
    next
      case att: (Inr vb')
      obtain vp' bp' where vb': "vb' = (vp', bp')" by (cases vb')
      have "Slot (snd
         (case ProcessJustificationAndFinalizationPreCompute tp bp' s of
            (Some err, s1) \<Rightarrow> (Some (Wrap err ''could not process justification''), s1)
          | (None, s1) \<Rightarrow>
         (case ProcessRewardsAndPenaltiesPrecompute tp bp' vp' s1 of
            (Some err, s2) \<Rightarrow> (Some (Wrap err ''could not process rewards and penalties''), s2)
          | (None, s2) \<Rightarrow>
         (case ProcessRegistryUpdates tp s2 of
            (Some err, s3) \<Rightarrow> (Some (Wrap err ''could not process registry updates''), s3)
          | (None, s3) \<Rightarrow>
         (case ProcessSlashingsPrecompute tp bp' s3 of
            (Some err, s4) \<Rightarrow> (Some err, s4)
          | (None, s4) \<Rightarrow>
         (case ProcessFinalUpdates tp s4 of
            (Some err, s5) \<Rightarrow> (Some (Wrap err ''could not process final updates''), s5)
          | (None, s5) \<Rightarrow> (None, s5))))))) = Slot s"
        by (intro keep_slot_chain j r u l f refl) simp_all
      then show ?thesis
        using new vb att vb' by (simp add: ProcessEpochPrecompute_def)
    qed
  qed
qed

lemma word_less_Suc:
  fixes a b :: u64
  assumes "a < b"
  shows "unat (a + 1) = Suc (unat a)" and "a + 1 \<le> b"
proof -
  have "unat a < unat b" using assms by (simp add: word_less_nat_alt)
  moreover have "unat b < 2 ^ 64" using unsigned_less [of b] by simp
  ultimately have "unat a + 1 < 2 ^ 64" by simp
  then show u: "unat (a + 1) = Suc (unat a)"
    by (simp add: unat_word_ariths)
  show "a + 1 \<le> b"
    using u \<open>unat a < unat b\<close> by (simp add: word_le_nat_alt)
qed

lemma loop_unfold:
  "process_slots_loop tp ctx slot s =
     (if Slot s < slot then
        (case ctx of
           Some err \<Rightarrow> Some (Cancelled err, s)
         | None \<Rightarrow>
        (case ProcessSlot tp s of
           (Some err, s1) \<Rightarrow> Some (Failed (Wrap err ''could not process slot''), s1)
         | (None, s1) \<Rightarrow>
        (case (if CanProcessEpoch s1 then ProcessEpochPrecompute tp ctx s1 else (None, s1)) of
           (Some err, s2) \<Rightarrow>
             Some (Failed (Wrap err ''could not process epoch with optimizations''), s2)
         | (None, s2) \<Rightarrow> process_slots_loop tp ctx slot (SetSlot (Slot s2 + 1) s2))))
      else Some (Finished, s))"
  by (rule process_slots_loop.simps)

text \<open>
  The outcome of one turn: it leaves the loop, or it goes on with the state that the
  specification's iteration gives, whose slot is one more.
\<close>

lemma loop_turn:
  assumes keep: "epoch_processors_keep_slot tp" and lt: "Slot s < slot"
  shows "(\<exists>ex s1. ex \<noteq> Finished \<and> process_slots_loop tp ctx slot s = Some (ex, s1))
       \<or> (\<exists>s'. ctx = None \<and> spec_slot_step tp ctx s = Inr s' \<and> Slot s' = Slot s + 1
              \<and> process_slots_loop tp ctx slot s = process_slots_loop tp ctx slot s')"
proof (cases ctx)
  case (Some err)
  then show ?thesis
    using lt by (subst loop_unfold) simp
next
  case None
  obtain e1 s1 where p: "ProcessSlot tp s = (e1, s1)"
    by (cases "ProcessSlot tp s")
  have s1: "Slot s1 = Slot s"
    using ProcessSlot_Slot [of tp s] p by simp
  show ?thesis
  proof (cases e1)
    case (Some err)
    then show ?thesis
      using lt None p by (subst loop_unfold) simp
  next
    case e1: None
    show ?thesis
    proof (cases "CanProcessEpoch s1")
      case False
      let ?s' = "s1\<lparr>Slot := Slot s1 + 1\<rparr>"
      have "spec_slot_step tp ctx s = Inr ?s'"
        using p e1 False by (simp add: spec_slot_step_def CanProcessEpoch_def)
      moreover have "process_slots_loop tp ctx slot s = process_slots_loop tp ctx slot ?s'"
        using lt None p e1 False by (subst loop_unfold) (simp add: SetSlot_def)
      ultimately show ?thesis
        using None s1 by simp
    next
      case True
      obtain e2 s2 where q: "ProcessEpochPrecompute tp ctx s1 = (e2, s2)"
        by (cases "ProcessEpochPrecompute tp ctx s1")
      have s2: "Slot s2 = Slot s"
        using ProcessEpochPrecompute_Slot [OF keep, of ctx s1] q s1 by simp
      show ?thesis
      proof (cases e2)
        case (Some err)
        then show ?thesis
          using lt None p e1 True q by (subst loop_unfold) simp
      next
        case e2: None
        let ?s' = "s2\<lparr>Slot := Slot s2 + 1\<rparr>"
        have "spec_slot_step tp ctx s = Inr ?s'"
          using p e1 True q e2 by (simp add: spec_slot_step_def CanProcessEpoch_def)
        moreover have "process_slots_loop tp ctx slot s = process_slots_loop tp ctx slot ?s'"
          using lt None p e1 True q e2 by (subst loop_unfold) (simp add: SetSlot_def)
        ultimately show ?thesis
          using None s2 by simp
      qed
    qed
  qed
qed

lemma process_slots_loop_terminates:
  assumes keep: "epoch_processors_keep_slot tp"
  shows "\<exists>res. process_slots_loop tp ctx slot s = Some res"
proof (induction "unat slot - unat (Slot s)" arbitrary: s rule: less_induct)
  case less
  show ?case
  proof (cases "Slot s < slot")
    case False
    then show ?thesis by (subst loop_unfold) simp
  next
    case True
    from loop_turn [OF keep True, of ctx]
    show ?thesis
    proof
      assume "\<exists>ex s1. ex \<noteq> Finished \<and> process_slots_loop tp ctx slot s = Some (ex, s1)"
      then show ?thesis by blast
    next
      assume "\<exists>s'. ctx = None \<and> spec_slot_step tp ctx s = Inr s' \<and> Slot s' = Slot s + 1
              \<and> process_slots_loop tp ctx slot s = process_slots_loop tp ctx slot s'"
      then obtain s' where s': "Slot s' = Slot s + 1"
        and eq: "process_slots_loop tp ctx slot s = process_slots_loop tp ctx slot s'"
        by blast
      have "unat (Slot s') = Suc (unat (Slot s))"
        using word_less_Suc(1) [OF True] s' by simp
      moreover have "unat (Slot s) < unat slot"
        using True by (simp add: word_less_nat_alt)
      ultimately have "unat slot - unat (Slot s') < unat slot - unat (Slot s)"
        by simp
      then show ?thesis
        using less eq by simp
    qed
  qed
qed

lemma process_slots_loop_finished:
  assumes keep: "epoch_processors_keep_slot tp"
    and "Slot s \<le> slot"
    and "process_slots_loop tp ctx slot s = Some (Finished, s')"
  shows "Slot s' = slot \<and> spec_process_slots tp ctx (unat slot - unat (Slot s)) s = Inr s'"
  using assms(2,3)
proof (induction "unat slot - unat (Slot s)" arbitrary: s rule: less_induct)
  case less
  show ?case
  proof (cases "Slot s < slot")
    case False
    then have eq: "Slot s = slot"
      using less.prems(1) by simp
    have "process_slots_loop tp ctx slot s = Some (Finished, s)"
      using False by (subst loop_unfold) simp
    then show ?thesis
      using less.prems(2) eq by simp
  next
    case True
    from loop_turn [OF keep True, of ctx]
    show ?thesis
    proof
      assume "\<exists>ex s1. ex \<noteq> Finished \<and> process_slots_loop tp ctx slot s = Some (ex, s1)"
      then show ?thesis
        using less.prems(2) by auto
    next
      assume "\<exists>s'. ctx = None \<and> spec_slot_step tp ctx s = Inr s' \<and> Slot s' = Slot s + 1
              \<and> process_slots_loop tp ctx slot s = process_slots_loop tp ctx slot s'"
      then obtain s1 where step: "spec_slot_step tp ctx s = Inr s1"
        and s1: "Slot s1 = Slot s + 1"
        and eq: "process_slots_loop tp ctx slot s = process_slots_loop tp ctx slot s1"
        by blast
      have u: "unat (Slot s1) = Suc (unat (Slot s))"
        using word_less_Suc(1) [OF True] s1 by simp
      have lt: "unat (Slot s) < unat slot"
        using True by (simp add: word_less_nat_alt)
      have le: "Slot s1 \<le> slot"
        using word_less_Suc(2) [OF True] s1 by simp
      have "unat slot - unat (Slot s1) < unat slot - unat (Slot s)"
        using u lt by simp
      then have ih: "Slot s' = slot
          \<and> spec_process_slots tp ctx (unat slot - unat (Slot s1)) s1 = Inr s'"
        using less.hyps le less.prems(2) eq by simp
      have "unat slot - unat (Slot s) = Suc (unat slot - unat (Slot s1))"
        using u lt by simp
      then show ?thesis
        using ih step by simp
    qed
  qed
qed

section \<open>Properties of the entry points\<close>

lemma frame_refl: "frame r w w"
  by (simp add: frame_def)

lemma frame_trans:
  assumes "frame r w w1" and "frame r' w1 w2" and "r' = r \<or> next_ref w \<le> r'"
  shows "frame r w w2"
  using assms unfolding frame_def by auto

lemma frame_fresh:
  assumes "frame r w w'" and "next_ref w \<le> r" and "a < next_ref w"
  shows "heap w' a = heap w a"
  using assms unfolding frame_def by auto

lemma alloc_frame:
  assumes "alloc s w = (r, w')"
  shows "r = next_ref w" and "next_ref w' = Suc (next_ref w)" and "heap w' r = s"
    and "frame x w w'" and "\<And>a. a < next_ref w \<Longrightarrow> heap w' a = heap w a"
  using assms unfolding alloc_def frame_def by auto

lemma mutate_frame:
  assumes "mutate f r w = (e, w')"
  shows "frame r w w'" and "next_ref w' = next_ref w" and "heap w' r = snd (f (heap w r))"
    and "e = fst (f (heap w r))"
  using assms unfolding mutate_def frame_def by (auto split: prod.splits)

lemma on_caches_heap:
  "heap (snd (on_caches f w)) = heap w" "next_ref (snd (on_caches f w)) = next_ref w"
  by (simp_all add: on_caches_def split: prod.splits)

lemma put_if_advanced_heap:
  "heap (put_if_advanced co ctx key h r w) = heap w"
  "next_ref (put_if_advanced co ctx key h r w) = next_ref w"
  by (simp_all add: put_if_advanced_def on_caches_heap)

text \<open>A lookup leaves the objects as they are, and hands out a new object.\<close>

lemma hand_out_frame:
  assumes "hand_out lookup w = (res, w')"
  shows "next_ref w \<le> next_ref w'"
    and "\<And>a. a < next_ref w \<Longrightarrow> heap w' a = heap w a"
    and "\<And>c. res = Inr (Some c) \<Longrightarrow>
           next_ref w \<le> c \<and> c < next_ref w' \<and> fst (lookup (caches w)) = Inr (Some (heap w' c))"
proof -
  obtain x cs where l: "lookup (caches w) = (x, cs)"
    by (cases "lookup (caches w)")
  have "next_ref w \<le> next_ref w' \<and> (\<forall>a < next_ref w. heap w' a = heap w a)
      \<and> (\<forall>c. res = Inr (Some c) \<longrightarrow>
           next_ref w \<le> c \<and> c < next_ref w' \<and> fst (lookup (caches w)) = Inr (Some (heap w' c)))"
    using assms l unfolding hand_out_def alloc_def
    by (auto split: sum.splits option.splits)
  then show "next_ref w \<le> next_ref w'"
    and "\<And>a. a < next_ref w \<Longrightarrow> heap w' a = heap w a"
    and "\<And>c. res = Inr (Some c) \<Longrightarrow>
           next_ref w \<le> c \<and> c < next_ref w' \<and> fst (lookup (caches w)) = Inr (Some (heap w' c))"
    by blast+
qed

lemma use_cached_start_ok:
  assumes get: "hand_out (SkipSlotCacheGet co ctx key) w = (Inr cachedState, w')"
    and cur: "start_ok co ctx slot r s0 n0 w (snd cur)"
    and n0: "n0 \<le> next_ref w" and r: "r < n0"
  shows "start_ok co ctx slot r s0 n0 w' (snd (use_cached w' cachedState slot cur))"
proof -
  define x where "x = snd cur"
  have cur: "start_ok co ctx slot r s0 n0 w x"
    using cur by (simp add: x_def)
  have x: "x < next_ref w" using cur by (simp add: start_ok_def)
  have keep: "heap w' x = heap w x"
    using hand_out_frame(2) [OF get x] .
  have le: "next_ref w \<le> next_ref w'"
    using hand_out_frame(1) [OF get] .
  have old: "start_ok co ctx slot r s0 n0 w' x"
    using cur keep le x unfolding start_ok_def by auto
  show ?thesis
  proof (cases cachedState)
    case None
    then show ?thesis using old by (simp add: use_cached_def x_def)
  next
    case (Some c)
    show ?thesis
    proof (cases "Slot (heap w' c) < slot")
      case False
      then show ?thesis using old Some by (simp add: use_cached_def x_def)
    next
      case True
      have "next_ref w \<le> c \<and> c < next_ref w'
            \<and> fst (SkipSlotCacheGet co ctx key (caches w)) = Inr (Some (heap w' c))"
        using hand_out_frame(3) [OF get] Some by simp
      then have "start_ok co ctx slot r s0 n0 w' c"
        using True n0 unfolding start_ok_def by auto
      then show ?thesis using Some True by (simp add: use_cached_def)
    qed
  qed
qed

lemma on_caches_start_ok:
  assumes "on_caches f w = (e, w')" and "start_ok co ctx slot r s0 n0 w x"
  shows "start_ok co ctx slot r s0 n0 w' x"
proof -
  have "heap w' = heap w" "next_ref w' = next_ref w"
    using on_caches_heap [of f w] assms(1) by simp_all
  then show ?thesis
    using assms(2) by (simp add: start_ok_def)
qed

text \<open>\<open>ProcessSlots\<close> from its \<open>defer\<close> on.\<close>

lemma advance_slots_result:
  assumes "advance_slots tp co ctx key slot (h, x) w = Some (res, w')"
  shows "frame x w w'" and "next_ref w' = next_ref w"
    and "\<And>r'. res = Inr r' \<Longrightarrow>
           r' = x \<and> process_slots_loop tp ctx slot (heap w x) = Some (Finished, heap w' x)"
proof -
  obtain ex s where l: "process_slots_loop tp ctx slot (heap w x) = Some (ex, s)"
    using assms by (auto simp: advance_slots_def split: option.splits)
  let ?w1 = "w\<lparr>heap := (heap w)(x := s)\<rparr>"
  have "heap w' = heap ?w1 \<and> next_ref w' = next_ref w
      \<and> (\<forall>r'. res = Inr r' \<longrightarrow> r' = x \<and> ex = Finished)"
    using assms l
    by (cases ex)
      (auto simp: advance_slots_def Let_def on_caches_heap put_if_advanced_heap)
  then show "frame x w w'" and "next_ref w' = next_ref w"
    and "\<And>r'. res = Inr r' \<Longrightarrow>
           r' = x \<and> process_slots_loop tp ctx slot (heap w x) = Some (Finished, heap w' x)"
    using l by (auto simp: frame_def)
qed

lemma advance_slots_terminates:
  assumes "epoch_processors_keep_slot tp"
  shows "\<exists>res. advance_slots tp co ctx key slot cur w = Some res"
proof -
  obtain ex s where "process_slots_loop tp ctx slot (heap w (snd cur)) = Some (ex, s)"
    using process_slots_loop_terminates [OF assms, of ctx slot "heap w (snd cur)"] by auto
  then show ?thesis
    by (simp add: advance_slots_def Let_def split: prod.splits)
qed

lemma advance_slots_from_start:
  assumes keep: "epoch_processors_keep_slot tp"
    and adv: "advance_slots tp co ctx key slot (h, x) w = Some (Inr r', w')"
    and ok: "start_ok co ctx slot r s0 n0 w x"
  shows "r' = x \<and> Slot (heap w' r') = slot
       \<and> spec_process_slots tp ctx (unat slot - unat (Slot (heap w x))) (heap w x) = Inr (heap w' r')"
proof -
  have r': "r' = x"
    and l: "process_slots_loop tp ctx slot (heap w x) = Some (Finished, heap w' x)"
    using advance_slots_result(3) [OF adv] by simp_all
  have "Slot (heap w x) \<le> slot"
    using ok by (simp add: start_ok_def less_imp_le)
  then show ?thesis
    using process_slots_loop_finished [OF keep _ l] r' by simp
qed

text \<open>The steps of \<open>ProcessSlots\<close> up to its \<open>defer\<close>, gathered.\<close>

lemma ProcessSlots_cases:
  assumes ps: "ProcessSlots tp co ctx (Some r) slot w = Some (res, w')"
    and r: "r < next_ref w"
  shows "(\<exists>e. res = Inl e \<and> frame r w w')
       \<or> (\<exists>key h x w2. Slot (heap w r) < slot
            \<and> start_ok co ctx slot r (heap w r) (next_ref w) w2 x
            \<and> next_ref w \<le> next_ref w2
            \<and> (\<forall>a < next_ref w. heap w2 a = heap w a)
            \<and> advance_slots tp co ctx key slot (h, x) w2 = Some (res, w'))"
proof (cases "slot \<le> Slot (heap w r)")
  case True
  then show ?thesis
    using ps by (auto simp: ProcessSlots_def frame_refl)
next
  case False
  then have lt: "Slot (heap w r) < slot" by simp
  have ok0: "start_ok co ctx slot r (heap w r) (next_ref w) w r"
    using lt r by (simp add: start_ok_def)
  show ?thesis
  proof (cases "cacheKey tp ctx (heap w r)")
    case (Inl err)
    then show ?thesis
      using ps False by (auto simp: ProcessSlots_def Let_def frame_refl)
  next
    case (Inr key)
    obtain g1 w1 where get1: "hand_out (SkipSlotCacheGet co ctx key) w = (g1, w1)"
      by (cases "hand_out (SkipSlotCacheGet co ctx key) w")
    have f1: "next_ref w \<le> next_ref w1" "\<And>a. a < next_ref w \<Longrightarrow> heap w1 a = heap w a"
      using hand_out_frame(1,2) [OF get1] by simp_all
    show ?thesis
    proof (cases g1)
      case (Inl err)
      then have "res = Inl err" "w' = w1"
        using ps False Inr get1 by (auto simp: ProcessSlots_def Let_def)
      then show ?thesis
        using f1 by (auto simp: frame_def)
    next
      case g1: (Inr cached1)
      let ?cur = "use_cached w1 cached1 slot (Slot (heap w r), r)"
      have "start_ok co ctx slot r (heap w r) (next_ref w) w (snd (Slot (heap w r), r))"
        using ok0 by simp
      then have ok1: "start_ok co ctx slot r (heap w r) (next_ref w) w1 (snd ?cur)"
        using use_cached_start_ok [OF _ _ _ r] get1 g1 by blast
      obtain m w2 where mark: "on_caches (SkipSlotCacheMarkInProgress co key) w1 = (m, w2)"
        by (cases "on_caches (SkipSlotCacheMarkInProgress co key) w1")
      have h2: "heap w2 = heap w1" "next_ref w2 = next_ref w1"
        using on_caches_heap [of "SkipSlotCacheMarkInProgress co key" w1] mark by simp_all
      have ok2: "start_ok co ctx slot r (heap w r) (next_ref w) w2 (snd ?cur)"
        using on_caches_start_ok [OF mark ok1] .
      show ?thesis
      proof (cases m)
        case None
        then have "advance_slots tp co ctx key slot ?cur w2 = Some (res, w')"
          using ps False Inr get1 g1 mark by (simp add: ProcessSlots_def Let_def)
        then have adv: "advance_slots tp co ctx key slot (fst ?cur, snd ?cur) w2 = Some (res, w')"
          by simp
        have le: "next_ref w \<le> next_ref w2"
          using f1 h2 by simp
        have same: "\<forall>a < next_ref w. heap w2 a = heap w a"
          using f1 h2 by simp
        show ?thesis
          using lt ok2 le same adv by blast
      next
        case (Some err)
        show ?thesis
        proof (cases "errors_Is err ErrAlreadyInProgress")
          case False
          then have "res = Inl err" "w' = w2"
            using ps \<open>\<not> slot \<le> Slot (heap w r)\<close> Inr get1 g1 mark Some
            by (auto simp: ProcessSlots_def Let_def)
          then show ?thesis
            using f1 h2 by (auto simp: frame_def)
        next
          case True
          obtain g3 w3 where get3: "hand_out (SkipSlotCacheGet co ctx key) w2 = (g3, w3)"
            by (cases "hand_out (SkipSlotCacheGet co ctx key) w2")
          have f3: "next_ref w2 \<le> next_ref w3" "\<And>a. a < next_ref w2 \<Longrightarrow> heap w3 a = heap w2 a"
            using hand_out_frame(1,2) [OF get3] by simp_all
          show ?thesis
          proof (cases g3)
            case (Inl err3)
            then have "res = Inl err3" "w' = w3"
              using ps \<open>\<not> slot \<le> Slot (heap w r)\<close> Inr get1 g1 mark Some True get3
              by (auto simp: ProcessSlots_def Let_def)
            then show ?thesis
              using f1 h2 f3 by (auto simp: frame_def)
          next
            case g3: (Inr cached3)
            let ?cur3 = "use_cached w3 cached3 slot ?cur"
            have ok3: "start_ok co ctx slot r (heap w r) (next_ref w) w3 (snd ?cur3)"
              using use_cached_start_ok [OF _ ok2 _ r] get3 g3 f1 h2 by simp
            have "advance_slots tp co ctx key slot ?cur3 w3 = Some (res, w')"
              using ps \<open>\<not> slot \<le> Slot (heap w r)\<close> Inr get1 g1 mark Some True get3 g3
              by (simp add: ProcessSlots_def Let_def)
            then have adv: "advance_slots tp co ctx key slot (fst ?cur3, snd ?cur3) w3 = Some (res, w')"
              by simp
            have le: "next_ref w \<le> next_ref w3"
              using f1 h2 f3 by simp
            have same: "\<forall>a < next_ref w. heap w3 a = heap w a"
              using f1 h2 f3 by auto
            show ?thesis
              using lt ok3 le same adv by blast
          qed
        qed
      qed
    qed
  qed
qed

lemma advance_slots_not_None:
  assumes "epoch_processors_keep_slot tp"
  shows "advance_slots tp co ctx key slot cur w \<noteq> None"
  using advance_slots_terminates [OF assms, of co ctx key slot cur w] by auto

lemma ProcessSlots_terminates:
  assumes "epoch_processors_keep_slot tp"
  shows "\<exists>res. ProcessSlots tp co ctx state slot w = Some res"
proof -
  have adv: "\<And>key cur w. \<exists>a b. advance_slots tp co ctx key slot cur w = Some (a, b)"
    using advance_slots_terminates [OF assms] by simp
  have "ProcessSlots tp co ctx state slot w \<noteq> None"
    unfolding ProcessSlots_def Let_def
    by (simp add: adv split: option.splits sum.splits prod.splits)
  then show ?thesis by auto
qed

text \<open>
  \<open>ProcessSlots\<close> writes to the caller's state object or to a new one, and returns
  one of the two.
\<close>

lemma ProcessSlots_frame:
  assumes ps: "ProcessSlots tp co ctx (Some r) slot w = Some (res, w')"
    and r: "r < next_ref w"
  shows "frame r w w'"
    and "\<And>r'. res = Inr r' \<Longrightarrow> (r' = r \<or> next_ref w \<le> r') \<and> r' < next_ref w'"
proof -
  have "frame r w w' \<and> (\<forall>r'. res = Inr r' \<longrightarrow> (r' = r \<or> next_ref w \<le> r') \<and> r' < next_ref w')"
    using ProcessSlots_cases [OF ps r]
  proof
    assume "\<exists>e. res = Inl e \<and> frame r w w'"
    then show ?thesis by auto
  next
    assume "\<exists>key h x w2. Slot (heap w r) < slot
            \<and> start_ok co ctx slot r (heap w r) (next_ref w) w2 x
            \<and> next_ref w \<le> next_ref w2
            \<and> (\<forall>a < next_ref w. heap w2 a = heap w a)
            \<and> advance_slots tp co ctx key slot (h, x) w2 = Some (res, w')"
    then obtain key h x w2 where ok: "start_ok co ctx slot r (heap w r) (next_ref w) w2 x"
      and le: "next_ref w \<le> next_ref w2"
      and same: "\<forall>a < next_ref w. heap w2 a = heap w a"
      and adv: "advance_slots tp co ctx key slot (h, x) w2 = Some (res, w')"
      by blast
    have x: "x < next_ref w2" "x = r \<or> next_ref w \<le> x"
      using ok by (auto simp: start_ok_def)
    have f: "frame x w2 w'" and n: "next_ref w' = next_ref w2"
      using advance_slots_result(1,2) [OF adv] by simp_all
    have "frame r w w'"
      using f le same x(2) unfolding frame_def by auto
    moreover have "\<forall>r'. res = Inr r' \<longrightarrow> r' = x"
      using advance_slots_result(3) [OF adv] by simp
    ultimately show ?thesis
      using x n by auto
  qed
  then show "frame r w w'"
    and "\<And>r'. res = Inr r' \<Longrightarrow> (r' = r \<or> next_ref w \<le> r') \<and> r' < next_ref w'"
    by blast+
qed

text \<open>
  C2. For a state that is not \<open>nil\<close> and a target slot, with epoch processors that
  leave the slot as it is: \<open>ProcessSlots\<close> returns; it returns an error, and leaves
  everything as it was, when \<open>state.slot >= target_slot\<close>; and when it returns a state,
  the slot of that state is the target slot, and that state is what the specification's
  iteration (\<open>process_slot\<close>, the epoch transition where
  \<open>(state.slot + 1) mod SLOTS_PER_EPOCH == 0\<close>, and the slot incremented by one) gives,
  once per slot up to the target, from the state that \<open>ProcessSlots\<close> went on with: the
  caller's state, or a state below the target slot that the skip-slot cache handed
  out.
\<close>

theorem ProcessSlots_advances:
  assumes "epoch_processors_keep_slot tp" and "r < next_ref w"
  shows "(slot \<le> Slot (heap w r) \<longrightarrow> (\<exists>e. ProcessSlots tp co ctx (Some r) slot w = Some (Inl e, w)))
       \<and> (\<exists>res. ProcessSlots tp co ctx (Some r) slot w = Some res)
       \<and> (\<forall>r' w'. ProcessSlots tp co ctx (Some r) slot w = Some (Inr r', w') \<longrightarrow>
            Slot (heap w r) < slot \<and> Slot (heap w' r') = slot
            \<and> (\<exists>start. (start = heap w r
                          \<or> (\<exists>key c. fst (SkipSlotCacheGet co ctx key c) = Inr (Some start)))
                 \<and> Slot start < slot
                 \<and> spec_process_slots tp ctx (unat slot - unat (Slot start)) start
                     = Inr (heap w' r')))"
proof -
  have first: "\<exists>e. ProcessSlots tp co ctx (Some r) slot w = Some (Inl e, w)"
    if "slot \<le> Slot (heap w r)"
    using that by (simp add: ProcessSlots_def)
  have second: "\<exists>res. ProcessSlots tp co ctx (Some r) slot w = Some res"
    using assms(1) by (rule ProcessSlots_terminates)
  have third: "Slot (heap w r) < slot \<and> Slot (heap w' r') = slot
            \<and> (\<exists>start. (start = heap w r
                          \<or> (\<exists>key c. fst (SkipSlotCacheGet co ctx key c) = Inr (Some start)))
                 \<and> Slot start < slot
                 \<and> spec_process_slots tp ctx (unat slot - unat (Slot start)) start
                     = Inr (heap w' r'))"
    if ps: "ProcessSlots tp co ctx (Some r) slot w = Some (Inr r', w')" for r' w'
  proof -
    from ProcessSlots_cases [OF ps assms(2)]
    obtain key h x w2 where lt: "Slot (heap w r) < slot"
      and ok: "start_ok co ctx slot r (heap w r) (next_ref w) w2 x"
      and adv: "advance_slots tp co ctx key slot (h, x) w2 = Some (Inr r', w')"
      by auto
    have res: "r' = x \<and> Slot (heap w' r') = slot
         \<and> spec_process_slots tp ctx (unat slot - unat (Slot (heap w2 x))) (heap w2 x)
             = Inr (heap w' r')"
      using assms(1) adv ok by (rule advance_slots_from_start)
    have "heap w2 x = heap w r
          \<or> (\<exists>key c. fst (SkipSlotCacheGet co ctx key c) = Inr (Some (heap w2 x)))"
      using ok by (auto simp: start_ok_def)
    moreover have "Slot (heap w2 x) < slot"
      using ok by (simp add: start_ok_def)
    ultimately have "\<exists>start. (start = heap w r
                            \<or> (\<exists>key c. fst (SkipSlotCacheGet co ctx key c) = Inr (Some start)))
                   \<and> Slot start < slot
                   \<and> spec_process_slots tp ctx (unat slot - unat (Slot start)) start
                       = Inr (heap w' r')"
      using res by blast
    then show ?thesis
      using lt res by blast
  qed
  show ?thesis
    using first second third by blast
qed

text \<open>
  C1. When \<open>ExecuteStateTransition\<close> returns without error, it returns a state whose
  hash tree root is the state root that the signed block declares. When the slots and
  the block have been processed and the root computed for the post-state differs from
  the declared one, it returns an error together with that post-state, not \<open>nil\<close>.
\<close>

theorem ExecuteStateTransition_state_root:
  "(\<forall>st w'. ExecuteStateTransition tp p co ctx state signedBlock w = Some ((st, None), w') \<longrightarrow>
      (\<exists>r sb blk. st = Some r \<and> signedBlock = Some sb \<and> Block sb = Some blk
         \<and> StateHashTreeRoot tp (heap w' r) = Inr (StateRoot blk)))
   \<and> (\<forall>sb blk r w1 w2 root.
        ctx = None \<and> signedBlock = Some sb \<and> Block sb = Some blk
        \<and> ProcessSlots tp co ctx state (BlockSlot blk) w = Some (Inr r, w1)
        \<and> mutate (ProcessBlock tp p ctx signedBlock) r w1 = (None, w2)
        \<and> StateHashTreeRoot tp (heap w2 r) = Inr root \<and> root \<noteq> StateRoot blk
        \<longrightarrow> (\<exists>err. ExecuteStateTransition tp p co ctx state signedBlock w
                     = Some ((Some r, Some err), w2)))"
proof -
  have first: "\<exists>r sb blk. st = Some r \<and> signedBlock = Some sb \<and> Block sb = Some blk
         \<and> StateHashTreeRoot tp (heap w' r) = Inr (StateRoot blk)"
    if "ExecuteStateTransition tp p co ctx state signedBlock w = Some ((st, None), w')" for st w'
    using that unfolding ExecuteStateTransition_def
    by (auto split: option.splits sum.splits prod.splits if_splits)
  have second: "\<exists>err. ExecuteStateTransition tp p co ctx state signedBlock w
                     = Some ((Some r, Some err), w2)"
    if "ctx = None \<and> signedBlock = Some sb \<and> Block sb = Some blk
        \<and> ProcessSlots tp co ctx state (BlockSlot blk) w = Some (Inr r, w1)
        \<and> mutate (ProcessBlock tp p ctx signedBlock) r w1 = (None, w2)
        \<and> StateHashTreeRoot tp (heap w2 r) = Inr root \<and> root \<noteq> StateRoot blk"
    for sb blk r w1 w2 root
    using that unfolding ExecuteStateTransition_def by auto
  show ?thesis
    using first second by blast
qed

lemma ProcessSlotsUsingNextSlotCache_frame:
  assumes ps: "ProcessSlotsUsingNextSlotCache tp co ctx c parentRoot slot w = Some (res, w')"
    and c: "c < next_ref w"
  shows "frame c w w'"
    and "\<And>r'. res = Inr r' \<Longrightarrow> (r' = c \<or> next_ref w \<le> r') \<and> r' < next_ref w'"
proof -
  obtain g w1 where get: "hand_out (NextSlotState co ctx parentRoot) w = (g, w1)"
    by (cases "hand_out (NextSlotState co ctx parentRoot) w")
  have f1: "next_ref w \<le> next_ref w1" "\<And>a. a < next_ref w \<Longrightarrow> heap w1 a = heap w a"
    using hand_out_frame(1,2) [OF get] by simp_all
  then have fr1: "frame c w w1"
    by (simp add: frame_def)
  have "frame c w w' \<and> (\<forall>r'. res = Inr r' \<longrightarrow> (r' = c \<or> next_ref w \<le> r') \<and> r' < next_ref w')"
  proof (cases g)
    case (Inl err)
    then show ?thesis
      using ps get fr1 by (auto simp: ProcessSlotsUsingNextSlotCache_def)
  next
    case (Inr nextSlotState)
    define parent where "parent = (case nextSlotState of None \<Rightarrow> c | Some n \<Rightarrow> n)"
    have parent: "(parent = c \<or> next_ref w \<le> parent) \<and> parent < next_ref w1"
    proof (cases nextSlotState)
      case None
      then show ?thesis using c f1 by (simp add: parent_def)
    next
      case (Some n)
      then show ?thesis
        using hand_out_frame(3) [OF get, of n] Inr by (simp add: parent_def)
    qed
    show ?thesis
    proof (cases "slot > Slot (heap w1 parent)")
      case False
      then have "res = Inr parent" "w' = w1"
        using ps get Inr by (auto simp: ProcessSlotsUsingNextSlotCache_def parent_def Let_def)
      then show ?thesis
        using fr1 parent by auto
    next
      case True
      then obtain res2 where ps2: "ProcessSlots tp co ctx (Some parent) slot w1 = Some (res2, w')"
        and res: "\<forall>r'. res = Inr r' \<longrightarrow> res2 = Inr r'"
        using ps get Inr
        by (auto simp: ProcessSlotsUsingNextSlotCache_def parent_def Let_def
            split: option.splits sum.splits)
      have f2: "frame parent w1 w'"
        and r2: "\<And>r'. res2 = Inr r' \<Longrightarrow> (r' = parent \<or> next_ref w1 \<le> r') \<and> r' < next_ref w'"
        using ProcessSlots_frame [OF ps2] parent by simp_all
      have "frame c w w'"
        by (rule frame_trans [OF fr1 f2]) (use parent in simp)
      moreover have "(r' = c \<or> next_ref w \<le> r') \<and> r' < next_ref w'" if "res = Inr r'" for r'
        using r2 [of r'] res that parent f1(1) by auto
      ultimately show ?thesis by blast
    qed
  qed
  then show "frame c w w'"
    and "\<And>r'. res = Inr r' \<Longrightarrow> (r' = c \<or> next_ref w \<le> r') \<and> r' < next_ref w'"
    by blast+
qed

lemma CalculateStateRoot_frame:
  assumes "CalculateStateRoot tp p co ctx (Some r0) signedBlock w = Some (res, w')"
    and "r0 < next_ref w"
  shows "(\<forall>a < next_ref w. heap w' a = heap w a)
       \<and> heap w' r0 = heap w r0 \<and> Slot (heap w' r0) = Slot (heap w r0)"
proof -
  have all: "\<forall>a < next_ref w. heap w' a = heap w a"
  proof (cases "ctx = None \<and> (\<exists>sb blk. signedBlock = Some sb \<and> Block sb = Some blk)")
    case False
    then have "w' = w"
      using assms(1) unfolding CalculateStateRoot_def
      by (auto split: option.splits)
    then show ?thesis by simp
  next
    case True
    then obtain sb blk where ctx: "ctx = None" and sb: "signedBlock = Some sb"
      and blk: "Block sb = Some blk"
      by blast
    obtain c w0 where cp: "Copy r0 w = (c, w0)"
      by (cases "Copy r0 w")
    have c: "c = next_ref w" and n0: "next_ref w0 = Suc (next_ref w)"
      and f0: "\<And>a. a < next_ref w \<Longrightarrow> heap w0 a = heap w a"
      using alloc_frame(1,2,5) [of "heap w r0" w c w0] cp by (simp_all add: Copy_def)
    let ?slots = "if EnableNextSlotStateCache tp
            then ProcessSlotsUsingNextSlotCache tp co ctx c (ParentRoot blk) (BlockSlot blk) w0
            else ProcessSlots tp co ctx (Some c) (BlockSlot blk) w0"
    obtain res1 w1 where slots: "?slots = Some (res1, w1)"
      using assms(1) ctx sb blk cp unfolding CalculateStateRoot_def
      by (auto simp: Let_def split: option.splits)
    have c0: "c < next_ref w0"
      using c n0 by simp
    have f1: "frame c w0 w1"
      and r1: "\<And>r'. res1 = Inr r' \<Longrightarrow> (r' = c \<or> next_ref w0 \<le> r') \<and> r' < next_ref w1"
      using slots ProcessSlotsUsingNextSlotCache_frame [OF _ c0] ProcessSlots_frame [OF _ c0]
      by (auto split: if_splits)
    have old1: "heap w1 a = heap w a" if "a < next_ref w" for a
      using f1 f0 [OF that] that c n0 unfolding frame_def by auto
    show ?thesis
    proof (cases res1)
      case (Inl err)
      then have "w' = w1"
        using assms(1) ctx sb blk cp slots unfolding CalculateStateRoot_def
        by (auto simp: Let_def split: if_splits)
      then show ?thesis using old1 by simp
    next
      case (Inr r')
      have r': "next_ref w \<le> r'"
        using r1 [OF Inr] c n0 by auto
      obtain e w2 where m: "mutate (ProcessBlockForStateRoot tp p ctx sb blk) r' w1 = (e, w2)"
        by (cases "mutate (ProcessBlockForStateRoot tp p ctx sb blk) r' w1")
      have f2: "frame r' w1 w2"
        using mutate_frame(1) [OF m] .
      have "w' = w2"
        using assms(1) ctx sb blk cp slots Inr m unfolding CalculateStateRoot_def
        by (auto simp: Let_def split: if_splits option.splits)
      moreover have "heap w2 a = heap w a" if "a < next_ref w" for a
      proof -
        have "a < next_ref w1"
          using that f1 n0 unfolding frame_def by simp
        moreover have "a \<noteq> r'"
          using that r' by simp
        ultimately have "heap w2 a = heap w1 a"
          using f2 unfolding frame_def by simp
        then show ?thesis using old1 [OF that] by simp
      qed
      ultimately show ?thesis by simp
    qed
  qed
  then show ?thesis
    using assms(2) by simp
qed

section \<open>The entry points on concrete inputs\<close>

lemma test_keep_slot: "epoch_processors_keep_slot test_transition_primitives"
  by (simp add: epoch_processors_keep_slot_def test_transition_primitives_def)

lemma test_ProcessSlot:
  "ProcessSlot test_transition_primitives test_slot_state = (None, test_processed_state)"
  by (simp add: ProcessSlot_def test_transition_primitives_def UpdateStateRootAtIndex_def
      UpdateBlockRootAtIndex_def SetLatestBlockHeader_def Let_def test_slot_state_def
      test_processed_state_def test_state_def SlotsPerHistoricalRoot_def)

lemma test_state_slots:
  "Slot test_slot_state = 0" "Slot test_processed_state = 0" "Slot test_advanced_state = 1"
  by (simp_all add: test_slot_state_def test_state_def test_processed_state_def
      test_advanced_state_def)

lemma test_loop_one_slot:
  "process_slots_loop test_transition_primitives None 1 test_slot_state
     = Some (Finished, test_advanced_state)"
proof -
  have "process_slots_loop test_transition_primitives None 1 test_slot_state
          = process_slots_loop test_transition_primitives None 1 test_advanced_state"
    by (subst loop_unfold)
      (simp add: test_ProcessSlot test_state_slots CanProcessEpoch_def SlotsPerEpoch_def
        SetSlot_def test_advanced_state_def)
  also have "\<dots> = Some (Finished, test_advanced_state)"
    by (subst loop_unfold) (simp add: test_state_slots)
  finally show ?thesis .
qed

text \<open>A world with the state object at \<open>r\<close> advanced by one slot.\<close>

lemma test_ProcessSlots_at:
  assumes "heap w r = test_slot_state"
  shows "ProcessSlots test_transition_primitives test_cache_ops None (Some r) 1 w
     = Some (Inr r, w\<lparr>heap := (heap w)(r := test_advanced_state)\<rparr>)"
proof -
  have k: "cacheKey test_transition_primitives None test_slot_state = Inr [0]"
    by (simp add: test_transition_primitives_def test_state_slots)
  show ?thesis
    by (simp add: ProcessSlots_def assms k test_state_slots test_loop_one_slot hand_out_def
        on_caches_def use_cached_def advance_slots_def put_if_advanced_def Let_def
        test_cache_ops_def)
qed

lemma test_ProcessSlots:
  "ProcessSlots test_transition_primitives test_cache_ops None (Some 0) 1 test_world
     = Some (Inr 0, test_world\<lparr>heap := (heap test_world)(0 := test_advanced_state)\<rparr>)"
  by (rule test_ProcessSlots_at) (simp add: test_world_def)

theorem ProcessSlots_advances_witness:
  "epoch_processors_keep_slot test_transition_primitives \<and> 0 < next_ref test_world
   \<and> (\<exists>w'. ProcessSlots test_transition_primitives test_cache_ops None (Some 0) 1 test_world
              = Some (Inr 0, w')
           \<and> Slot (heap w' 0) = 1)
   \<and> (\<exists>e. ProcessSlots test_transition_primitives test_cache_ops None (Some 0) 0 test_world
              = Some (Inl e, test_world))"
proof -
  have r: "0 < next_ref test_world"
    by (simp add: test_world_def)
  obtain w' where ps: "ProcessSlots test_transition_primitives test_cache_ops None (Some 0) 1 test_world
          = Some (Inr 0, w')"
    using test_ProcessSlots by simp
  have "Slot (heap w' 0) = 1"
    using ProcessSlots_advances [OF test_keep_slot r, of 1 test_cache_ops None] ps by blast
  moreover have "\<exists>e. ProcessSlots test_transition_primitives test_cache_ops None (Some 0) 0 test_world
              = Some (Inl e, test_world)"
    using ProcessSlots_advances [OF test_keep_slot r, of 0 test_cache_ops None] by simp
  ultimately show ?thesis
    using test_keep_slot r ps by blast
qed

lemma test_block_steps:
  "VerifyOperationLengths None (Some (test_signed_block root)) test_advanced_state
     = (None, test_advanced_state)"
  "ProcessDeposits test_primitives None (Some (test_signed_block root)) test_advanced_state
     = (None, test_advanced_state)"
  "ProcessVoluntaryExits test_transition_primitives None (Some (test_signed_block root))
     test_advanced_state = (None, test_advanced_state)"
proof -
  show "VerifyOperationLengths None (Some (test_signed_block root)) test_advanced_state
             = (None, test_advanced_state)"
    by (simp add: VerifyOperationLengths_def VerifyNilBeaconBlock_def test_signed_block_def
        test_advanced_state_def test_processed_state_def test_slot_state_def test_state_def
        MaxProposerSlashings_def
        MaxAttesterSlashings_def MaxAttestations_def MaxVoluntaryExits_def MaxDeposits_def Let_def)
  show "ProcessDeposits test_primitives None (Some (test_signed_block root)) test_advanced_state
             = (None, test_advanced_state)"
    by (simp add: ProcessDeposits_def VerifyNilBeaconBlock_def test_signed_block_def test_domain
        verifyDepositDataWithDomain_def Let_def)
  show "ProcessVoluntaryExits test_transition_primitives None (Some (test_signed_block root))
             test_advanced_state = (None, test_advanced_state)"
    by (simp add: ProcessVoluntaryExits_def VerifyNilBeaconBlock_def test_signed_block_def)
qed

lemma test_processors:
  "ProcessBlockHeader test_transition_primitives c b s = (None, s)"
  "ProcessRandao test_transition_primitives c b s = (None, s)"
  "ProcessEth1DataInBlock test_transition_primitives c b s = (None, s)"
  "ProcessProposerSlashings test_transition_primitives c b s = (None, s)"
  "ProcessAttesterSlashings test_transition_primitives c b s = (None, s)"
  "ProcessAttestations test_transition_primitives c b s = (None, s)"
  "ProcessAttestationsNoVerifySignature test_transition_primitives c b s = (None, s)"
  "ProcessBlockHeaderNoVerify test_transition_primitives blk s = (None, s)"
  "ProcessRandaoNoVerify test_transition_primitives body s = (None, s)"
  by (simp_all add: test_transition_primitives_def)

lemma test_ProcessBlock:
  "ProcessBlock test_transition_primitives test_primitives None (Some (test_signed_block root))
     test_advanced_state = (None, test_advanced_state)"
  unfolding ProcessBlock_def processingPipeline_def
  by (simp add: test_processors test_block_steps)

lemma test_ProcessBlockForStateRoot:
  "ProcessBlockForStateRoot test_transition_primitives test_primitives None
     (test_signed_block root) blk test_advanced_state = (None, test_advanced_state)"
  unfolding ProcessBlockForStateRoot_def ProcessOperationsNoVerifyAttsSigs_def
  by (simp add: test_processors test_block_steps)

lemma test_ExecuteStateTransition:
  "ExecuteStateTransition test_transition_primitives test_primitives test_cache_ops None (Some 0)
     (Some (test_signed_block root)) test_world
   = Some ((Some 0,
            if [1] \<noteq> root
            then Some (Errorf ''validate state root failed, wanted: %#x, received: %#x''
                         [ArgX [1], ArgX root])
            else None),
           test_world\<lparr>heap := (heap test_world)(0 := test_advanced_state)\<rparr>)"
proof -
  have b: "Block (test_signed_block root)
        = Some \<lparr>BlockSlot = 1, ParentRoot = [], StateRoot = root,
        Body = Some \<lparr>ProposerSlashings = [], AttesterSlashings = [], Attestations = [],
                     Deposits = [], VoluntaryExits = []\<rparr>\<rparr>"
    by (simp add: test_signed_block_def)
  have h: "StateHashTreeRoot test_transition_primitives test_advanced_state = Inr [1]"
    by (simp add: test_transition_primitives_def test_state_slots)
  show ?thesis
    unfolding ExecuteStateTransition_def
    by (simp add: b test_ProcessSlots mutate_def test_ProcessBlock h)
qed

theorem ExecuteStateTransition_state_root_witness:
  "(\<exists>w'. ExecuteStateTransition test_transition_primitives test_primitives test_cache_ops None
            (Some 0) (Some (test_signed_block [1])) test_world = Some ((Some 0, None), w')
         \<and> StateHashTreeRoot test_transition_primitives (heap w' 0) = Inr [1])
   \<and> (\<exists>err w'. ExecuteStateTransition test_transition_primitives test_primitives test_cache_ops
            None (Some 0) (Some (test_signed_block [7])) test_world = Some ((Some 0, Some err), w')
         \<and> StateHashTreeRoot test_transition_primitives (heap w' 0) = Inr [1])"
proof -
  let ?w = "test_world\<lparr>heap := (heap test_world)(0 := test_advanced_state)\<rparr>"
  have h: "StateHashTreeRoot test_transition_primitives (heap ?w 0) = Inr [1]"
    by (simp add: test_transition_primitives_def test_state_slots)
  have ok: "ExecuteStateTransition test_transition_primitives test_primitives test_cache_ops None
            (Some 0) (Some (test_signed_block [1])) test_world = Some ((Some 0, None), ?w)"
    by (simp add: test_ExecuteStateTransition)
  have blk: "Block (test_signed_block [7])
        = Some \<lparr>BlockSlot = 1, ParentRoot = [], StateRoot = [7],
        Body = Some \<lparr>ProposerSlashings = [], AttesterSlashings = [], Attestations = [],
                     Deposits = [], VoluntaryExits = []\<rparr>\<rparr>"
    by (simp add: test_signed_block_def)
  have m: "mutate (ProcessBlock test_transition_primitives test_primitives None
             (Some (test_signed_block [7]))) 0 ?w = (None, ?w)"
    by (simp add: mutate_def test_ProcessBlock)
  have ps: "ProcessSlots test_transition_primitives test_cache_ops None (Some 0) 1 test_world
              = Some (Inr 0, ?w)"
    by (rule test_ProcessSlots)
  have first: "\<exists>r sb blk. Some 0 = Some r \<and> Some (test_signed_block [1]) = Some sb
         \<and> Block sb = Some blk
         \<and> StateHashTreeRoot test_transition_primitives (heap ?w r) = Inr (StateRoot blk)"
    using ExecuteStateTransition_state_root [of test_transition_primitives test_primitives
        test_cache_ops None "Some 0" "Some (test_signed_block [1])" test_world] ok
    by blast
  have second: "\<exists>err. ExecuteStateTransition test_transition_primitives test_primitives
          test_cache_ops None (Some 0) (Some (test_signed_block [7])) test_world
        = Some ((Some 0, Some err), ?w)"
    using ExecuteStateTransition_state_root [of test_transition_primitives test_primitives
        test_cache_ops None "Some 0" "Some (test_signed_block [7])" test_world] blk ps m h
    by simp
  show ?thesis
    using ok h second by blast
qed

lemma CalculateStateRoot_terminates:
  assumes "epoch_processors_keep_slot tp"
  shows "\<exists>res. CalculateStateRoot tp p co ctx state signedBlock w = Some res"
proof -
  have ps: "\<And>st slot w. \<exists>a b. ProcessSlots tp co ctx st slot w = Some (a, b)"
    using ProcessSlots_terminates [OF assms] by simp
  have "\<exists>a b. ProcessSlotsUsingNextSlotCache tp co ctx c root slot w = Some (a, b)" for c root slot w
  proof -
    obtain g w1 where get: "hand_out (NextSlotState co ctx root) w = (g, w1)"
      by (cases "hand_out (NextSlotState co ctx root) w")
    show ?thesis
    proof (cases g)
      case (Inl err)
      then show ?thesis using get by (simp add: ProcessSlotsUsingNextSlotCache_def)
    next
      case (Inr n)
      let ?ps = "ProcessSlots tp co ctx (Some (case n of None \<Rightarrow> c | Some x \<Rightarrow> x)) slot w1"
      obtain a b where "?ps = Some (a, b)"
        using ps by blast
      then show ?thesis
        using get Inr
        by (cases a) (simp_all add: ProcessSlotsUsingNextSlotCache_def Let_def)
    qed
  qed
  then have nsc: "\<And>c root slot w. \<exists>a b.
      ProcessSlotsUsingNextSlotCache tp co ctx c root slot w = Some (a, b)"
    by blast
  show ?thesis
  proof (cases "ctx = None \<and> (\<exists>r0 sb blk. state = Some r0 \<and> signedBlock = Some sb \<and> Block sb = Some blk)")
    case False
    then show ?thesis
      unfolding CalculateStateRoot_def by (auto split: option.splits)
  next
    case True
    then obtain r0 sb blk where c: "ctx = None" "state = Some r0" "signedBlock = Some sb"
      "Block sb = Some blk"
      by blast
    let ?slots = "if EnableNextSlotStateCache tp
            then ProcessSlotsUsingNextSlotCache tp co ctx (fst (Copy r0 w)) (ParentRoot blk)
                   (BlockSlot blk) (snd (Copy r0 w))
            else ProcessSlots tp co ctx (Some (fst (Copy r0 w))) (BlockSlot blk) (snd (Copy r0 w))"
    have "\<exists>a b. ?slots = Some (a, b)"
      using ps nsc by (cases "EnableNextSlotStateCache tp") simp_all
    then obtain a b where sl: "?slots = Some (a, b)"
      by blast
    show ?thesis
    proof (cases a)
      case (Inl err)
      then show ?thesis
        using c sl unfolding CalculateStateRoot_def Let_def by simp
    next
      case (Inr r)
      then show ?thesis
        using c sl unfolding CalculateStateRoot_def Let_def
        by (cases "mutate (ProcessBlockForStateRoot tp p ctx sb blk) r b")
          (auto split: option.splits)
    qed
  qed
qed

lemma test_CalculateStateRoot:
  "CalculateStateRoot test_transition_primitives test_primitives test_cache_ops None (Some 0)
     (Some (test_signed_block root)) test_world
   = Some (Inr [1],
           \<lparr>heap = (\<lambda>a. test_slot_state)(1 := test_advanced_state), next_ref = 2, caches = ()\<rparr>)"
proof -
  let ?w0 = "\<lparr>heap = (\<lambda>a. test_slot_state)(1 := test_slot_state), next_ref = 2, caches = ()\<rparr>"
  have cp: "Copy 0 test_world = (1, ?w0)"
    by (simp add: Copy_def alloc_def test_world_def)
  have b: "Block (test_signed_block root)
        = Some \<lparr>BlockSlot = 1, ParentRoot = [], StateRoot = root,
        Body = Some \<lparr>ProposerSlashings = [], AttesterSlashings = [], Attestations = [],
                     Deposits = [], VoluntaryExits = []\<rparr>\<rparr>"
    by (simp add: test_signed_block_def)
  have e: "\<not> EnableNextSlotStateCache test_transition_primitives"
    by (simp add: test_transition_primitives_def)
  have ps: "ProcessSlots test_transition_primitives test_cache_ops None (Some 1) 1 ?w0
     = Some (Inr 1, ?w0\<lparr>heap := (heap ?w0)(1 := test_advanced_state)\<rparr>)"
    by (rule test_ProcessSlots_at) simp
  have h: "StateHashTreeRoot test_transition_primitives test_advanced_state = Inr [1]"
    by (simp add: test_transition_primitives_def test_state_slots)
  show ?thesis
    unfolding CalculateStateRoot_def
    by (simp add: b cp e ps [simplified] mutate_def test_ProcessBlockForStateRoot h)
qed

text \<open>
  C10. Whatever \<open>CalculateStateRoot\<close> returns, a root or an error, every state object
  that was there before the call, the caller's input state among them, has after the
  call the field values that it had before, its slot in particular; and with epoch
  processors that leave the slot as it is, \<open>CalculateStateRoot\<close> returns.
\<close>

theorem CalculateStateRoot_input_unchanged:
  assumes "r0 < next_ref w"
  shows "(\<forall>res w'. CalculateStateRoot tp p co ctx (Some r0) signedBlock w = Some (res, w') \<longrightarrow>
            (\<forall>a < next_ref w. heap w' a = heap w a)
            \<and> heap w' r0 = heap w r0 \<and> Slot (heap w' r0) = Slot (heap w r0))
       \<and> (epoch_processors_keep_slot tp \<longrightarrow>
            (\<exists>res w'. CalculateStateRoot tp p co ctx (Some r0) signedBlock w = Some (res, w')))"
  using CalculateStateRoot_frame [OF _ assms] CalculateStateRoot_terminates by fast

theorem CalculateStateRoot_input_unchanged_witness:
  "0 < next_ref test_world
   \<and> epoch_processors_keep_slot test_transition_primitives
   \<and> (\<exists>w'. CalculateStateRoot test_transition_primitives test_primitives test_cache_ops None
              (Some 0) (Some (test_signed_block [])) test_world = Some (Inr [1], w')
           \<and> heap w' 0 = heap test_world 0 \<and> Slot (heap w' 0) = 0 \<and> Slot (heap w' 1) = 1)"
proof -
  have r: "0 < next_ref test_world"
    by (simp add: test_world_def)
  let ?w = "\<lparr>heap = (\<lambda>a. test_slot_state)(1 := test_advanced_state), next_ref = 2, caches = ()\<rparr>"
  have c: "CalculateStateRoot test_transition_primitives test_primitives test_cache_ops None
              (Some 0) (Some (test_signed_block [])) test_world = Some (Inr [1], ?w)"
    by (rule test_CalculateStateRoot)
  have "heap ?w 0 = heap test_world 0 \<and> Slot (heap ?w 0) = Slot (heap test_world 0)"
    using CalculateStateRoot_input_unchanged [OF r, of test_transition_primitives test_primitives
        test_cache_ops None "Some (test_signed_block [])"] c
    by blast
  moreover have "Slot (heap test_world 0) = 0" "Slot (heap ?w 1) = 1"
    by (simp_all add: test_world_def test_state_slots)
  ultimately show ?thesis
    using r test_keep_slot c by auto
qed

end
